(* ===== verification/Prelude.thy ===== *)
theory Prelude
  imports Main "HOL-Library.Word"
begin

text \<open>
  Shared vocabulary of the development: the error values every component can
  raise (one constructor per \<open>throw\<close> of the sources and of the library calls they
  make), the sequencing combinator for computations that may throw, JavaScript
  truthiness of optional strings, the type names of the model, and the generic
  list lemmas the component proofs use.
\<close>

named_theorems builder_simps "equations of the transaction builder operations"
named_theorems amount_simps "evaluation rules of the amount codec"

type_synonym byte = "8 word"
type_synonym address = string
type_synonym txid = string

text \<open>
  Errors. The TypeScript sources throw \<open>Error\<close> objects; each distinct throw site
  (in \<open>src/\<close> or in the library call that throws) is one constructor, so that a
  theorem can say which one propagates.
\<close>

datatype error =
    Validation_error
  | Impossible_to_prepare
  | Undefined_access string
  | Invalid_txid
  | Coinbase_input
  | Invalid_vout
  | Duplicate_txout
  | Invalid_value
  | Invalid_address address
  | Invalid_wif
  | Inconsistent_network
  | Would_invalidate_signatures
  | No_input_at_index nat
  | Needs_outputs
  | Signature_exists
  | Cannot_sign
  | No_inputs
  | No_outputs
  | Incomplete
  | Service_error string

subsection \<open>Computations that may throw\<close>

text \<open>
  A computation that may throw returns \<open>error + 'a\<close>; \<open>Inl\<close> is the thrown error.
  \<open>sbind\<close> runs the continuation only on success, as the next statement after an
  \<open>await\<close> that did not throw.
\<close>

definition sbind :: "'e + 'a \<Rightarrow> ('a \<Rightarrow> 'e + 'b) \<Rightarrow> 'e + 'b" where
  "sbind m f = (case m of Inl e \<Rightarrow> Inl e | Inr a \<Rightarrow> f a)"

lemma sbind_Inl [simp]: "sbind (Inl e) f = Inl e"
  by (simp add: sbind_def)

lemma sbind_Inr [simp]: "sbind (Inr a) f = f a"
  by (simp add: sbind_def)

lemma sbind_eq_Inr:
  "sbind m f = Inr b \<longleftrightarrow> (\<exists>a. m = Inr a \<and> f a = Inr b)"
  by (cases m) simp_all

lemma sbind_eq_Inl:
  "sbind m f = Inl e \<longleftrightarrow> (m = Inl e \<or> (\<exists>a. m = Inr a \<and> f a = Inl e))"
  by (cases m) simp_all

subsection \<open>JavaScript truthiness\<close>

text \<open>
  An optional string field (\<open>mnemonic\<close>, \<open>attr\<close>, \<open>fee\<close>) is truthy when it is present
  and not the empty string; an optional array (\<open>keyPair\<close>) is truthy whenever it is
  present, even when empty.
\<close>

definition truthy_str :: "string option \<Rightarrow> bool" where
  "truthy_str s = (case s of None \<Rightarrow> False | Some x \<Rightarrow> x \<noteq> [])"

definition truthy_arr :: "'a list option \<Rightarrow> bool" where
  "truthy_arr a = (a \<noteq> None)"

lemma truthy_str_simps [simp]:
  "\<not> truthy_str None"
  "truthy_str (Some x) \<longleftrightarrow> x \<noteq> []"
  by (simp_all add: truthy_str_def)

lemma truthy_arr_simps [simp]:
  "\<not> truthy_arr None"
  "truthy_arr (Some a)"
  by (simp_all add: truthy_arr_def)

lemma truthy_str_the:
  "truthy_str s \<Longrightarrow> s = Some (the s) \<and> the s \<noteq> []"
  by (cases s) simp_all

subsection \<open>Lists\<close>

text \<open>
  \<open>sep_after P xs\<close>: every element satisfying \<open>P\<close> comes after every element that does
  not, i.e. \<open>xs\<close> is a block of non-\<open>P\<close> elements followed by a block of \<open>P\<close> elements.
\<close>

fun sep_after :: "('a \<Rightarrow> bool) \<Rightarrow> 'a list \<Rightarrow> bool" where
  "sep_after P [] = True"
| "sep_after P (x # xs) = ((P x \<longrightarrow> list_all P xs) \<and> sep_after P xs)"

lemma sep_after_iff: "sep_after P xs \<longleftrightarrow> xs = filter (\<lambda>y. \<not> P y) xs @ filter P xs"
proof (induction xs)
  case Nil
  then show ?case by simp
next
  case (Cons x xs)
  show ?case
  proof (cases "P x")
    case True
    have "list_all P xs \<and> sep_after P xs \<longleftrightarrow> filter (\<lambda>y. \<not> P y) xs = []"
      using Cons.IH by (auto simp: list_all_iff filter_empty_conv)
    moreover have "filter (\<lambda>y. \<not> P y) xs = [] \<longleftrightarrow> x # xs = filter (\<lambda>y. \<not> P y) xs @ x # filter P xs"
    proof
      assume "filter (\<lambda>y. \<not> P y) xs = []"
      then show "x # xs = filter (\<lambda>y. \<not> P y) xs @ x # filter P xs"
        by (simp add: filter_empty_conv filter_id_conv)
    next
      assume H: "x # xs = filter (\<lambda>y. \<not> P y) xs @ x # filter P xs"
      show "filter (\<lambda>y. \<not> P y) xs = []"
      proof (rule ccontr)
        assume "filter (\<lambda>y. \<not> P y) xs \<noteq> []"
        then obtain y ys where y: "filter (\<lambda>y. \<not> P y) xs = y # ys"
          by (cases "filter (\<lambda>y. \<not> P y) xs") auto
        with H have "y = x" by simp
        moreover from y have "\<not> P y" by (auto dest: filter_eq_ConsD)
        ultimately show False using True by simp
      qed
    qed
    ultimately show ?thesis using True by simp
  next
    case False
    with Cons.IH show ?thesis by simp
  qed
qed

text \<open>
  If every element outside \<open>P\<close> sits at an index below the number of such elements,
  those elements form a prefix.
\<close>

lemma sep_after_of_index_bound:
  assumes "\<forall>j < length xs. \<not> P (xs ! j) \<longrightarrow> j < length (filter (\<lambda>y. \<not> P y) xs)"
  shows "sep_after P xs"
  using assms
proof (induction xs)
  case Nil
  then show ?case by simp
next
  case (Cons x xs)
  define n where "n = length (filter (\<lambda>y. \<not> P y) xs)"
  have H: "\<not> P (xs ! j) \<Longrightarrow> j < length xs \<Longrightarrow> Suc j < length (filter (\<lambda>y. \<not> P y) (x # xs))" for j
    using Cons.prems by (metis Suc_less_eq length_Cons nth_Cons_Suc)
  have "\<forall>j < length xs. \<not> P (xs ! j) \<longrightarrow> j < n"
    using H by (fastforce simp: n_def split: if_splits)
  then have sep: "sep_after P xs" unfolding n_def by (rule Cons.IH)
  have "list_all P xs" if Px: "P x"
  proof (rule ccontr)
    assume "\<not> list_all P xs"
    then have n0: "0 < n" by (auto simp: n_def list_all_iff filter_empty_conv)
    have "{j. j < length xs \<and> \<not> P (xs ! j)} \<subseteq> {..< n - 1}"
      using H Px by (fastforce simp: n_def)
    then have "card {j. j < length xs \<and> \<not> P (xs ! j)} \<le> n - 1"
      by (metis card_lessThan card_mono finite_lessThan)
    moreover have "card {j. j < length xs \<and> \<not> P (xs ! j)} = n"
      by (simp add: n_def length_filter_conv_card)
    ultimately show False using n0 by simp
  qed
  with sep show ?case by simp
qed

lemma sep_after_nth:
  "sep_after P xs \<Longrightarrow> j < length (filter (\<lambda>y. \<not> P y) xs) \<Longrightarrow> xs ! j = filter (\<lambda>y. \<not> P y) xs ! j"
proof (induction xs arbitrary: j)
  case Nil
  then show ?case by simp
next
  case (Cons x xs)
  show ?case
  proof (cases "P x")
    case True
    with Cons.prems have "filter (\<lambda>y. \<not> P y) xs = []"
      by (simp add: list_all_iff filter_empty_conv)
    with True Cons.prems show ?thesis by simp
  next
    case False
    with Cons show ?thesis by (cases j) simp_all
  qed
qed

subsection \<open>Deterministic relations\<close>

text \<open>
  Two final states reachable from the same state by a deterministic relation are
  equal: the relational model of a sequential body has at most one outcome.
\<close>

lemma rtranclp_det_final:
  assumes det: "\<And>x y z. R x y \<Longrightarrow> R x z \<Longrightarrow> y = z"
    and ab: "R\<^sup>*\<^sup>* a b" and ac: "R\<^sup>*\<^sup>* a c"
    and fb: "\<And>d. \<not> R b d" and fc: "\<And>d. \<not> R c d"
  shows "b = c"
  using ab ac
proof (induction rule: converse_rtranclp_induct)
  case base
  then show ?case using fb by (auto elim: converse_rtranclpE)
next
  case (step a a')
  note hyp = step.hyps(1) and IH = step.IH
  from step.prems show ?case
  proof (cases rule: converse_rtranclpE)
    case base
    with hyp fc show ?thesis by blast
  next
    case (step y)
    with det [OF hyp] have "R\<^sup>*\<^sup>* a' c" by blast
    then show ?thesis by (rule IH)
  qed
qed

end
