(* ===== verification/Amount.thy ===== *)
theory Amount
  imports Prelude
begin

text \<open>
  The amount codec: the expression
  \<open>Number(new BigNumber(a).multipliedBy(100000000).toFixed(8, BigNumber.ROUND_FLOOR))\<close>
  that \<open>prepareBitcoinSignedOffchainTransaction\<close> and
  \<open>prepareLitecoinSignedOffchainTransaction\<close> apply to the requested amount and to the
  amount of the change-carrier entry. It is modelled stage by stage:
  \<^item> \<open>new BigNumber(s)\<close> (bignumber.js): the decimal grammar
    \<open>-?(\d+(\.\d*)?|\.\d+)(e[+-]?\d+)?\<close>, the fallback that strips surrounding white
    space and a leading \<open>+\<close>, the literals \<open>Infinity\<close> and \<open>NaN\<close>, and the exponent
    range \<open>[-10^9, 10^9]\<close> beyond which a value becomes infinite or zero;
  \<^item> \<open>multipliedBy\<close>: exact multiplication with the same range check;
  \<^item> \<open>toFixed(8, ROUND_FLOOR)\<close>: the value floored to 8 decimal places, represented by the
    value of the printed string;
  \<^item> \<open>Number(...)\<close>: the decimal string read as an IEEE double, rounded to nearest with
    ties to even.
  A finite double is \<open>JFin m e\<close>, the value \<open>m * 2 ^ e\<close>.
\<close>

datatype bignum = BNaN | BInf bool | BFin int nat

datatype fixed8 = FixNaN | FixInf bool | Fix int

datatype js_num = JNaN | JInf bool | JFin int int

subsection \<open>Digits\<close>

definition is_dec_digit :: "char \<Rightarrow> bool" where
  "is_dec_digit c \<longleftrightarrow> (48::nat) \<le> of_char c \<and> of_char c \<le> (57::nat)"

definition digit_val :: "char \<Rightarrow> nat" where
  "digit_val c = of_char c - 48"

definition digits_val :: "string \<Rightarrow> nat" where
  "digits_val ds = foldl (\<lambda>acc c. 10 * acc + digit_val c) 0 ds"

fun ndigits :: "nat \<Rightarrow> nat" where
  "ndigits n = (if n < 10 then 1 else Suc (ndigits (n div 10)))"

declare ndigits.simps [simp del]

subsection \<open>\<open>new BigNumber(s)\<close>\<close>

definition bn_max_exp :: int where
  "bn_max_exp = 1000000000"

text \<open>
  \<open>bn_norm n k\<close> is the number \<open>n / 10 ^ k\<close> after bignumber.js's range check on the
  decimal exponent of its leading digit (\<open>normalise\<close> and the constructor).
\<close>

definition bn_norm :: "int \<Rightarrow> nat \<Rightarrow> bignum" where
  "bn_norm n k =
     (if n = 0 then BFin 0 0
      else let e = int (ndigits (nat \<bar>n\<bar>)) - 1 - int k in
        if bn_max_exp < e then BInf (n < 0)
        else if e < - bn_max_exp then BFin 0 0
        else BFin n k)"

definition parse_signed_int :: "string \<Rightarrow> int option" where
  "parse_signed_int cs =
     (let (neg, ds) = (case cs of
                         [] \<Rightarrow> (False, [])
                       | c # r \<Rightarrow> if c = CHR ''-'' then (True, r)
                                 else if c = CHR ''+'' then (False, r) else (False, cs))
      in if ds \<noteq> [] \<and> list_all is_dec_digit ds
         then Some (if neg then - int (digits_val ds) else int (digits_val ds))
         else None)"

fun parse_exponent :: "string \<Rightarrow> int option" where
  "parse_exponent [] = Some 0"
| "parse_exponent (c # cs) =
     (if c = CHR ''e'' \<or> c = CHR ''E'' then parse_signed_int cs else None)"

text \<open>
  The regular expression \<open>isNumeric\<close> of bignumber.js, as a parser returning the sign,
  the integer digits, the fraction digits and the exponent.
\<close>

definition parse_decimal :: "string \<Rightarrow> (bool \<times> string \<times> string \<times> int) option" where
  "parse_decimal s =
     (let (neg, s1) = (case s of
                         [] \<Rightarrow> (False, [])
                       | c # r \<Rightarrow> if c = CHR ''-'' then (True, r) else (False, s));
          ip = takeWhile is_dec_digit s1;
          s2 = dropWhile is_dec_digit s1
      in case s2 of
           [] \<Rightarrow> if ip = [] then None else Some (neg, ip, [], 0)
         | c # r \<Rightarrow>
             if c = CHR ''.'' then
               (let fp = takeWhile is_dec_digit r; s3 = dropWhile is_dec_digit r in
                if ip = [] \<and> fp = [] then None
                else map_option (\<lambda>e. (neg, ip, fp, e)) (parse_exponent s3))
             else if ip = [] then None
             else map_option (\<lambda>e. (neg, ip, [], e)) (parse_exponent s2))"

definition decimal_value :: "bool \<Rightarrow> string \<Rightarrow> string \<Rightarrow> int \<Rightarrow> int \<times> nat" where
  "decimal_value neg ip fp e =
     (let n = int (digits_val (ip @ fp));
          n' = (if neg then - n else n);
          k = int (length fp) - e
      in if k \<le> 0 then (n' * 10 ^ nat (- k), 0) else (n', nat k))"

text \<open>JavaScript's \<open>\s\<close> on ASCII characters, and \<open>\w\<close>.\<close>

definition js_space :: "char \<Rightarrow> bool" where
  "js_space c \<longleftrightarrow> c \<in> {CHR '' '', CHR 0x09, CHR 0x0A, CHR 0x0B, CHR 0x0C, CHR 0x0D}"

definition js_word :: "char \<Rightarrow> bool" where
  "js_word c \<longleftrightarrow> is_dec_digit c \<or> c = CHR ''_'' \<or>
     ((65::nat) \<le> of_char c \<and> of_char c \<le> (90::nat)) \<or> ((97::nat) \<le> of_char c \<and> of_char c \<le> (122::nat))"

text \<open>\<open>str.replace(/^\s*\+(?=[\w.])|^\s+|\s+$/g, '')\<close>\<close>

definition strip_ws_plus :: "string \<Rightarrow> string" where
  "strip_ws_plus s =
     (let t = dropWhile js_space s;
          u = (case t of
                 c # d # r \<Rightarrow> if c = CHR ''+'' \<and> (js_word d \<or> d = CHR ''.'') then d # r else t
               | _ \<Rightarrow> t)
      in rev (dropWhile js_space (rev u)))"

text \<open>
  \<open>new BigNumber(s)\<close>: a string matching \<open>isNumeric\<close> is read as a decimal; any other
  string goes through \<open>parseNumeric\<close>, which strips white space and a leading \<open>+\<close>,
  recognises \<open>Infinity\<close> and \<open>NaN\<close>, and reads the stripped string once more
  (stripping is idempotent, so the second reading either matches \<open>isNumeric\<close> or
  gives \<open>NaN\<close>). Strings with a \<open>0x\<close>, \<open>0b\<close> or \<open>0o\<close> prefix, which bignumber.js
  reads in base 16, 2 or 8, are read as \<open>NaN\<close> here.
\<close>

definition bn_of_decimal :: "bool \<times> string \<times> string \<times> int \<Rightarrow> bignum" where
  "bn_of_decimal p = (case p of (neg, ip, fp, e) \<Rightarrow> case_prod bn_norm (decimal_value neg ip fp e))"

definition parse_bignumber :: "string \<Rightarrow> bignum" where
  "parse_bignumber s =
     (case parse_decimal s of
        Some p \<Rightarrow> bn_of_decimal p
      | None \<Rightarrow>
          (let t = strip_ws_plus s in
           if t = ''Infinity'' then BInf False
           else if t = ''-Infinity'' then BInf True
           else if t = ''NaN'' \<or> t = ''-NaN'' then BNaN
           else case parse_decimal t of Some p \<Rightarrow> bn_of_decimal p | None \<Rightarrow> BNaN))"

subsection \<open>\<open>multipliedBy\<close> and \<open>toFixed(8, ROUND_FLOOR)\<close>\<close>

fun bn_mult :: "bignum \<Rightarrow> bignum \<Rightarrow> bignum" where
  "bn_mult BNaN y = BNaN"
| "bn_mult x BNaN = BNaN"
| "bn_mult (BInf s) (BInf t) = BInf (s \<noteq> t)"
| "bn_mult (BInf s) (BFin m k) = (if m = 0 then BNaN else BInf (s \<noteq> (m < 0)))"
| "bn_mult (BFin m k) (BInf s) = (if m = 0 then BNaN else BInf (s \<noteq> (m < 0)))"
| "bn_mult (BFin n k) (BFin m j) = bn_norm (n * m) (k + j)"

text \<open>
  \<open>toFixed(8, ROUND_FLOOR)\<close> rounds towards minus infinity at the eighth decimal place;
  \<open>Fix m\<close> is the printed string of the value \<open>m / 10 ^ 8\<close>. Integer \<open>div\<close> rounds
  towards minus infinity, as \<open>ROUND_FLOOR\<close> does.
\<close>

fun to_fixed8_floor :: "bignum \<Rightarrow> fixed8" where
  "to_fixed8_floor BNaN = FixNaN"
| "to_fixed8_floor (BInf s) = FixInf s"
| "to_fixed8_floor (BFin n k) = Fix ((n * 10 ^ 8) div 10 ^ k)"

subsection \<open>\<open>Number(s)\<close>: the nearest double\<close>

fun bitlen :: "nat \<Rightarrow> nat" where
  "bitlen n = (if n = 0 then 0 else Suc (bitlen (n div 2)))"

declare bitlen.simps [simp del]

text \<open>\<open>pow2_le a d l\<close>: \<open>2 ^ l \<le> a / d\<close> for an integer exponent \<open>l\<close>.\<close>

definition pow2_le :: "nat \<Rightarrow> nat \<Rightarrow> int \<Rightarrow> bool" where
  "pow2_le a d l = (if 0 \<le> l then d * 2 ^ nat l \<le> a else d \<le> a * 2 ^ nat (- l))"

definition round_half_even :: "nat \<Rightarrow> nat \<Rightarrow> nat" where
  "round_half_even num den =
     (let q = num div den; r = num mod den in
      if den < 2 * r \<or> (2 * r = den \<and> odd q) then Suc q else q)"

text \<open>\<open>floor_log2 a d = \<lfloor>log\<^sub>2 (a / d)\<rfloor>\<close> for \<open>a, d > 0\<close>, from the bit lengths.\<close>

definition floor_log2 :: "nat \<Rightarrow> nat \<Rightarrow> int" where
  "floor_log2 a d =
     (let l = int (bitlen a) - int (bitlen d) in if pow2_le a d l then l else l - 1)"

text \<open>
  The double nearest to \<open>m / 10 ^ 8\<close>: with \<open>t = \<lfloor>log\<^sub>2 (|m| / 10 ^ 8)\<rfloor>\<close> the
  significand is \<open>|m| / 10 ^ 8 / 2 ^ (t - 52)\<close>, in \<open>[2 ^ 52, 2 ^ 53)\<close>, rounded to an
  integer with ties to even; a result of \<open>2 ^ 1024\<close> or more is infinite. Values that
  are multiples of \<open>10 ^ -8\<close> are far above the subnormal range.
\<close>

definition double_bits :: "nat \<Rightarrow> int \<Rightarrow> nat" where
  "double_bits a t = round_half_even (a * 2 ^ nat (52 - t)) (10 ^ 8 * 2 ^ nat (t - 52))"

definition double_of_fixed8 :: "int \<Rightarrow> js_num" where
  "double_of_fixed8 m =
     (if m = 0 then JFin 0 0
      else let a = nat \<bar>m\<bar>; t = floor_log2 a (10 ^ 8); r = double_bits a t in
        if 1024 \<le> t + (if r = 2 ^ 53 then 1 else 0) then JInf (m < 0)
        else JFin (sgn m * int r) (t - 52))"

fun js_number :: "fixed8 \<Rightarrow> js_num" where
  "js_number FixNaN = JNaN"
| "js_number (FixInf s) = JInf s"
| "js_number (Fix m) = double_of_fixed8 m"

text \<open>The integer a double denotes, if it is a finite integer.\<close>

definition js_int :: "js_num \<Rightarrow> int option" where
  "js_int x =
     (case x of
        JFin m e \<Rightarrow>
          if 0 \<le> e then Some (m * 2 ^ nat e)
          else if 2 ^ nat (- e) dvd m then Some (m div 2 ^ nat (- e)) else None
      | _ \<Rightarrow> None)"

text \<open>Unary minus on a JavaScript number.\<close>

fun js_neg :: "js_num \<Rightarrow> js_num" where
  "js_neg JNaN = JNaN"
| "js_neg (JInf s) = JInf (\<not> s)"
| "js_neg (JFin m e) = JFin (- m) e"

subsection \<open>The codec of \<open>prepare*SignedOffchainTransaction\<close>\<close>

text \<open>
  \<open>Number(new BigNumber(a).multipliedBy(100000000).toFixed(8, BigNumber.ROUND_FLOOR))\<close>
\<close>

definition to_satoshi :: "string \<Rightarrow> js_num" where
  "to_satoshi a =
     js_number (to_fixed8_floor (bn_mult (parse_bignumber a) (BFin 100000000 0)))"

text \<open>
  bitcoinjs-lib accepts an output value only if it is a \<open>Satoshi\<close>: a JavaScript
  number that is a non-negative integer of at most \<open>21 * 10 ^ 14\<close>.
\<close>

definition satoshi_of :: "js_num \<Rightarrow> int option" where
  "satoshi_of x =
     (case js_int x of
        Some v \<Rightarrow> if 0 \<le> v \<and> v \<le> 2100000000000000 then Some v else None
      | None \<Rightarrow> None)"

subsection \<open>Evaluation lemmas\<close>

text \<open>The equations that evaluate the parser on a literal, collected for \<open>simp\<close>.\<close>

declare parse_bignumber_def [amount_simps] parse_decimal_def [amount_simps]
  is_dec_digit_def [amount_simps] bn_of_decimal_def [amount_simps]
  decimal_value_def [amount_simps] digits_val_def [amount_simps] digit_val_def [amount_simps]
  bn_norm_def [amount_simps] bn_max_exp_def [amount_simps] ndigits.simps [amount_simps]

lemma bitlen_bounds: "0 < n \<Longrightarrow> 2 ^ (bitlen n - 1) \<le> n \<and> n < 2 ^ bitlen n"
proof (induction n rule: bitlen.induct)
  case (1 n)
  show ?case
  proof (cases "n = 1")
    case True
    then show ?thesis by (simp add: bitlen.simps)
  next
    case False
    with "1.prems" have n2: "0 < n div 2" by simp
    with "1.IH" "1.prems" have IH: "2 ^ (bitlen (n div 2) - 1) \<le> n div 2 \<and> n div 2 < 2 ^ bitlen (n div 2)"
      by simp
    from n2 have "0 < bitlen (n div 2)" by (subst bitlen.simps) simp
    then obtain b where b: "bitlen (n div 2) = Suc b" by (cases "bitlen (n div 2)") auto
    have bl: "bitlen n = Suc (Suc b)" using "1.prems" b by (subst bitlen.simps) simp
    from IH b have "2 ^ b \<le> n div 2" "n div 2 < 2 ^ Suc b" by simp_all
    moreover have "n div 2 * 2 \<le> n" "n < (n div 2 + 1) * 2" by simp_all
    ultimately have "2 ^ Suc b \<le> n" "n < 2 ^ Suc (Suc b)" by simp_all
    with bl show ?thesis by simp
  qed
qed

lemma pow2_le_floor_log2:
  assumes a: "0 < a" and d: "0 < d"
  shows "pow2_le a d (floor_log2 a d)"
proof -
  define l where "l = int (bitlen a) - int (bitlen d)"
  have "pow2_le a d (if pow2_le a d l then l else l - 1)"
  proof (cases "pow2_le a d l")
    case True
    then show ?thesis by simp
  next
    case False
    define A where "A = bitlen a"
    define D where "D = bitlen d"
    have ha: "2 ^ (A - 1) \<le> a" and hd: "d < 2 ^ D"
      using bitlen_bounds [OF a] bitlen_bounds [OF d] by (simp_all add: A_def D_def)
    have D0: "0 < D" using d by (simp add: D_def bitlen.simps)
    have A0: "0 < A" using a by (simp add: A_def bitlen.simps)
    show ?thesis
    proof (cases "D + 1 \<le> A")
      case True
      then have nl: "nat (l - 1) = A - D - 1" by (simp add: l_def A_def D_def)
      have "d * 2 ^ (A - D - 1) \<le> 2 ^ D * 2 ^ (A - D - 1)" using hd by simp
      also have "\<dots> = 2 ^ (A - 1)" using True by (simp flip: power_add)
      finally have "d * 2 ^ (A - D - 1) \<le> a" using ha by linarith
      with True False nl show ?thesis by (simp add: pow2_le_def l_def A_def D_def)
    next
      case False
      then have nl: "nat (- (l - 1)) = D + 1 - A" by (simp add: l_def A_def D_def)
      have "A - 1 + (D + 1 - A) = D" using False A0 by simp
      then have "2 ^ D = 2 ^ (A - 1) * (2::nat) ^ (D + 1 - A)" by (simp flip: power_add)
      also have "\<dots> \<le> a * 2 ^ (D + 1 - A)" using ha by simp
      finally have "d \<le> a * 2 ^ (D + 1 - A)" using hd by linarith
      with False nl \<open>\<not> pow2_le a d l\<close> show ?thesis by (simp add: pow2_le_def l_def A_def D_def)
    qed
  qed
  then show ?thesis by (simp only: floor_log2_def l_def Let_def)
qed


lemma round_half_even_exact: "0 < den \<Longrightarrow> round_half_even (q * den) den = q"
  by (simp add: round_half_even_def)

lemma js_int_JFin_shift:
  "js_int (JFin (m * 2 ^ k) (- int k)) = Some m"
proof (cases "k = 0")
  case True
  then show ?thesis by (simp add: js_int_def)
next
  case False
  then have "\<not> 0 \<le> - int k" "nat (- (- int k)) = k" by simp_all
  then show ?thesis by (simp add: js_int_def)
qed

lemma double_of_fixed8_exact_pos:
  assumes z0: "0 < z" and z53: "z \<le> 2 ^ 53"
  shows "js_int (double_of_fixed8 (int z * 10 ^ 8)) = Some (int z)"
proof -
  define a :: nat where "a = z * 10 ^ 8"
  define t where "t = floor_log2 a (10 ^ 8)"
  have a0: "0 < a" using z0 by (simp add: a_def)
  have pt: "pow2_le a (10 ^ 8) t"
    unfolding t_def by (rule pow2_le_floor_log2 [OF a0]) simp
  have t53: "t \<le> 53"
  proof (rule ccontr)
    assume "\<not> t \<le> 53"
    then have "10 ^ 8 * 2 ^ nat t \<le> a" "54 \<le> nat t" using pt by (simp_all add: pow2_le_def)
    then have "2 ^ nat t \<le> z" by (simp add: a_def)
    moreover have "(2::nat) ^ 54 \<le> 2 ^ nat t" using \<open>54 \<le> nat t\<close> by (rule power_increasing) simp
    ultimately show False using z53 by simp
  qed
  have m: "nat \<bar>int z * 10 ^ 8\<bar> = a" "int z * 10 ^ 8 \<noteq> 0" "sgn (int z * 10 ^ 8) = 1"
    using z0 by (simp_all add: a_def nat_mult_distrib sgn_mult)
  have unf: "double_of_fixed8 (int z * 10 ^ 8) =
      (let r = double_bits a t
       in if 1024 \<le> t + (if r = 2 ^ 53 then 1 else 0) then JInf False else JFin (int r) (t - 52))"
    using m z0 unfolding double_of_fixed8_def t_def by (simp add: Let_def)
  show ?thesis
  proof (cases "t \<le> 52")
    case True
    define k where "k = nat (52 - t)"
    have e: "nat (52 - t) = k" "nat (t - 52) = 0" "t - 52 = - int k" using True by (simp_all add: k_def)
    have r: "double_bits a t = z * 2 ^ k"
      using round_half_even_exact [of "10 ^ 8" "z * 2 ^ k"] e
      by (simp add: double_bits_def a_def ac_simps)
    have "t + (if z * 2 ^ k = 2 ^ 53 then 1 else 0) < 1024" using True by simp
    then have "double_of_fixed8 (int z * 10 ^ 8) = JFin (int z * 2 ^ k) (- int k)"
      using unf e r by (simp add: Let_def)
    then show ?thesis by (simp add: js_int_JFin_shift)
  next
    case False
    with t53 have t: "t = 53" by simp
    with pt have "10 ^ 8 * 2 ^ 53 \<le> a" by (simp add: pow2_le_def)
    then have "2 ^ 53 \<le> z" by (simp add: a_def)
    with z53 have z: "z = 2 ^ 53" by simp
    have r: "double_bits a t = 2 ^ 52"
      using round_half_even_exact [of "10 ^ 8 * 2" "2 ^ 52"] t
      by (simp add: double_bits_def a_def z ac_simps)
    have "double_of_fixed8 (int z * 10 ^ 8) = JFin (2 ^ 52) 1"
      using unf r t by (simp add: Let_def)
    then show ?thesis by (simp add: js_int_def z)
  qed
qed

lemma ndigits_le: "n < 10 ^ Suc j \<Longrightarrow> ndigits n \<le> Suc j"
proof (induction j arbitrary: n)
  case 0
  then show ?case by (simp add: ndigits.simps)
next
  case (Suc j)
  show ?case
  proof (cases "n < 10")
    case True
    then show ?thesis by (simp add: ndigits.simps)
  next
    case False
    from Suc.prems have "n div 10 < 10 ^ Suc j" by simp
    then have "ndigits (n div 10) \<le> Suc j" by (rule Suc.IH)
    with False show ?thesis by (simp add: ndigits.simps [of n])
  qed
qed

lemma bn_norm_id:
  assumes "n \<noteq> 0" "\<bar>n\<bar> < 10 ^ 40" "k \<le> 40"
  shows "bn_norm n k = BFin n k"
proof -
  have "nat \<bar>n\<bar> < 10 ^ Suc 39" using assms(2) by (simp add: nat_less_iff)
  then have "ndigits (nat \<bar>n\<bar>) \<le> 40" using ndigits_le by fastforce
  with assms show ?thesis by (simp add: bn_norm_def bn_max_exp_def Let_def)
qed

lemma fixed8_of_small:
  assumes "\<bar>n\<bar> < 10 ^ 30" "k \<le> 30"
  shows "to_fixed8_floor (bn_mult (bn_norm n k) (BFin 100000000 0)) = Fix ((n * 10 ^ 16) div 10 ^ k)"
proof (cases "n = 0")
  case True
  then show ?thesis by (simp add: bn_norm_def)
next
  case False
  have "\<bar>n * 100000000\<bar> < 10 ^ 40" using assms by (simp add: abs_mult)
  then have "bn_norm (n * 100000000) k = BFin (n * 100000000) k"
    using False assms by (intro bn_norm_id) simp_all
  moreover have "bn_norm n k = BFin n k" using False assms by (intro bn_norm_id) simp_all
  ultimately show ?thesis by (simp add: ac_simps)
qed

text \<open>\<open>toFixed(8)\<close> of a value with at most 8 decimals is exact.\<close>

lemma div_pow10_exact:
  assumes k: "k \<le> 8"
  shows "(x * 10 ^ 16) div 10 ^ k = x * 10 ^ (8 - k) * (10::int) ^ 8"
proof -
  have "8 - k + 8 + k = 16" using k by simp
  then have "(10::int) ^ 16 = 10 ^ (8 - k + 8 + k)" by (simp only:)
  also have "\<dots> = 10 ^ (8 - k) * 10 ^ 8 * 10 ^ k" by (simp only: power_add)
  finally have eq: "x * 10 ^ 16 = (x * 10 ^ (8 - k) * 10 ^ 8) * 10 ^ k" by (simp only: ac_simps)
  have ne: "(10::int) ^ k \<noteq> 0" by simp
  from eq have "(x * 10 ^ 16) div 10 ^ k = (x * 10 ^ (8 - k) * 10 ^ 8) * 10 ^ k div 10 ^ k"
    by (simp only:)
  also have "\<dots> = x * 10 ^ (8 - k) * 10 ^ 8" using ne by (rule nonzero_mult_div_cancel_right)
  finally show ?thesis .
qed

lemma double_of_fixed8_neg: "double_of_fixed8 (- m) = js_neg (double_of_fixed8 m)"
  by (cases "m = 0") (auto simp: double_of_fixed8_def Let_def sgn_if)

lemma js_int_neg: "js_int (js_neg x) = map_option uminus (js_int x)"
  by (cases x rule: js_neg.cases) (auto simp: js_int_def dvd_neg_div)

lemma double_of_fixed8_exact:
  assumes "0 \<le> z" "z \<le> 2 ^ 53"
  shows "js_int (double_of_fixed8 (z * 10 ^ 8)) = Some z"
proof (cases "z = 0")
  case True
  then show ?thesis by (simp add: double_of_fixed8_def js_int_def)
next
  case False
  with assms have "0 < nat z" "nat z \<le> 2 ^ 53" by (simp_all add: nat_le_iff)
  then have "js_int (double_of_fixed8 (int (nat z) * 10 ^ 8)) = Some (int (nat z))"
    by (rule double_of_fixed8_exact_pos)
  with assms(1) show ?thesis by simp
qed


subsection \<open>Properties of the codec\<close>

text \<open>
  The codec is exact on the amounts it was written for. A plain non-negative
  decimal string with at most 8 fraction digits and no exponent is turned into the
  integer number of base units \<open>digits * 10 ^ (8 - fraction length)\<close>, as long as that
  number is at most \<open>2 ^ 53\<close>, the range in which every integer is a double.
\<close>

lemma to_fixed8_decimal:
  assumes p: "parse_decimal s = Some (neg, ip, fp, 0)"
    and k: "length fp \<le> 8"
    and z: "digits_val (ip @ fp) * 10 ^ (8 - length fp) \<le> 2 ^ 53"
  shows "to_fixed8_floor (bn_mult (parse_bignumber s) (BFin 100000000 0)) =
    Fix ((if neg then - 1 else 1) * int (digits_val (ip @ fp) * 10 ^ (8 - length fp)) * 10 ^ 8)"
proof -
  define n where "n = digits_val (ip @ fp)"
  define k where "k = length fp"
  define x where "x = (if neg then - int n else int n)"
  have pb: "parse_bignumber s = bn_norm x k"
    using p by (cases "fp = []") (simp_all add: parse_bignumber_def bn_of_decimal_def decimal_value_def n_def k_def x_def)
  have "n \<le> n * 10 ^ (8 - k)" by simp
  also have "\<dots> \<le> 2 ^ 53" using z by (simp add: n_def k_def)
  finally have "\<bar>x\<bar> < 10 ^ 30" by (simp add: x_def)
  then have f0: "to_fixed8_floor (bn_mult (parse_bignumber s) (BFin 100000000 0)) = Fix ((x * 10 ^ 16) div 10 ^ k)"
    using pb k by (simp add: fixed8_of_small k_def)
  have d: "(x * 10 ^ 16) div 10 ^ k = x * 10 ^ (8 - k) * 10 ^ 8"
    unfolding k_def by (rule div_pow10_exact [OF k])
  from f0 have "to_fixed8_floor (bn_mult (parse_bignumber s) (BFin 100000000 0)) = Fix (x * 10 ^ (8 - k) * 10 ^ 8)"
    by (simp only: d)
  then show ?thesis by (simp add: x_def n_def k_def)
qed

lemma to_satoshi_decimal:
  assumes p: "parse_decimal s = Some (False, ip, fp, 0)"
    and k: "length fp \<le> 8"
    and z: "digits_val (ip @ fp) * 10 ^ (8 - length fp) \<le> 2 ^ 53"
  shows "js_int (to_satoshi s) = Some (int (digits_val (ip @ fp) * 10 ^ (8 - length fp)))"
proof -
  define v where "v = digits_val (ip @ fp) * 10 ^ (8 - length fp)"
  from z have "int v \<le> int (2 ^ 53)" unfolding v_def by (simp only: of_nat_le_iff)
  then have "js_int (double_of_fixed8 (int v * 10 ^ 8)) = Some (int v)"
    by (intro double_of_fixed8_exact) simp_all
  then show ?thesis
    using to_fixed8_decimal [OF p k z] by (simp add: to_satoshi_def v_def)
qed

text \<open>
  C13: every plain non-negative decimal amount with at most 8 fraction digits whose
  value in base units is at most the Bitcoin supply \<open>21 * 10 ^ 14\<close> is accepted as an
  output value, and the value is exactly the amount in base units.
\<close>

theorem satoshi_of_decimal:
  assumes p: "parse_decimal s = Some (False, ip, fp, 0)"
    and k: "length fp \<le> 8"
    and z: "digits_val (ip @ fp) * 10 ^ (8 - length fp) \<le> 2100000000000000"
  shows "satoshi_of (to_satoshi s) = Some (int (digits_val (ip @ fp) * 10 ^ (8 - length fp)))"
proof -
  have "digits_val (ip @ fp) * 10 ^ (8 - length fp) \<le> 2 ^ 53" using z by simp
  note js = to_satoshi_decimal [OF p k this]
  from z have "int (digits_val (ip @ fp) * 10 ^ (8 - length fp)) \<le> int 2100000000000000"
    by (simp only: of_nat_le_iff)
  with js show ?thesis by (simp add: satoshi_of_def)
qed

theorem satoshi_of_decimal_witness:
  "parse_decimal ''1.5'' = Some (False, ''1'', ''5'', 0) \<and> length ''5'' \<le> (8::nat) \<and>
   digits_val (''1'' @ ''5'') * 10 ^ (8 - length ''5'') \<le> 2100000000000000 \<and>
   satoshi_of (to_satoshi ''1.5'') = Some 150000000"
proof -
  have p: "parse_decimal ''1.5'' = Some (False, ''1'', ''5'', 0)"
    by (simp add: parse_decimal_def is_dec_digit_def)
  have d: "digits_val (''1'' @ ''5'') = 15" by (simp add: digits_val_def digit_val_def)
  have k: "length ''5'' \<le> (8::nat)" by simp
  have z: "digits_val (''1'' @ ''5'') * 10 ^ (8 - length ''5'') \<le> 2100000000000000" using d by simp
  show ?thesis using satoshi_of_decimal [OF p k z] p d by simp
qed

text \<open>
  C26: the codec does not floor to an integer. \<open>toFixed(8, ROUND_FLOOR)\<close> is applied
  after the multiplication by \<open>10 ^ 8\<close>, so it floors the base-unit value at its eighth
  decimal place: the amount \<open>0.123456785\<close> becomes the JavaScript number
  \<open>12345678.5\<close> (\<open>6628035675553792 * 2 ^ -29\<close>), which is not a Satoshi value, so
  bitcoinjs-lib rejects the output.
\<close>

theorem to_satoshi_fraction_not_satoshi:
  "to_satoshi ''0.123456785'' = JFin 6628035675553792 (- 29) \<and>
   satoshi_of (to_satoshi ''0.123456785'') = None"
proof -
  have p: "parse_bignumber ''0.123456785'' = BFin 123456785 9"
    by (simp add: amount_simps)
  have f: "to_fixed8_floor (bn_mult (BFin 123456785 9) (BFin 100000000 0)) = Fix 1234567850000000"
    by (simp add: amount_simps)
  have t: "floor_log2 1234567850000000 100000000 = 23"
    by (simp add: floor_log2_def bitlen.simps pow2_le_def Let_def)
  have r: "double_bits 1234567850000000 23 = 6628035675553792"
    by (simp add: double_bits_def round_half_even_def Let_def)
  have "double_of_fixed8 1234567850000000 = JFin 6628035675553792 (- 29)"
    by (simp add: double_of_fixed8_def t r)
  then have "to_satoshi ''0.123456785'' = JFin 6628035675553792 (- 29)"
    by (simp only: to_satoshi_def p f js_number.simps)
  moreover have "js_int (JFin 6628035675553792 (- 29)) = None" by (simp add: js_int_def)
  ultimately show ?thesis by (simp add: satoshi_of_def)
qed

text \<open>
  C27: the codec can round up. The amount \<open>2.0000000099999999\<close> is
  \<open>200000000.99999999\<close> base units, which \<open>toFixed\<close> keeps; \<open>Number\<close> rounds that
  string to the nearest double, the integer \<open>200000001\<close>, which is accepted as an
  output value one base unit above the amount.
\<close>

theorem to_satoshi_rounds_up:
  "parse_bignumber ''2.0000000099999999'' = BFin 20000000099999999 16 \<and>
   20000000099999999 * 10 ^ 8 < 200000001 * (10::int) ^ 16 \<and>
   satoshi_of (to_satoshi ''2.0000000099999999'') = Some 200000001"
proof -
  have p: "parse_bignumber ''2.0000000099999999'' = BFin 20000000099999999 16"
    by (simp add: amount_simps)
  have f: "to_fixed8_floor (bn_mult (BFin 20000000099999999 16) (BFin 100000000 0)) =
      Fix 20000000099999999"
    by (simp add: amount_simps)
  have t: "floor_log2 20000000099999999 100000000 = 27"
    by (simp add: floor_log2_def bitlen.simps pow2_le_def Let_def)
  have r: "double_bits 20000000099999999 27 = 6710886433554432"
    by (simp add: double_bits_def round_half_even_def Let_def)
  have "double_of_fixed8 20000000099999999 = JFin 6710886433554432 (- 25)"
    by (simp add: double_of_fixed8_def t r)
  then have "to_satoshi ''2.0000000099999999'' = JFin 6710886433554432 (- 25)"
    by (simp only: to_satoshi_def p f js_number.simps)
  moreover have "js_int (JFin 6710886433554432 (- 25)) = Some 200000001" by (simp add: js_int_def)
  ultimately show ?thesis using p by (simp add: satoshi_of_def)
qed

text \<open>
  C25: a negative amount is rejected. A plain negative decimal with at most 8
  fraction digits is converted to the negative number of base units, which
  bitcoinjs-lib does not accept as a Satoshi value.
\<close>

theorem to_satoshi_negative:
  assumes p: "parse_decimal s = Some (True, ip, fp, 0)"
    and k: "length fp \<le> 8"
    and z0: "0 < digits_val (ip @ fp)"
    and z: "digits_val (ip @ fp) * 10 ^ (8 - length fp) \<le> 2 ^ 53"
  shows "js_int (to_satoshi s) = Some (- int (digits_val (ip @ fp) * 10 ^ (8 - length fp))) \<and>
         satoshi_of (to_satoshi s) = None"
proof -
  define v where "v = digits_val (ip @ fp) * 10 ^ (8 - length fp)"
  have v0: "0 < v" using z0 by (simp add: v_def)
  from z have "int v \<le> int (2 ^ 53)" unfolding v_def by (simp only: of_nat_le_iff)
  then have "js_int (double_of_fixed8 (int v * 10 ^ 8)) = Some (int v)"
    by (intro double_of_fixed8_exact) simp_all
  then have "js_int (double_of_fixed8 (- (int v * 10 ^ 8))) = Some (- int v)"
    by (simp add: double_of_fixed8_neg js_int_neg)
  then have j: "js_int (to_satoshi s) = Some (- int v)"
    using to_fixed8_decimal [OF p k z] by (simp add: to_satoshi_def v_def)
  have "\<not> 0 \<le> - int v" using v0 by simp
  with j show ?thesis unfolding v_def [symmetric] by (simp add: satoshi_of_def)
qed

theorem to_satoshi_negative_witness:
  "parse_decimal ''-1.5'' = Some (True, ''1'', ''5'', 0) \<and> length ''5'' \<le> (8::nat) \<and>
   0 < digits_val (''1'' @ ''5'') \<and> digits_val (''1'' @ ''5'') * 10 ^ (8 - length ''5'') \<le> 2 ^ 53 \<and>
   js_int (to_satoshi ''-1.5'') = Some (- 150000000) \<and> satoshi_of (to_satoshi ''-1.5'') = None"
proof -
  have p: "parse_decimal ''-1.5'' = Some (True, ''1'', ''5'', 0)"
    by (simp add: parse_decimal_def is_dec_digit_def)
  have d: "digits_val (''1'' @ ''5'') = 15" by (simp add: digits_val_def digit_val_def)
  have k: "length ''5'' \<le> (8::nat)" by simp
  have z0: "0 < digits_val (''1'' @ ''5'')" using d by simp
  have z: "digits_val (''1'' @ ''5'') * 10 ^ (8 - length ''5'') \<le> 2 ^ 53" using d by simp
  show ?thesis using to_satoshi_negative [OF p k z0 z] p d by simp
qed

end
