(* ===== verification/TxBuilder.thy ===== *)
theory TxBuilder
  imports Amount
begin

text \<open>
  The transaction builder of bitcoinjs-lib (\<open>new TransactionBuilder(network)\<close>) as the
  sources use it: \<open>addInput(txid, vout)\<close>, \<open>addOutput(address, value)\<close>,
  \<open>sign(vin, keyPair)\<close> and \<open>build()\<close>. The builder is a record of the inputs
  (outpoints), the outputs (script and value) and, per input, the signature made so
  far. A signature is represented by the key that made it and the inputs and outputs
  it commits to (\<open>SIGHASH_ALL\<close>). Each operation returns the new builder or the error
  the library throws, with the library's guards in its order:
  \<^item> \<open>addInput\<close>: no signature may exist yet; the txid is hex-decoded (decoding stops at
    the first pair that is not hex) and byte-reversed and must be 32 bytes, not all
    zero (coinbase); the outpoint must be new; \<open>vout\<close> must be a 32-bit integer;
  \<^item> \<open>addOutput\<close>: no signature may exist yet; the address must have an output script
    on the builder's network; the value must be a Satoshi value;
  \<^item> \<open>sign\<close>: the key pair's network must be the builder's (\<open>Inconsistent network\<close>;
    \<open>knet\<close> is the network \<open>ECPair.fromWIF\<close> gave the key pair); there must be an input
    at \<open>vin\<close> and at least one output; an input
    signed once is bound to its first key (P2PKH): signing it again with that key is
    \<open>Signature already exists\<close>, with another key \<open>Key pair cannot sign\<close>;
  \<^item> \<open>build\<close>: there must be inputs and outputs and every input must be signed.
  Key pairs are an abstract type \<open>'k\<close>; address decoding is a parameter of the
  operations that need it. The serialisation of \<open>toHex\<close> is in \<open>TxWire\<close>.
  The lemmas: the invariants of the builders reachable by successful calls
  (\<open>builder_wf\<close>: every signature commits to the current inputs and outputs;
  \<open>builder_typed\<close>: the field types the library checks), soundness and typing of
  the built transaction, and that a signed input freezes the transaction.
\<close>

datatype network = Bitcoin | Testnet | Litecoin | Litecoin_testnet

type_synonym script = "byte list"
type_synonym outpoint = "byte list \<times> nat"
type_synonym txout = "script \<times> int"
type_synonym 'k signature = "'k \<times> outpoint list \<times> txout list"

record 'k tx_builder =
  tb_network :: network
  tb_ins :: "outpoint list"
  tb_outs :: "txout list"
  tb_sigs :: "'k signature option list"

record 'k transaction =
  tx_ins :: "(outpoint \<times> 'k signature) list"
  tx_outs :: "txout list"

definition new_builder :: "network \<Rightarrow> 'k tx_builder" where
  "new_builder net = \<lparr>tb_network = net, tb_ins = [], tb_outs = [], tb_sigs = []\<rparr>"

text \<open>\<open>__canModifyInputs\<close> and \<open>__canModifyOutputs\<close> for \<open>SIGHASH_ALL\<close> signatures.\<close>

definition can_modify :: "'k tx_builder \<Rightarrow> bool" where
  "can_modify b = list_all (\<lambda>s. s = None) (tb_sigs b)"

subsection \<open>\<open>Buffer.from(txid, 'hex')\<close>\<close>

definition hex_val :: "char \<Rightarrow> nat option" where
  "hex_val c =
     (let n = of_char c :: nat in
      if 48 \<le> n \<and> n \<le> 57 then Some (n - 48)
      else if 97 \<le> n \<and> n \<le> 102 then Some (n - 87)
      else if 65 \<le> n \<and> n \<le> 70 then Some (n - 55)
      else None)"

fun hex_decode :: "string \<Rightarrow> byte list" where
  "hex_decode (a # b # r) =
     (case (hex_val a, hex_val b) of
        (Some x, Some y) \<Rightarrow> word_of_nat (16 * x + y) # hex_decode r
      | _ \<Rightarrow> [])"
| "hex_decode _ = []"

text \<open>\<open>reverseBuffer(Buffer.from(txHash, 'hex'))\<close>: the hash of an outpoint.\<close>

definition txid_hash :: "txid \<Rightarrow> byte list" where
  "txid_hash t = rev (hex_decode t)"

subsection \<open>The operations\<close>

definition add_input :: "txid \<Rightarrow> nat \<Rightarrow> 'k tx_builder \<Rightarrow> error + 'k tx_builder" where
  "add_input txid vout b =
     (if \<not> can_modify b then Inl Would_invalidate_signatures
      else let h = txid_hash txid in
        if length h \<noteq> 32 then Inl Invalid_txid
        else if list_all (\<lambda>x. x = 0) h then Inl Coinbase_input
        else if (h, vout) \<in> set (tb_ins b) then Inl Duplicate_txout
        else if 2 ^ 32 \<le> vout then Inl Invalid_vout
        else Inr (b\<lparr>tb_ins := tb_ins b @ [(h, vout)], tb_sigs := tb_sigs b @ [None]\<rparr>))"

definition add_output ::
  "(network \<Rightarrow> address \<Rightarrow> script option) \<Rightarrow> address \<Rightarrow> js_num \<Rightarrow> 'k tx_builder \<Rightarrow> error + 'k tx_builder"
where
  "add_output to_script addr v b =
     (if \<not> can_modify b then Inl Would_invalidate_signatures
      else case to_script (tb_network b) addr of
        None \<Rightarrow> Inl (Invalid_address addr)
      | Some sc \<Rightarrow>
          (case satoshi_of v of
             None \<Rightarrow> Inl Invalid_value
           | Some n \<Rightarrow> Inr (b\<lparr>tb_outs := tb_outs b @ [(sc, n)]\<rparr>)))"

definition sign :: "nat \<Rightarrow> 'k \<Rightarrow> network \<Rightarrow> 'k tx_builder \<Rightarrow> error + 'k tx_builder" where
  "sign vin k knet b =
     (if knet \<noteq> tb_network b then Inl Inconsistent_network
      else if length (tb_ins b) \<le> vin then Inl (No_input_at_index vin)
      else if tb_outs b = [] then Inl Needs_outputs
      else case tb_sigs b ! vin of
        Some (k', _) \<Rightarrow> if k' = k then Inl Signature_exists else Inl Cannot_sign
      | None \<Rightarrow> Inr (b\<lparr>tb_sigs := (tb_sigs b)[vin := Some (k, tb_ins b, tb_outs b)]\<rparr>))"

definition build :: "'k tx_builder \<Rightarrow> error + 'k transaction" where
  "build b =
     (if tb_ins b = [] then Inl No_inputs
      else if tb_outs b = [] then Inl No_outputs
      else if None \<in> set (tb_sigs b) then Inl Incomplete
      else Inr \<lparr>tx_ins = zip (tb_ins b) (map the (tb_sigs b)), tx_outs = tb_outs b\<rparr>)"

subsection \<open>The builder as a state machine\<close>

text \<open>
  The operations as one step function over a datatype of calls, and the builders
  reachable from \<open>new TransactionBuilder(network)\<close> by successful calls.
\<close>

datatype 'k builder_call = AddInput txid nat | AddOutput address js_num | Sign nat 'k network

fun builder_step ::
  "(network \<Rightarrow> address \<Rightarrow> script option) \<Rightarrow> 'k builder_call \<Rightarrow> 'k tx_builder \<Rightarrow> error + 'k tx_builder"
where
  "builder_step to_script (AddInput t v) b = add_input t v b"
| "builder_step to_script (AddOutput a v) b = add_output to_script a v b"
| "builder_step to_script (Sign i k n) b = sign i k n b"

inductive builder_reach ::
  "(network \<Rightarrow> address \<Rightarrow> script option) \<Rightarrow> network \<Rightarrow> 'k tx_builder \<Rightarrow> bool"
  for to_script net
where
  start: "builder_reach to_script net (new_builder net)"
| step: "builder_reach to_script net b \<Longrightarrow> builder_step to_script c b = Inr b' \<Longrightarrow>
    builder_reach to_script net b'"

text \<open>
  The builder invariant: one signature slot per input, and every signature made so
  far commits to exactly the current inputs and outputs.
\<close>

definition builder_wf :: "'k tx_builder \<Rightarrow> bool" where
  "builder_wf b \<longleftrightarrow>
     length (tb_sigs b) = length (tb_ins b) \<and>
     list_all (\<lambda>s. case s of None \<Rightarrow> True | Some (k, si, so) \<Rightarrow> si = tb_ins b \<and> so = tb_outs b) (tb_sigs b)"

text \<open>A transaction is sound when every input's signature commits to the transaction itself.\<close>

definition tx_sound :: "'k transaction \<Rightarrow> bool" where
  "tx_sound t \<longleftrightarrow> list_all (\<lambda>(op, k, si, so). si = map fst (tx_ins t) \<and> so = tx_outs t) (tx_ins t)"

text \<open>
  The field types bitcoinjs-lib enforces on a transaction: a 32-byte hash and a
  \<open>UInt32\<close> output index per input, a \<open>Satoshi\<close> value per output.
\<close>

definition typed_outpoint :: "outpoint \<Rightarrow> bool" where
  "typed_outpoint op \<longleftrightarrow> length (fst op) = 32 \<and> snd op < 2 ^ 32"

definition typed_txout :: "txout \<Rightarrow> bool" where
  "typed_txout o' \<longleftrightarrow> 0 \<le> snd o' \<and> snd o' \<le> 2100000000000000"

definition builder_typed :: "'k tx_builder \<Rightarrow> bool" where
  "builder_typed b \<longleftrightarrow> list_all typed_outpoint (tb_ins b) \<and> list_all typed_txout (tb_outs b)"

definition tx_typed :: "'k transaction \<Rightarrow> bool" where
  "tx_typed t \<longleftrightarrow> list_all (\<lambda>(op, _). typed_outpoint op) (tx_ins t) \<and> list_all typed_txout (tx_outs t)"

declare add_input_def [builder_simps] add_output_def [builder_simps] sign_def [builder_simps]
  build_def [builder_simps] new_builder_def [builder_simps] can_modify_def [builder_simps]

subsection \<open>A concrete instance\<close>

text \<open>
  A script function accepting every address, a builder with one input signed, and
  one with two inputs of which the first is signed.
\<close>

definition demo_script :: "network \<Rightarrow> address \<Rightarrow> script option" where
  "demo_script net a = Some []"

definition demo_signed :: "string tx_builder" where
  "demo_signed =
     \<lparr>tb_network = Bitcoin, tb_ins = [(replicate 32 1, 0)], tb_outs = [([], 1)],
      tb_sigs = [Some (''k'', [(replicate 32 1, 0)], [([], 1)])]\<rparr>"

definition demo_half :: "string tx_builder" where
  "demo_half =
     \<lparr>tb_network = Bitcoin, tb_ins = [(replicate 32 1, 0), (replicate 32 1, 1)], tb_outs = [([], 1)],
      tb_sigs = [Some (''k'', [(replicate 32 1, 0), (replicate 32 1, 1)], [([], 1)]), None]\<rparr>"

subsection \<open>Invariant of the builder\<close>

lemma builder_wf_new: "builder_wf (new_builder net)"
  by (simp add: builder_wf_def new_builder_def)

lemma can_modify_wf: "can_modify b \<Longrightarrow> length (tb_sigs b) = length (tb_ins b) \<Longrightarrow> builder_wf b"
  by (auto simp: builder_wf_def can_modify_def list_all_iff)

lemma add_input_Inr:
  "add_input t v b = Inr b' \<Longrightarrow>
     can_modify b \<and> tb_network b' = tb_network b \<and> tb_outs b' = tb_outs b \<and>
     tb_ins b' = tb_ins b @ [(txid_hash t, v)] \<and> tb_sigs b' = tb_sigs b @ [None]"
  by (auto simp: add_input_def Let_def split: if_splits)

lemma add_output_Inr:
  "add_output f a v b = Inr b' \<Longrightarrow>
     can_modify b \<and> tb_network b' = tb_network b \<and> tb_ins b' = tb_ins b \<and>
     (\<exists>sc n. f (tb_network b) a = Some sc \<and> satoshi_of v = Some n \<and> tb_outs b' = tb_outs b @ [(sc, n)]) \<and>
     tb_sigs b' = tb_sigs b"
  by (auto simp: add_output_def split: if_splits option.splits)

lemma sign_Inr:
  "sign i k n b = Inr b' \<Longrightarrow>
     n = tb_network b \<and> i < length (tb_ins b) \<and> tb_outs b \<noteq> [] \<and> tb_sigs b ! i = None \<and>
     b' = b\<lparr>tb_sigs := (tb_sigs b)[i := Some (k, tb_ins b, tb_outs b)]\<rparr>"
  by (auto simp: sign_def split: if_splits option.splits)

lemma add_input_wf: "add_input t v b = Inr b' \<Longrightarrow> builder_wf b \<Longrightarrow> builder_wf b'"
  by (drule add_input_Inr) (auto simp: builder_wf_def can_modify_def list_all_iff)

lemma add_output_wf: "add_output f a v b = Inr b' \<Longrightarrow> builder_wf b \<Longrightarrow> builder_wf b'"
  by (drule add_output_Inr) (auto simp: builder_wf_def can_modify_def list_all_iff)

lemma sign_wf:
  assumes "sign i k n b = Inr b'" "builder_wf b"
  shows "builder_wf b'"
proof -
  from sign_Inr [OF assms(1)] have i: "i < length (tb_ins b)"
    and b': "b' = b\<lparr>tb_sigs := (tb_sigs b)[i := Some (k, tb_ins b, tb_outs b)]\<rparr>" by auto
  from assms(2) show ?thesis
    unfolding b' builder_wf_def
    by (auto simp: list_all_iff dest!: set_update_subset_insert [THEN subsetD])
qed

lemma builder_step_wf: "builder_step f c b = Inr b' \<Longrightarrow> builder_wf b \<Longrightarrow> builder_wf b'"
  by (cases c) (auto intro: add_input_wf add_output_wf sign_wf)

lemma builder_step_network: "builder_step f c b = Inr b' \<Longrightarrow> tb_network b' = tb_network b"
  by (cases c) (auto dest: add_input_Inr add_output_Inr sign_Inr)

lemma builder_reach_wf: "builder_reach f net b \<Longrightarrow> builder_wf b"
proof (induction rule: builder_reach.induct)
  case start
  show ?case by (rule builder_wf_new)
next
  case (step b c b')
  then show ?case by (blast intro: builder_step_wf)
qed

lemma satoshi_of_range: "satoshi_of v = Some n \<Longrightarrow> 0 \<le> n \<and> n \<le> 2100000000000000"
  by (auto simp: satoshi_of_def split: option.splits if_splits)

lemma builder_step_typed:
  "builder_step f c b = Inr b' \<Longrightarrow> builder_typed b \<Longrightarrow> builder_typed b'"
proof (cases c)
  case (AddInput t v)
  moreover assume "builder_step f c b = Inr b'" "builder_typed b"
  ultimately show ?thesis
    by (auto simp: add_input_def Let_def builder_typed_def typed_outpoint_def split: if_splits)
next
  case (AddOutput a v)
  moreover assume "builder_step f c b = Inr b'" "builder_typed b"
  ultimately show ?thesis
    by (auto simp: builder_typed_def typed_txout_def dest!: add_output_Inr satoshi_of_range)
next
  case (Sign i k n)
  moreover assume "builder_step f c b = Inr b'" "builder_typed b"
  ultimately show ?thesis by (auto simp: builder_typed_def dest!: sign_Inr)
qed

lemma builder_reach_typed: "builder_reach f net b \<Longrightarrow> builder_typed b"
proof (induction rule: builder_reach.induct)
  case start
  show ?case by (simp add: builder_typed_def new_builder_def)
next
  case (step b c b')
  then show ?case by (blast intro: builder_step_typed)
qed

text \<open>The operations that can throw \<open>Inconsistent network\<close>: only \<open>sign\<close>, with a key pair of another network.\<close>

lemma builder_ops_network:
  "add_input t v b \<noteq> Inl Inconsistent_network"
  "add_output f a x b \<noteq> Inl Inconsistent_network"
  "build b \<noteq> Inl Inconsistent_network"
  "sign i k (tb_network b) b \<noteq> Inl Inconsistent_network"
  by (auto simp: add_input_def add_output_def build_def sign_def Let_def split: option.splits)

lemma build_Inr:
  "build b = Inr t \<Longrightarrow>
     tb_ins b \<noteq> [] \<and> tb_outs b \<noteq> [] \<and> None \<notin> set (tb_sigs b) \<and>
     t = \<lparr>tx_ins = zip (tb_ins b) (map the (tb_sigs b)), tx_outs = tb_outs b\<rparr>"
  by (auto simp: build_def split: if_splits)

lemma build_wf_sound:
  assumes "builder_wf b" "build b = Inr t"
  shows "tx_sound t"
proof -
  from build_Inr [OF assms(2)] have ns: "None \<notin> set (tb_sigs b)"
    and t: "t = \<lparr>tx_ins = zip (tb_ins b) (map the (tb_sigs b)), tx_outs = tb_outs b\<rparr>" by auto
  from assms(1) have len: "length (tb_sigs b) = length (tb_ins b)" by (simp add: builder_wf_def)
  have sig: "snd sg = (tb_ins b, tb_outs b)" if "sg \<in> set (map the (tb_sigs b))" for sg
  proof -
    from that obtain s where s: "s \<in> set (tb_sigs b)" "sg = the s" by auto
    with ns obtain k si so where "s = Some (k, si, so)" by (cases s) auto
    with s assms(1) show ?thesis by (auto simp: builder_wf_def list_all_iff)
  qed
  show ?thesis
    unfolding tx_sound_def list_all_iff
  proof
    fix x assume "x \<in> set (tx_ins t)"
    then have "x \<in> set (zip (tb_ins b) (map the (tb_sigs b)))" by (simp add: t)
    then have "snd x \<in> set (map the (tb_sigs b))" by (metis prod.collapse set_zip_rightD)
    then have "snd (snd x) = (tb_ins b, tb_outs b)" by (rule sig)
    then show "case x of (op, k, si, so) \<Rightarrow> si = map fst (tx_ins t) \<and> so = tx_outs t"
      by (auto simp: t len split: prod.splits)
  qed
qed

lemma build_typed: "builder_typed b \<Longrightarrow> build b = Inr t \<Longrightarrow> tx_typed t"
  by (auto simp: tx_typed_def builder_typed_def list_all_iff dest!: build_Inr
      elim!: in_set_zipE)

subsection \<open>Properties of the builder\<close>

text \<open>
  Every transaction built from a builder reachable by successful calls is
  sound: each input's signature commits to the inputs and outputs of the built
  transaction.
\<close>

lemma builder_reach_sound:
  "builder_reach f net b \<Longrightarrow> build b = Inr t \<Longrightarrow> tx_sound t"
  by (rule build_wf_sound [OF builder_reach_wf])

text \<open>
  Once an input is signed, no successful call changes the inputs, the outputs
  or that signature: \<open>addInput\<close> and \<open>addOutput\<close> throw, and \<open>sign\<close> only fills an
  empty slot.
\<close>

lemma builder_signed_frozen:
  assumes "builder_step f c b = Inr b'" "i < length (tb_sigs b)" "tb_sigs b ! i \<noteq> None"
  shows "tb_ins b' = tb_ins b \<and> tb_outs b' = tb_outs b \<and> tb_sigs b' ! i = tb_sigs b ! i"
proof -
  have "tb_sigs b ! i \<in> set (tb_sigs b)" using assms(2) by (rule nth_mem)
  with assms(3) have nc: "\<not> can_modify b" by (auto simp: can_modify_def list_all_iff)
  show ?thesis
  proof (cases c)
    case (AddInput t v)
    with assms(1) have "add_input t v b = Inr b'" by simp
    from add_input_Inr [OF this] nc show ?thesis by simp
  next
    case (AddOutput a v)
    with assms(1) have "add_output f a v b = Inr b'" by simp
    from add_output_Inr [OF this] nc show ?thesis by simp
  next
    case (Sign j k n)
    with assms(1) have "sign j k n b = Inr b'" by simp
    note sj = sign_Inr [OF this]
    with assms(3) have "j \<noteq> i" by auto
    with sj show ?thesis by simp
  qed
qed

subsection \<open>The properties on the concrete instance\<close>

lemma demo_signed_reach: "builder_reach demo_script Bitcoin demo_signed"
proof -
  have h: "txid_hash ''0101010101010101010101010101010101010101010101010101010101010101'' = replicate 32 1"
    by (simp add: txid_hash_def hex_val_def) (simp add: numeral_eq_Suc)
  let ?b1 = "\<lparr>tb_network = Bitcoin, tb_ins = [(replicate 32 1, 0)], tb_outs = [], tb_sigs = [None]\<rparr> :: string tx_builder"
  let ?b2 = "\<lparr>tb_network = Bitcoin, tb_ins = [(replicate 32 1, 0)], tb_outs = [([], 1)], tb_sigs = [None]\<rparr> :: string tx_builder"
  have s1: "builder_step demo_script (AddInput ''0101010101010101010101010101010101010101010101010101010101010101'' 0) (new_builder Bitcoin) = Inr ?b1"
    by (simp add: builder_simps h list_all_iff)
  have s2: "builder_step demo_script (AddOutput [] (JFin 1 0)) ?b1 = Inr ?b2"
    by (simp add: builder_simps demo_script_def satoshi_of_def js_int_def)
  have s3: "builder_step demo_script (Sign 0 ''k'' Bitcoin) ?b2 = Inr demo_signed"
    by (simp add: builder_simps demo_signed_def)
  show ?thesis
    by (rule builder_reach.step [OF builder_reach.step [OF builder_reach.step [OF builder_reach.start s1] s2] s3])
qed

lemma builder_reach_sound_example:
  "builder_reach demo_script Bitcoin demo_signed \<and>
   build demo_signed = Inr \<lparr>tx_ins = [((replicate 32 1, 0), ''k'', [(replicate 32 1, 0)], [([], 1)])], tx_outs = [([], 1)]\<rparr> \<and>
   tx_sound (\<lparr>tx_ins = [((replicate 32 1, 0), ''k'', [(replicate 32 1, 0)], [([], 1)])], tx_outs = [([], 1)]\<rparr> :: string transaction)"
proof -
  have b: "build demo_signed = Inr \<lparr>tx_ins = [((replicate 32 1, 0), ''k'', [(replicate 32 1, 0)], [([], 1)])], tx_outs = [([], 1)]\<rparr>"
    by (simp add: build_def demo_signed_def)
  show ?thesis using builder_reach_sound [OF demo_signed_reach b] demo_signed_reach b by simp
qed

lemma builder_signed_frozen_example:
  "builder_step demo_script (Sign 1 ''k'' Bitcoin) demo_half =
     Inr (demo_half\<lparr>tb_sigs := [Some (''k'', [(replicate 32 1, 0), (replicate 32 1, 1)], [([], 1)]),
                                  Some (''k'', [(replicate 32 1, 0), (replicate 32 1, 1)], [([], 1)])]\<rparr>) \<and>
   tb_sigs demo_half ! 0 = Some (''k'', [(replicate 32 1, 0), (replicate 32 1, 1)], [([], 1)])"
proof -
  have s: "builder_step demo_script (Sign 1 ''k'' Bitcoin) demo_half =
     Inr (demo_half\<lparr>tb_sigs := [Some (''k'', [(replicate 32 1, 0), (replicate 32 1, 1)], [([], 1)]),
                                  Some (''k'', [(replicate 32 1, 0), (replicate 32 1, 1)], [([], 1)])]\<rparr>)"
    by (simp add: builder_simps demo_half_def)
  have "0 < length (tb_sigs demo_half)" "tb_sigs demo_half ! 0 \<noteq> None" by (simp_all add: demo_half_def)
  from builder_signed_frozen [OF s this] s show ?thesis by (simp add: demo_half_def)
qed

end
