(* ===== verification/TxWire.thy ===== *)
theory TxWire
  imports TxBuilder
begin

text \<open>
  The wire format of a built transaction, \<open>Transaction.toHex()\<close> of bitcoinjs-lib:
  the legacy (non-witness) serialisation \<open>version | varint #inputs | inputs |
  varint #outputs | outputs | locktime\<close>, rendered as lowercase hexadecimal. An input
  is \<open>hash (32 bytes) | index (UInt32 LE) | varslice scriptSig | sequence (UInt32 LE)\<close>,
  an output \<open>value (UInt64 LE) | varslice script\<close>. \<open>TransactionBuilder\<close> sets version 2,
  locktime 0 and the default sequence \<open>0xffffffff\<close>. The scriptSig of an input is made
  by the library from its signature (for P2PKH: the DER signature and the public key);
  it is the parameter \<open>ss\<close>, a function of the input's index and signature.
  The parser is the reference inverse used to state the round trip.
\<close>

subsection \<open>Little-endian integers and varints\<close>

text \<open>\<open>writeUInt32LE\<close> / \<open>writeUInt64LE\<close>: the low \<open>n\<close> bytes of \<open>x\<close>, least significant first.\<close>

fun le_bytes :: "nat \<Rightarrow> nat \<Rightarrow> byte list" where
  "le_bytes 0 x = []"
| "le_bytes (Suc n) x = word_of_nat (x mod 256) # le_bytes n (x div 256)"

fun le_val :: "byte list \<Rightarrow> nat" where
  "le_val [] = 0"
| "le_val (b # bs) = unat b + 256 * le_val bs"

text \<open>\<open>varuint.encode\<close> (varuint-bitcoin): the CompactSize encoding of a count.\<close>

definition varint :: "nat \<Rightarrow> byte list" where
  "varint n =
     (if n < 253 then le_bytes 1 n
      else if n \<le> 65535 then 253 # le_bytes 2 n
      else if n \<le> 4294967295 then 254 # le_bytes 4 n
      else 255 # le_bytes 8 n)"

text \<open>Reading \<open>k\<close> little-endian bytes, and a varint.\<close>

definition take_le :: "nat \<Rightarrow> byte list \<Rightarrow> (nat \<times> byte list) option" where
  "take_le k bs = (if k \<le> length bs then Some (le_val (take k bs), drop k bs) else None)"

fun parse_varint :: "byte list \<Rightarrow> (nat \<times> byte list) option" where
  "parse_varint [] = None"
| "parse_varint (b # bs) =
     (if unat b < 253 then Some (unat b, bs)
      else if unat b = 253 then take_le 2 bs
      else if unat b = 254 then take_le 4 bs
      else take_le 8 bs)"

definition parse_slice :: "byte list \<Rightarrow> (byte list \<times> byte list) option" where
  "parse_slice bs =
     (case parse_varint bs of
        None \<Rightarrow> None
      | Some (l, r) \<Rightarrow> if l \<le> length r then Some (take l r, drop l r) else None)"

subsection \<open>Serialisation\<close>

definition ser_input :: "(nat \<Rightarrow> 'k signature \<Rightarrow> byte list) \<Rightarrow> nat \<Rightarrow> outpoint \<times> 'k signature \<Rightarrow> byte list" where
  "ser_input ss i x =
     (case x of ((h, v), sg) \<Rightarrow>
        h @ le_bytes 4 v @ varint (length (ss i sg)) @ ss i sg @ le_bytes 4 4294967295)"

definition ser_output :: "txout \<Rightarrow> byte list" where
  "ser_output o' = (case o' of (s, n) \<Rightarrow> le_bytes 8 (nat n) @ varint (length s) @ s)"

definition serialize_tx :: "(nat \<Rightarrow> 'k signature \<Rightarrow> byte list) \<Rightarrow> 'k transaction \<Rightarrow> byte list" where
  "serialize_tx ss t =
     le_bytes 4 2 @ varint (length (tx_ins t)) @
     concat (map (\<lambda>(i, x). ser_input ss i x) (enumerate 0 (tx_ins t))) @
     varint (length (tx_outs t)) @ concat (map ser_output (tx_outs t)) @ le_bytes 4 0"

text \<open>\<open>Buffer.toString('hex')\<close>: two lowercase hex digits per byte.\<close>

definition hex_char :: "nat \<Rightarrow> char" where
  "hex_char n = (if n < 10 then char_of (48 + n) else char_of (87 + n))"

definition hex_encode :: "byte list \<Rightarrow> string" where
  "hex_encode bs = concat (map (\<lambda>b. [hex_char (unat b div 16), hex_char (unat b mod 16)]) bs)"

definition tx_to_hex :: "(nat \<Rightarrow> 'k signature \<Rightarrow> byte list) \<Rightarrow> 'k transaction \<Rightarrow> string" where
  "tx_to_hex ss t = hex_encode (serialize_tx ss t)"

subsection \<open>The parser\<close>

definition parse_input :: "byte list \<Rightarrow> ((outpoint \<times> byte list \<times> nat) \<times> byte list) option" where
  "parse_input bs =
     (if length bs < 36 then None
      else case parse_slice (drop 36 bs) of
        None \<Rightarrow> None
      | Some (sc, r) \<Rightarrow>
          (case take_le 4 r of
             None \<Rightarrow> None
           | Some (sq, r') \<Rightarrow> Some (((take 32 bs, le_val (take 4 (drop 32 bs))), sc, sq), r')))"

definition parse_output :: "byte list \<Rightarrow> ((nat \<times> byte list) \<times> byte list) option" where
  "parse_output bs =
     (case take_le 8 bs of
        None \<Rightarrow> None
      | Some (n, r) \<Rightarrow> (case parse_slice r of None \<Rightarrow> None | Some (s, r') \<Rightarrow> Some ((n, s), r')))"

fun parse_many :: "(byte list \<Rightarrow> ('a \<times> byte list) option) \<Rightarrow> nat \<Rightarrow> byte list \<Rightarrow> ('a list \<times> byte list) option" where
  "parse_many p 0 bs = Some ([], bs)"
| "parse_many p (Suc n) bs =
     (case p bs of
        None \<Rightarrow> None
      | Some (x, r) \<Rightarrow> (case parse_many p n r of None \<Rightarrow> None | Some (xs, r') \<Rightarrow> Some (x # xs, r')))"

text \<open>A transaction: version, inputs (outpoint, scriptSig, sequence), outputs (value, script), locktime.\<close>

definition parse_tx ::
  "byte list \<Rightarrow> (nat \<times> (outpoint \<times> byte list \<times> nat) list \<times> (nat \<times> byte list) list \<times> nat) option"
where
  "parse_tx bs =
     (case take_le 4 bs of None \<Rightarrow> None | Some (ver, r1) \<Rightarrow>
      case parse_varint r1 of None \<Rightarrow> None | Some (ni, r2) \<Rightarrow>
      case parse_many parse_input ni r2 of None \<Rightarrow> None | Some (ins, r3) \<Rightarrow>
      case parse_varint r3 of None \<Rightarrow> None | Some (no, r4) \<Rightarrow>
      case parse_many parse_output no r4 of None \<Rightarrow> None | Some (outs, r5) \<Rightarrow>
      case take_le 4 r5 of None \<Rightarrow> None | Some (lt, r6) \<Rightarrow>
      if r6 = [] then Some (ver, ins, outs, lt) else None)"

text \<open>The sizes the encoding can represent: every count and length below \<open>2 ^ 64\<close>.\<close>

definition wire_sized :: "(nat \<Rightarrow> 'k signature \<Rightarrow> byte list) \<Rightarrow> 'k transaction \<Rightarrow> bool" where
  "wire_sized ss t \<longleftrightarrow>
     length (tx_ins t) < 2 ^ 64 \<and> length (tx_outs t) < 2 ^ 64 \<and>
     (\<forall>(i, _, sg) \<in> set (enumerate 0 (tx_ins t)). length (ss i sg) < 2 ^ 64) \<and>
     (\<forall>(s, _) \<in> set (tx_outs t). length s < 2 ^ 64)"

subsection \<open>Round trips\<close>

lemma length_le_bytes [simp]: "length (le_bytes n x) = n"
  by (induction n arbitrary: x) simp_all

lemma le_val_le_bytes: "le_val (le_bytes n x) = x mod 256 ^ n"
proof (induction n arbitrary: x)
  case 0
  then show ?case by simp
next
  case (Suc n)
  have "unat (word_of_nat (x mod 256) :: byte) = x mod 256"
    by (simp add: unat_of_nat)
  then show ?case
    using Suc by (simp add: mod_mult2_eq)
qed

lemma take_le_le_bytes: "take_le n (le_bytes n x @ r) = Some (x mod 256 ^ n, r)"
  by (simp add: take_le_def le_val_le_bytes)

lemma parse_varint_varint: "n < 2 ^ 64 \<Longrightarrow> parse_varint (varint n @ r) = Some (n, r)"
  by (auto simp: varint_def take_le_le_bytes unat_of_nat)

lemma parse_slice_varslice:
  "length s < 2 ^ 64 \<Longrightarrow> parse_slice (varint (length s) @ s @ r) = Some (s, r)"
  by (simp add: parse_slice_def parse_varint_varint [where r = "s @ r", simplified])

lemma parse_input_ser:
  assumes "typed_outpoint op" "length (ss i sg) < 2 ^ 64"
  shows "parse_input (ser_input ss i (op, sg) @ r) = Some ((op, ss i sg, 4294967295), r)"
proof -
  obtain h v where op: "op = (h, v)" by (cases op)
  with assms(1) have h: "length h = 32" and v: "v < 2 ^ 32" by (simp_all add: typed_outpoint_def)
  let ?rest = "varint (length (ss i sg)) @ ss i sg @ le_bytes 4 4294967295 @ r"
  have bs: "ser_input ss i (op, sg) @ r = h @ le_bytes 4 v @ ?rest"
    by (simp add: ser_input_def op)
  have sl: "parse_slice ?rest = Some (ss i sg, le_bytes 4 4294967295 @ r)"
    using parse_slice_varslice [OF assms(2)] by simp
  have "le_val (take 4 (le_bytes 4 v @ ?rest)) = v"
    using v by (simp add: le_val_le_bytes)
  then show ?thesis
    unfolding bs using h sl by (simp add: parse_input_def op take_le_le_bytes)
qed

lemma parse_output_ser:
  assumes "typed_txout (s, n)" "length s < 2 ^ 64"
  shows "parse_output (ser_output (s, n) @ r) = Some ((nat n, s), r)"
proof -
  from assms(1) have "nat n < 256 ^ 8" by (simp add: typed_txout_def nat_less_iff)
  then show ?thesis
    using parse_slice_varslice [OF assms(2), of r]
    by (simp add: ser_output_def parse_output_def take_le_le_bytes)
qed

lemma parse_many_concat:
  assumes "\<And>x r. x \<in> set xs \<Longrightarrow> p (e x @ r) = Some (g x, r)"
  shows "parse_many p (length xs) (concat (map e xs) @ r) = Some (map g xs, r)"
  using assms by (induction xs arbitrary: r) simp_all

lemma parse_tx_serialize:
  assumes ty: "tx_typed t" and sz: "wire_sized ss t"
  shows "parse_tx (serialize_tx ss t) =
    Some (2, map (\<lambda>(i, op, sg). (op, ss i sg, 4294967295)) (enumerate 0 (tx_ins t)),
          map (\<lambda>(s, n). (nat n, s)) (tx_outs t), 0)"
proof -
  let ?ins = "enumerate 0 (tx_ins t)"
  have pi: "parse_many parse_input (length (tx_ins t)) (concat (map (\<lambda>(i, x). ser_input ss i x) ?ins) @ r) =
      Some (map (\<lambda>(i, op, sg). (op, ss i sg, 4294967295)) ?ins, r)" for r
  proof -
    have "parse_many parse_input (length ?ins) (concat (map (\<lambda>(i, x). ser_input ss i x) ?ins) @ r) =
      Some (map (\<lambda>(i, op, sg). (op, ss i sg, 4294967295)) ?ins, r)"
    proof (rule parse_many_concat)
      fix x r assume x: "x \<in> set ?ins"
      obtain i op sg where xe: "x = (i, op, sg)" by (cases x) auto
      from x have "(op, sg) \<in> set (tx_ins t)"
        by (auto simp: xe enumerate_eq_zip dest: set_zip_rightD)
      with ty have "typed_outpoint op" by (auto simp: tx_typed_def list_all_iff)
      moreover from x sz have "length (ss i sg) < 2 ^ 64" by (auto simp: wire_sized_def xe)
      ultimately show "parse_input ((\<lambda>(i, x). ser_input ss i x) x @ r) =
          Some ((\<lambda>(i, op, sg). (op, ss i sg, 4294967295)) x, r)"
        by (simp add: xe parse_input_ser)
    qed
    then show ?thesis by simp
  qed
  have po: "parse_many parse_output (length (tx_outs t)) (concat (map ser_output (tx_outs t)) @ r) =
      Some (map (\<lambda>(s, n). (nat n, s)) (tx_outs t), r)" for r
  proof (rule parse_many_concat)
    fix x r assume x: "x \<in> set (tx_outs t)"
    obtain s n where xe: "x = (s, n)" by (cases x)
    from x ty have "typed_txout (s, n)" by (auto simp: tx_typed_def list_all_iff xe)
    moreover from x sz have "length s < 2 ^ 64" by (auto simp: wire_sized_def xe)
    ultimately show "parse_output (ser_output x @ r) = Some ((\<lambda>(s, n). (nat n, s)) x, r)"
      by (simp add: xe parse_output_ser)
  qed
  from sz have ni: "length (tx_ins t) < 2 ^ 64" and no: "length (tx_outs t) < 2 ^ 64"
    by (simp_all add: wire_sized_def)
  show ?thesis
    by (simp add: serialize_tx_def parse_tx_def take_le_le_bytes parse_varint_varint [OF ni]
        parse_varint_varint [OF no] pi po take_le_def le_val_le_bytes del: append_assoc)
qed

lemma parsed_inputs_outpoints:
  "map (\<lambda>(op, sc, sq). (op, sq)) (map (\<lambda>(i, op, sg). (op, f i sg, k)) (enumerate n xs)) =
   map (\<lambda>x. (fst x, k)) xs"
  by (induction xs arbitrary: n) auto

lemma hex_val_hex_char: "n < 16 \<Longrightarrow> hex_val (hex_char n) = Some n"
  by (auto simp: hex_val_def hex_char_def Let_def)

lemma hex_decode_hex_encode: "hex_decode (hex_encode bs) = bs"
proof (induction bs)
  case Nil
  then show ?case by (simp add: hex_encode_def)
next
  case (Cons b bs)
  have "unat b < 256" using unsigned_less [of b] by simp
  then have "unat b div 16 < 16" "unat b mod 16 < 16" by simp_all
  moreover have "word_of_nat (16 * (unat b div 16) + unat b mod 16) = b" by simp
  ultimately show ?case
    using Cons by (simp add: hex_encode_def hex_val_hex_char)
qed

end
