(* ===== verification/Offchain.thy ===== *)
theory Offchain
  imports TxWire
begin

text \<open>
  Transaction preparation: \<open>prepareBitcoinSignedOffchainTransaction\<close>
  (\<open>src/src/offchain/bitcoin.ts\<close>, lines 55--93) and
  \<open>prepareLitecoinSignedOffchainTransaction\<close> (\<open>src/offchain/litecoin.ts\<close>, lines 38--76).
  The two bodies differ only in the network objects, the wallet generator and the
  currency tag, so both are instances of \<open>prepare_signed\<close>, parameterised by the
  currency. The body is split into its statements:
  \<^item> \<open>add_inputs\<close>: \<open>data.forEach\<close> adding every entry whose \<open>vIn\<close> is not \<open>'-1'\<close>;
  \<^item> \<open>change_carrier\<close>: \<open>data.find(d => d.vIn === '-1')\<close> (\<open>lastVin\<close>);
  \<^item> the primary \<open>addOutput\<close> of the requested amount;
  \<^item> \<open>change_output\<close>: the \<open>if (mnemonic) \<dots> else if (keyPair && changeAddress) \<dots>
    else throw\<close> chain adding the change output;
  \<^item> \<open>sign_inputs\<close>: the \<open>for (const [i, input] of data.entries())\<close> loop, signing input
    number \<open>i\<close> (the index in \<open>data\<close>) with the key \<open>input_key\<close> derives;
  \<^item> \<open>tx.build()\<close>, and \<open>toHex()\<close> of the result in \<open>prepare_hex\<close>, the string both entry
    points return.
  The collaborators from \<open>../wallet\<close> and bitcoinjs-lib that the body calls (wallet
  and key derivation, WIF decoding, address decoding) are the fields of a record
  \<open>'k crypto\<close>: the theorems hold for every implementation of them.
  A key pair is the decoded key with the network \<open>ECPair.fromWIF\<close> was given, which
  \<open>tx.sign\<close> checks. The properties: the positional signatures and the outputs of a
  prepared transaction, the error paths, that the network check of \<open>sign\<close> never
  throws, the agreement of the two credential modes, and that the amounts of the
  real inputs are never read; each is evaluated on a concrete instance whose
  mnemonic keys depend on the derivation index.
\<close>

datatype currency = BTC | LTC

record resp_address =
  ra_address :: address
  ra_derivationKey :: nat

record withdrawal_response_data =
  vIn :: txid
  vInIndex :: nat
  wr_amount :: string
  wr_address :: "resp_address option"

record key_pair =
  kp_address :: address
  kp_private :: string

text \<open>
  The collaborators: \<open>address.toOutputScript\<close>, \<open>ECPair.fromWIF\<close> (\<open>None\<close> when it
  throws), \<open>generateBtcWallet\<close>/\<open>generateLtcWallet\<close> (the \<open>xpub\<close> field),
  \<open>generateAddressFromXPub\<close>, \<open>generatePrivateKeyFromMnemonic\<close>, and the scriptSig that
  \<open>tx.sign\<close> compiles for input \<open>i\<close> from its signature (the ECDSA signature and the
  public key, bytes that \<open>toHex()\<close> writes).
\<close>

record 'k crypto =
  to_output_script :: "network \<Rightarrow> address \<Rightarrow> script option"
  from_wif :: "network \<Rightarrow> string \<Rightarrow> 'k option"
  wallet_xpub :: "currency \<Rightarrow> bool \<Rightarrow> string \<Rightarrow> string"
  address_from_xpub :: "currency \<Rightarrow> bool \<Rightarrow> string \<Rightarrow> nat \<Rightarrow> address"
  private_key_from_mnemonic :: "currency \<Rightarrow> bool \<Rightarrow> string \<Rightarrow> nat \<Rightarrow> string"
  script_sig :: "nat \<Rightarrow> 'k signature \<Rightarrow> byte list"

text \<open>
  The variables the body's closures read: the collaborators, the currency, the
  \<open>testnet\<close> flag, the selected network and the credentials as passed in.
\<close>

record 'k prep_env =
  pe_crypto :: "'k crypto"
  pe_currency :: currency
  pe_testnet :: bool
  pe_network :: network
  pe_mnemonic :: "string option"
  pe_keyPair :: "key_pair list option"

definition select_network :: "currency \<Rightarrow> bool \<Rightarrow> network" where
  "select_network cur testnet =
     (case cur of
        BTC \<Rightarrow> if testnet then Testnet else Bitcoin
      | LTC \<Rightarrow> if testnet then Litecoin_testnet else Litecoin)"

definition prep_env_of ::
  "'k crypto \<Rightarrow> currency \<Rightarrow> bool \<Rightarrow> string option \<Rightarrow> key_pair list option \<Rightarrow> 'k prep_env"
where
  "prep_env_of c cur testnet mnemonic keyPair =
     \<lparr>pe_crypto = c, pe_currency = cur, pe_testnet = testnet,
      pe_network = select_network cur testnet, pe_mnemonic = mnemonic, pe_keyPair = keyPair\<rparr>"

definition is_change_carrier :: "withdrawal_response_data \<Rightarrow> bool" where
  "is_change_carrier d \<longleftrightarrow> vIn d = ''-1''"

definition outpoint_of :: "withdrawal_response_data \<Rightarrow> outpoint" where
  "outpoint_of d = (txid_hash (vIn d), vInIndex d)"

subsection \<open>The statements of the body\<close>

fun add_inputs :: "withdrawal_response_data list \<Rightarrow> 'k tx_builder \<Rightarrow> error + 'k tx_builder" where
  "add_inputs [] b = Inr b"
| "add_inputs (d # ds) b =
     (if is_change_carrier d then add_inputs ds b
      else sbind (add_input (vIn d) (vInIndex d) b) (add_inputs ds))"

definition change_carrier :: "withdrawal_response_data list \<Rightarrow> withdrawal_response_data option" where
  "change_carrier data = find is_change_carrier data"

text \<open>\<open>lastVin.amount\<close>: a \<open>TypeError\<close> when no entry has \<open>vIn === '-1'\<close>.\<close>

definition carrier_amount :: "withdrawal_response_data option \<Rightarrow> error + string" where
  "carrier_amount lastVin =
     (case lastVin of None \<Rightarrow> Inl (Undefined_access ''amount'') | Some d \<Rightarrow> Inr (wr_amount d))"

definition change_output ::
  "'k prep_env \<Rightarrow> withdrawal_response_data option \<Rightarrow> string option \<Rightarrow> 'k tx_builder \<Rightarrow> error + 'k tx_builder"
where
  "change_output e lastVin changeAddress b =
     (let c = pe_crypto e in
      if truthy_str (pe_mnemonic e) then
        (let xpub = wallet_xpub c (pe_currency e) (pe_testnet e) (the (pe_mnemonic e));
             addr = address_from_xpub c (pe_currency e) (pe_testnet e) xpub 0
         in sbind (carrier_amount lastVin)
              (\<lambda>a. add_output (to_output_script c) addr (to_satoshi a) b))
      else if truthy_arr (pe_keyPair e) \<and> truthy_str changeAddress then
        sbind (carrier_amount lastVin)
          (\<lambda>a. add_output (to_output_script c) (the changeAddress) (to_satoshi a) b)
      else Inl Impossible_to_prepare)"

text \<open>
  \<open>ECPair.fromWIF(wif, network)\<close>: the key pair is the decoded key with the network
  object it was decoded for, which \<open>tx.sign\<close> compares with the builder's.
\<close>

type_synonym 'k ecpair = "'k \<times> network"

definition wif_key :: "'k prep_env \<Rightarrow> string \<Rightarrow> error + 'k ecpair" where
  "wif_key e wif =
     (let net = pe_network e in
      case from_wif (pe_crypto e) net wif of None \<Rightarrow> Inl Invalid_wif | Some k \<Rightarrow> Inr (k, net))"

text \<open>
  The key of one input: derived from the mnemonic at the entry's \<open>derivationKey\<close>
  (0 when the entry has no \<open>address\<close>), or looked up in the key-pair table by the
  entry's address; reading \<open>input.address.address\<close> or \<open>privateKey.private\<close> of
  \<open>undefined\<close> throws. \<open>find\<close> runs its callback, which reads \<open>input.address.address\<close>,
  only on a non-empty table; on an empty one it returns \<open>undefined\<close>.
\<close>

definition input_key :: "'k prep_env \<Rightarrow> withdrawal_response_data \<Rightarrow> error + 'k ecpair" where
  "input_key e d =
     (if truthy_str (pe_mnemonic e) then
        (let dk = (case wr_address d of Some a \<Rightarrow> ra_derivationKey a | None \<Rightarrow> 0) in
         wif_key e (private_key_from_mnemonic (pe_crypto e) (pe_currency e) (pe_testnet e)
                      (the (pe_mnemonic e)) dk))
      else case pe_keyPair e of
        None \<Rightarrow> Inl (Undefined_access ''find'')
      | Some kps \<Rightarrow>
          if kps = [] then Inl (Undefined_access ''private'')
          else (case wr_address d of
             None \<Rightarrow> Inl (Undefined_access ''address'')
           | Some a \<Rightarrow>
               (case find (\<lambda>k. kp_address k = ra_address a) kps of
                  None \<Rightarrow> Inl (Undefined_access ''private'')
                | Some p \<Rightarrow> wif_key e (kp_private p))))"

fun sign_inputs ::
  "'k prep_env \<Rightarrow> nat \<Rightarrow> withdrawal_response_data list \<Rightarrow> 'k tx_builder \<Rightarrow> error + 'k tx_builder"
where
  "sign_inputs e i [] b = Inr b"
| "sign_inputs e i (d # ds) b =
     (if is_change_carrier d then sign_inputs e (Suc i) ds b
      else sbind (input_key e d) (\<lambda>(k, knet). sbind (sign i k knet b) (sign_inputs e (Suc i) ds)))"

subsection \<open>The whole function\<close>

definition prepare_signed ::
  "'k crypto \<Rightarrow> currency \<Rightarrow> bool \<Rightarrow> withdrawal_response_data list \<Rightarrow> string \<Rightarrow> address \<Rightarrow>
   string option \<Rightarrow> key_pair list option \<Rightarrow> string option \<Rightarrow> error + 'k transaction"
where
  "prepare_signed c cur testnet data amount address mnemonic keyPair changeAddress =
     (let net = select_network cur testnet;
          e = prep_env_of c cur testnet mnemonic keyPair
      in sbind (add_inputs data (new_builder net)) (\<lambda>b1.
         let lastVin = change_carrier data in
         sbind (add_output (to_output_script c) address (to_satoshi amount) b1) (\<lambda>b2.
         sbind (change_output e lastVin changeAddress b2) (\<lambda>b3.
         sbind (sign_inputs e 0 data b3) build))))"

text \<open>
  \<open>return tx.build().toHex()\<close>: the value the entry points return is the hex of the
  built transaction, the scriptSig of each input made from its signature by the
  collaborator \<open>script_sig\<close>.
\<close>

definition prepare_hex ::
  "'k crypto \<Rightarrow> currency \<Rightarrow> bool \<Rightarrow> withdrawal_response_data list \<Rightarrow>
   string \<Rightarrow> address \<Rightarrow> string option \<Rightarrow> key_pair list option \<Rightarrow> string option \<Rightarrow> error + string"
where
  "prepare_hex c cur testnet data amount address mnemonic keyPair changeAddress =
     sbind (prepare_signed c cur testnet data amount address mnemonic keyPair changeAddress)
       (\<lambda>t. Inr (tx_to_hex (script_sig c) t))"

definition prepareBitcoinSignedOffchainTransaction ::
  "'k crypto \<Rightarrow> bool \<Rightarrow> withdrawal_response_data list \<Rightarrow> string \<Rightarrow> address \<Rightarrow>
   string option \<Rightarrow> key_pair list option \<Rightarrow> string option \<Rightarrow> error + string"
where
  "prepareBitcoinSignedOffchainTransaction c testnet data amount address mnemonic keyPair changeAddress =
     prepare_hex c BTC testnet data amount address mnemonic keyPair changeAddress"

definition prepareLitecoinSignedOffchainTransaction ::
  "'k crypto \<Rightarrow> bool \<Rightarrow> string \<Rightarrow> withdrawal_response_data list \<Rightarrow> string \<Rightarrow> address \<Rightarrow>
   string option \<Rightarrow> key_pair list option \<Rightarrow> string option \<Rightarrow> error + string"
where
  "prepareLitecoinSignedOffchainTransaction c testnet wid data amount address mnemonic keyPair changeAddress =
     prepare_hex c LTC testnet data amount address mnemonic keyPair changeAddress"

subsection \<open>A concrete instance\<close>

text \<open>
  Collaborators and data on which the function evaluates: keys are the WIF strings
  themselves, a script is the bytes of the address, the mnemonic key of every index is
  \<open>key\<close> followed by the mnemonic, the derived change address is \<open>chg\<close>.
\<close>

definition demo_crypto :: "string crypto" where
  "demo_crypto =
     \<lparr>to_output_script = (\<lambda>net a. if a = [] then None else Some (map (\<lambda>c. word_of_nat (of_char c)) a)),
      from_wif = (\<lambda>net w. if w = [] then None else Some w),
      wallet_xpub = (\<lambda>cur tn m. ''xpub'' @ m),
      address_from_xpub = (\<lambda>cur tn x i. ''chg''),
      private_key_from_mnemonic = (\<lambda>cur tn m i. ''key'' @ m @ replicate i CHR ''+''),
      script_sig = (\<lambda>i sg. [1])\<rparr>"

definition demo_input :: withdrawal_response_data where
  "demo_input = \<lparr>vIn = ''0101010101010101010101010101010101010101010101010101010101010101'', vInIndex = 0, wr_amount = ''2'',
     wr_address = Some \<lparr>ra_address = ''a1'', ra_derivationKey = 1\<rparr>\<rparr>"

definition demo_carrier :: withdrawal_response_data where
  "demo_carrier = \<lparr>vIn = ''-1'', vInIndex = 0, wr_amount = ''0.5'', wr_address = None\<rparr>"

definition demo_tx :: "string transaction" where
  "demo_tx = \<lparr>tx_ins = [((replicate 32 1, 0), ''keym+'', [(replicate 32 1, 0)],
                   [(map (\<lambda>c. word_of_nat (of_char c)) ''dest'', 150000000), (map (\<lambda>c. word_of_nat (of_char c)) ''chg'', 50000000)])],
        tx_outs = [(map (\<lambda>c. word_of_nat (of_char c)) ''dest'', 150000000), (map (\<lambda>c. word_of_nat (of_char c)) ''chg'', 50000000)]\<rparr>"

text \<open>The hex string the concrete instance returns.\<close>

definition demo_hex :: string where
  "demo_hex = tx_to_hex (script_sig demo_crypto) demo_tx"

subsection \<open>Lemmas on the statements\<close>

lemma add_inputs_Inr:
  "add_inputs ds b = Inr b' \<Longrightarrow>
     tb_network b' = tb_network b \<and> tb_outs b' = tb_outs b \<and>
     tb_ins b' = tb_ins b @ map outpoint_of (filter (\<lambda>d. \<not> is_change_carrier d) ds) \<and>
     tb_sigs b' = tb_sigs b @ replicate (length (filter (\<lambda>d. \<not> is_change_carrier d) ds)) None"
proof (induction ds arbitrary: b)
  case Nil
  then show ?case by simp
next
  case (Cons d ds)
  show ?case
  proof (cases "is_change_carrier d")
    case True
    with Cons show ?thesis by simp
  next
    case False
    with Cons.prems obtain b1 where b1: "add_input (vIn d) (vInIndex d) b = Inr b1"
      and rest: "add_inputs ds b1 = Inr b'" by (auto simp: sbind_eq_Inr)
    from add_input_Inr [OF b1] Cons.IH [OF rest] False show ?thesis
      by (simp add: outpoint_of_def replicate_app_Cons_same)
  qed
qed

lemma sign_inputs_Inr:
  "sign_inputs e i ds b = Inr b' \<Longrightarrow> length (tb_sigs b) = length (tb_ins b) \<Longrightarrow>
     tb_network b' = tb_network b \<and> tb_ins b' = tb_ins b \<and> tb_outs b' = tb_outs b \<and>
     length (tb_sigs b') = length (tb_sigs b) \<and>
     (\<forall>p < i. tb_sigs b' ! p = tb_sigs b ! p) \<and>
     (\<forall>j < length ds. \<not> is_change_carrier (ds ! j) \<longrightarrow>
        i + j < length (tb_ins b) \<and>
        (\<exists>k. input_key e (ds ! j) = Inr (k, tb_network b) \<and> tb_sigs b' ! (i + j) = Some (k, tb_ins b, tb_outs b)))"
proof (induction ds arbitrary: i b)
  case Nil
  then show ?case by simp
next
  case (Cons d ds)
  show ?case
  proof (cases "is_change_carrier d")
    case True
    with Cons.prems have rest: "sign_inputs e (Suc i) ds b = Inr b'" by simp
    note IH = Cons.IH [OF rest Cons.prems(2)]
    show ?thesis
    proof (intro conjI allI impI)
      fix j assume "j < length (d # ds)" "\<not> is_change_carrier ((d # ds) ! j)"
      with True obtain j' where j': "j = Suc j'" "j' < length ds" "\<not> is_change_carrier (ds ! j')"
        by (cases j) auto
      with IH show "i + j < length (tb_ins b)" by auto
      from IH j' obtain k
        where "input_key e (ds ! j') = Inr (k, tb_network b)" "tb_sigs b' ! (Suc i + j') = Some (k, tb_ins b, tb_outs b)"
        by blast
      with j' show "\<exists>k. input_key e ((d # ds) ! j) = Inr (k, tb_network b) \<and>
          tb_sigs b' ! (i + j) = Some (k, tb_ins b, tb_outs b)" by auto
    qed (use IH in auto)
  next
    case False
    with Cons.prems obtain k n b1 where k0: "input_key e d = Inr (k, n)" and b1: "sign i k n b = Inr b1"
      and rest: "sign_inputs e (Suc i) ds b1 = Inr b'" by (auto simp: sbind_eq_Inr split: prod.splits)
    from sign_Inr [OF b1] have k: "input_key e d = Inr (k, tb_network b)" using k0 by simp
    from sign_Inr [OF b1] have i: "i < length (tb_ins b)"
      and b1s: "b1 = b\<lparr>tb_sigs := (tb_sigs b)[i := Some (k, tb_ins b, tb_outs b)]\<rparr>" by auto
    have len1: "length (tb_sigs b1) = length (tb_ins b1)" using Cons.prems(2) b1s by simp
    note IH = Cons.IH [OF rest len1]
    have fr: "tb_ins b1 = tb_ins b" "tb_outs b1 = tb_outs b" "tb_network b1 = tb_network b"
      using b1s by simp_all
    have sig_i: "tb_sigs b' ! i = Some (k, tb_ins b, tb_outs b)"
      using IH i Cons.prems(2) b1s by simp
    show ?thesis
    proof (intro conjI allI impI)
      fix p assume "p < i"
      with IH b1s show "tb_sigs b' ! p = tb_sigs b ! p" by simp
    next
      fix j assume j: "j < length (d # ds)" "\<not> is_change_carrier ((d # ds) ! j)"
      show "i + j < length (tb_ins b)"
      proof (cases j)
        case 0
        with i show ?thesis by simp
      next
        case (Suc j')
        with j IH fr show ?thesis by auto
      qed
      show "\<exists>k. input_key e ((d # ds) ! j) = Inr (k, tb_network b) \<and>
          tb_sigs b' ! (i + j) = Some (k, tb_ins b, tb_outs b)"
      proof (cases j)
        case 0
        with k sig_i show ?thesis by simp
      next
        case (Suc j')
        with j IH fr show ?thesis by auto
      qed
    qed (use IH fr b1s in auto)
  qed
qed


lemma prep_env_of_sel [simp]:
  "pe_crypto (prep_env_of c cur tn m kp) = c" "pe_currency (prep_env_of c cur tn m kp) = cur"
  "pe_testnet (prep_env_of c cur tn m kp) = tn" "pe_network (prep_env_of c cur tn m kp) = select_network cur tn"
  "pe_mnemonic (prep_env_of c cur tn m kp) = m" "pe_keyPair (prep_env_of c cur tn m kp) = kp"
  by (simp_all add: prep_env_of_def)

lemma prepare_signed_Inr:
  "prepare_signed c cur tn data amount addr m kp ca = Inr t \<Longrightarrow>
   \<exists>b1 b2 b3 b4. add_inputs data (new_builder (select_network cur tn)) = Inr b1 \<and>
     add_output (to_output_script c) addr (to_satoshi amount) b1 = Inr b2 \<and>
     change_output (prep_env_of c cur tn m kp) (change_carrier data) ca b2 = Inr b3 \<and>
     sign_inputs (prep_env_of c cur tn m kp) 0 data b3 = Inr b4 \<and> build b4 = Inr t"
  by (auto simp: prepare_signed_def Let_def sbind_eq_Inr)

lemma change_output_Inr:
  "change_output e lv ca b = Inr b' \<Longrightarrow>
   \<exists>d. lv = Some d \<and>
     add_output (to_output_script (pe_crypto e))
       (if truthy_str (pe_mnemonic e)
        then address_from_xpub (pe_crypto e) (pe_currency e) (pe_testnet e)
               (wallet_xpub (pe_crypto e) (pe_currency e) (pe_testnet e) (the (pe_mnemonic e))) 0
        else the ca)
       (to_satoshi (wr_amount d)) b = Inr b'"
  by (auto simp: change_output_def carrier_amount_def Let_def sbind_eq_Inr split: if_splits option.splits)

subsection \<open>Properties of the prepared transaction\<close>

lemma prepare_pipeline:
  assumes "prepare_signed c cur tn data amount addr m kp ca = Inr t"
  obtains b3 b4 s1 v1 d s2 v2 where
    "tb_ins b3 = map outpoint_of (filter (\<lambda>d. \<not> is_change_carrier d) data)"
    "tb_sigs b3 = replicate (length (filter (\<lambda>d. \<not> is_change_carrier d) data)) None"
    "tb_outs b3 = [(s1, v1), (s2, v2)]"
    "tb_network b3 = select_network cur tn"
    "to_output_script c (select_network cur tn) addr = Some s1"
    "satoshi_of (to_satoshi amount) = Some v1"
    "change_carrier data = Some d"
    "satoshi_of (to_satoshi (wr_amount d)) = Some v2"
    "to_output_script c (select_network cur tn)
       (if truthy_str m then address_from_xpub c cur tn (wallet_xpub c cur tn (the m)) 0 else the ca) = Some s2"
    "sign_inputs (prep_env_of c cur tn m kp) 0 data b3 = Inr b4"
    "build b4 = Inr t"
    "tb_ins b4 = tb_ins b3" "tb_outs b4 = tb_outs b3"
    "length (tb_sigs b4) = length (filter (\<lambda>d. \<not> is_change_carrier d) data)"
    "tx_ins t = zip (tb_ins b4) (map the (tb_sigs b4))" "tx_outs t = tb_outs b4"
proof -
  from prepare_signed_Inr [OF assms] obtain b1 b2 b3 b4 where
    a1: "add_inputs data (new_builder (select_network cur tn)) = Inr b1" and
    a2: "add_output (to_output_script c) addr (to_satoshi amount) b1 = Inr b2" and
    a3: "change_output (prep_env_of c cur tn m kp) (change_carrier data) ca b2 = Inr b3" and
    a4: "sign_inputs (prep_env_of c cur tn m kp) 0 data b3 = Inr b4" and
    a5: "build b4 = Inr t" by blast
  from add_inputs_Inr [OF a1] have i1:
    "tb_network b1 = select_network cur tn" "tb_outs b1 = []"
    "tb_ins b1 = map outpoint_of (filter (\<lambda>d. \<not> is_change_carrier d) data)"
    "tb_sigs b1 = replicate (length (filter (\<lambda>d. \<not> is_change_carrier d) data)) None"
    by (simp_all add: new_builder_def)
  from add_output_Inr [OF a2] i1 obtain s1 v1 where i2:
    "tb_network b2 = select_network cur tn" "tb_ins b2 = tb_ins b1" "tb_sigs b2 = tb_sigs b1"
    "to_output_script c (select_network cur tn) addr = Some s1"
    "satoshi_of (to_satoshi amount) = Some v1" "tb_outs b2 = [(s1, v1)]" by auto
  from change_output_Inr [OF a3, unfolded prep_env_of_sel] obtain d where d: "change_carrier data = Some d"
    and a3': "add_output (to_output_script c)
       (if truthy_str m then address_from_xpub c cur tn (wallet_xpub c cur tn (the m)) 0 else the ca)
       (to_satoshi (wr_amount d)) b2 = Inr b3"
    by blast
  from add_output_Inr [OF a3'] i2 obtain s2 v2 where i3:
    "tb_network b3 = select_network cur tn" "tb_ins b3 = tb_ins b1" "tb_sigs b3 = tb_sigs b1"
    "to_output_script c (select_network cur tn)
       (if truthy_str m then address_from_xpub c cur tn (wallet_xpub c cur tn (the m)) 0 else the ca) = Some s2"
    "satoshi_of (to_satoshi (wr_amount d)) = Some v2" "tb_outs b3 = [(s1, v1), (s2, v2)]" by auto
  have len: "length (tb_sigs b3) = length (tb_ins b3)" using i1 i3 by simp
  note si = sign_inputs_Inr [OF a4 len]
  from build_Inr [OF a5] have "tx_ins t = zip (tb_ins b4) (map the (tb_sigs b4))" "tx_outs t = tb_outs b4"
    by simp_all
  then show ?thesis
    using that [of b3 s1 v1 s2 v2 d b4] i1 i2 i3 d a4 a5 si by simp
qed


text \<open>
  C6: a prepared transaction has exactly two outputs: the requested amount to the
  requested address, then the amount of the change carrier (the first entry with
  \<open>vIn = '-1'\<close>) to the change address, which is the address derived from the
  mnemonic at index 0 when a mnemonic is given and \<open>changeAddress\<close> otherwise.
\<close>

theorem prepare_outputs:
  "prepare_signed c cur tn data amount addr m kp ca = Inr t \<Longrightarrow>
   \<exists>s1 v1 d s2 v2.
     to_output_script c (select_network cur tn) addr = Some s1 \<and>
     satoshi_of (to_satoshi amount) = Some v1 \<and>
     change_carrier data = Some d \<and>
     satoshi_of (to_satoshi (wr_amount d)) = Some v2 \<and>
     to_output_script c (select_network cur tn)
       (if truthy_str m then address_from_xpub c cur tn (wallet_xpub c cur tn (the m)) 0
        else the ca) = Some s2 \<and>
     tx_outs t = [(s1, v1), (s2, v2)]"
  by (erule prepare_pipeline) auto


lemma prepare_sign_indices:
  assumes "prepare_signed c cur tn data amount addr m kp ca = Inr t"
  obtains b3 b4 :: "'k tx_builder" where
    "tb_ins b3 = map outpoint_of (filter (\<lambda>d. \<not> is_change_carrier d) data)"
    "tb_ins b4 = tb_ins b3" "length (tb_sigs b4) = length (filter (\<lambda>d. \<not> is_change_carrier d) data)"
    "tx_ins t = zip (tb_ins b4) (map the (tb_sigs b4))" "build b4 = Inr t"
    "\<forall>j < length data. \<not> is_change_carrier (data ! j) \<longrightarrow>
        j < length (filter (\<lambda>d. \<not> is_change_carrier d) data) \<and>
        (\<exists>k. input_key (prep_env_of c cur tn m kp) (data ! j) = Inr (k, select_network cur tn) \<and>
           tb_sigs b4 ! j = Some (k, tb_ins b3, tb_outs b3))"
proof -
  from prepare_pipeline [OF assms] obtain b3 b4 where
    p: "tb_ins b3 = map outpoint_of (filter (\<lambda>d. \<not> is_change_carrier d) data)"
       "tb_sigs b3 = replicate (length (filter (\<lambda>d. \<not> is_change_carrier d) data)) None"
       "sign_inputs (prep_env_of c cur tn m kp) 0 data b3 = Inr b4"
       "tb_ins b4 = tb_ins b3" "length (tb_sigs b4) = length (filter (\<lambda>d. \<not> is_change_carrier d) data)"
       "tx_ins t = zip (tb_ins b4) (map the (tb_sigs b4))" "build b4 = Inr t"
       "tb_network b3 = select_network cur tn"
    by blast
  have len: "length (tb_sigs b3) = length (tb_ins b3)" using p by simp
  from sign_inputs_Inr [OF p(3) len] p have sg:
    "\<forall>j < length data. \<not> is_change_carrier (data ! j) \<longrightarrow>
        j < length (filter (\<lambda>d. \<not> is_change_carrier d) data) \<and>
        (\<exists>k. input_key (prep_env_of c cur tn m kp) (data ! j) = Inr (k, select_network cur tn) \<and>
           tb_sigs b4 ! j = Some (k, tb_ins b3, tb_outs b3))" by simp
  show ?thesis by (rule that [OF p(1) p(4) p(5) p(6) p(7) sg])
qed

text \<open>
  C7: \<open>prepare*SignedOffchainTransaction\<close> succeeds only if every change carrier in
  \<open>data\<close> comes after every real input: the signing loop signs input number \<open>i\<close>
  with \<open>i\<close> the position in \<open>data\<close>, so a carrier before a real input shifts the
  index past the inputs of the builder.
\<close>

theorem prepare_change_carrier_last:
  "prepare_signed c cur tn data amount addr m kp ca = Inr t \<Longrightarrow> sep_after is_change_carrier data"
  by (erule prepare_sign_indices) (auto intro: sep_after_of_index_bound)

text \<open>
  C1: in a prepared transaction, input number \<open>j\<close> spends the outpoint of the
  \<open>j\<close>-th real entry of \<open>data\<close> and carries a signature by the key that
  \<open>input_key\<close> derives for that same entry (from the mnemonic at its derivation
  index, or from the key pair of its address).
\<close>

theorem prepare_positional:
  "prepare_signed (c :: 'k crypto) cur tn data amount addr m kp ca = Inr t \<Longrightarrow>
   list_all2 (\<lambda>(op, k, _) d. op = outpoint_of d \<and> input_key (prep_env_of c cur tn m kp) d = Inr (k, select_network cur tn))
     (tx_ins t) (filter (\<lambda>d. \<not> is_change_carrier d) data)"
proof -
  assume a: "prepare_signed c cur tn data amount addr m kp ca = Inr t"
  let ?reals = "filter (\<lambda>d. \<not> is_change_carrier d) data"
  let ?e = "prep_env_of c cur tn m kp"
  obtain b3 b4 :: "'k tx_builder" where
    p: "tb_ins b3 = map outpoint_of ?reals" "tb_ins b4 = tb_ins b3"
       "length (tb_sigs b4) = length ?reals"
       "tx_ins t = zip (tb_ins b4) (map the (tb_sigs b4))" "build b4 = Inr t"
    and sg: "\<forall>j < length data. \<not> is_change_carrier (data ! j) \<longrightarrow> j < length ?reals \<and>
        (\<exists>k. input_key ?e (data ! j) = Inr (k, select_network cur tn) \<and> tb_sigs b4 ! j = Some (k, tb_ins b3, tb_outs b3))"
    by (rule prepare_sign_indices [OF a])
  from sg have sep: "sep_after is_change_carrier data"
    by (auto intro: sep_after_of_index_bound)
  have key: "\<exists>k. input_key ?e (?reals ! j) = Inr (k, select_network cur tn) \<and> tb_sigs b4 ! j = Some (k, tb_ins b3, tb_outs b3)"
    if j: "j < length ?reals" for j
  proof -
    have "data ! j = ?reals ! j" using sep j by (rule sep_after_nth)
    moreover have "\<not> is_change_carrier (?reals ! j)"
      using nth_mem [OF j] by simp
    moreover have "j < length data" using j length_filter_le [of _ data] by (rule less_le_trans)
    ultimately show ?thesis using sg by metis
  qed
  show ?thesis
  proof (rule list_all2_all_nthI)
    show "length (tx_ins t) = length (filter (\<lambda>d. \<not> is_change_carrier d) data)"
      using p by simp
  next
    fix j assume "j < length (tx_ins t)"
    then have j: "j < length ?reals" using p by simp
    from key [OF j] obtain k where k: "input_key ?e (?reals ! j) = Inr (k, select_network cur tn)"
      "tb_sigs b4 ! j = Some (k, tb_ins b3, tb_outs b3)" by blast
    have "tx_ins t ! j = (outpoint_of (?reals ! j), k, tb_ins b3, tb_outs b3)"
      using p j k by simp
    with k show "(\<lambda>(op, k, _) d. op = outpoint_of d \<and> input_key (prep_env_of c cur tn m kp) d = Inr (k, select_network cur tn))
        (tx_ins t ! j) (filter (\<lambda>d. \<not> is_change_carrier d) data ! j)"
      by simp
  qed
qed

lemma add_inputs_reach:
  "add_inputs ds b = Inr b' \<Longrightarrow> builder_reach f net b \<Longrightarrow> builder_reach f net b'"
proof (induction ds arbitrary: b)
  case Nil
  then show ?case by simp
next
  case (Cons d ds)
  show ?case
  proof (cases "is_change_carrier d")
    case True
    with Cons show ?thesis by simp
  next
    case False
    with Cons.prems obtain b1 where b1: "add_input (vIn d) (vInIndex d) b = Inr b1"
      and rest: "add_inputs ds b1 = Inr b'" by (auto simp: sbind_eq_Inr)
    have "builder_reach f net b1"
      using builder_reach.step [OF Cons.prems(2), of "AddInput (vIn d) (vInIndex d)"] b1 by simp
    with rest show ?thesis by (rule Cons.IH)
  qed
qed

lemma sign_inputs_reach:
  "sign_inputs e i ds b = Inr b' \<Longrightarrow> builder_reach f net b \<Longrightarrow> builder_reach f net b'"
proof (induction ds arbitrary: i b)
  case Nil
  then show ?case by simp
next
  case (Cons d ds)
  show ?case
  proof (cases "is_change_carrier d")
    case True
    with Cons show ?thesis by simp
  next
    case False
    with Cons.prems obtain k n b1 where b1: "sign i k n b = Inr b1"
      and rest: "sign_inputs e (Suc i) ds b1 = Inr b'" by (auto simp: sbind_eq_Inr split: prod.splits)
    have "builder_reach f net b1"
      using builder_reach.step [OF Cons.prems(2), of "Sign i k n"] b1 by simp
    with rest show ?thesis by (rule Cons.IH)
  qed
qed

lemma add_output_reach:
  "add_output f a v b = Inr b' \<Longrightarrow> builder_reach f net b \<Longrightarrow> builder_reach f net b'"
  using builder_reach.step [of f net b "AddOutput a v"] by simp

lemma change_output_reach:
  "change_output e lv ca b = Inr b' \<Longrightarrow> builder_reach (to_output_script (pe_crypto e)) net b \<Longrightarrow>
   builder_reach (to_output_script (pe_crypto e)) net b'"
  by (auto simp: change_output_def Let_def sbind_eq_Inr split: if_splits intro: add_output_reach)

lemma prepare_reach:
  assumes "prepare_signed c cur tn data amount addr m kp ca = Inr t"
  shows "\<exists>b. builder_reach (to_output_script c) (select_network cur tn) b \<and> build b = Inr t"
proof -
  from prepare_signed_Inr [OF assms] obtain b1 b2 b3 b4 where
    a1: "add_inputs data (new_builder (select_network cur tn)) = Inr b1" and
    a2: "add_output (to_output_script c) addr (to_satoshi amount) b1 = Inr b2" and
    a3: "change_output (prep_env_of c cur tn m kp) (change_carrier data) ca b2 = Inr b3" and
    a4: "sign_inputs (prep_env_of c cur tn m kp) 0 data b3 = Inr b4" and
    a5: "build b4 = Inr t" by blast
  have "builder_reach (to_output_script c) (select_network cur tn) b1"
    using a1 builder_reach.start by (rule add_inputs_reach)
  then have "builder_reach (to_output_script c) (select_network cur tn) b2"
    using a2 by (blast intro: add_output_reach)
  then have "builder_reach (to_output_script c) (select_network cur tn) b3"
    using change_output_reach [OF a3] by simp
  then have "builder_reach (to_output_script c) (select_network cur tn) b4"
    using a4 by (blast intro: sign_inputs_reach)
  with a5 show ?thesis by blast
qed

lemma sign_inputs_cong:
  "(\<And>d. d \<in> set ds \<Longrightarrow> \<not> is_change_carrier d \<Longrightarrow> input_key e d = input_key e' d) \<Longrightarrow>
   sign_inputs e i ds b = sign_inputs e' i ds b"
proof -
  assume "\<And>d. d \<in> set ds \<Longrightarrow> \<not> is_change_carrier d \<Longrightarrow> input_key e d = input_key e' d"
  then have "sign_inputs e i ds = sign_inputs e' i ds"
    by (induction ds arbitrary: i) (auto intro!: ext)
  then show ?thesis by simp
qed

lemma input_key_mnemonic:
  "truthy_str m \<Longrightarrow> input_key (prep_env_of c cur tn m kp) d = input_key (prep_env_of c cur tn m kp') d"
  by (simp add: input_key_def wif_key_def)

lemma change_output_mnemonic:
  "truthy_str m \<Longrightarrow> change_output (prep_env_of c cur tn m kp) lv ca b = change_output (prep_env_of c cur tn m kp') lv ca' b"
  by (simp add: change_output_def)

text \<open>C20: when a mnemonic is given, the key pairs and the change address passed beside it are ignored.\<close>

theorem prepare_mnemonic_precedence:
  "truthy_str m \<Longrightarrow>
   prepare_signed c cur tn data amount addr m kp ca = prepare_signed c cur tn data amount addr m None None"
proof -
  assume m: "truthy_str m"
  have co: "change_output (prep_env_of c cur tn m kp) lv ca b = change_output (prep_env_of c cur tn m None) lv None b"
    for lv b using m by (rule change_output_mnemonic)
  have si: "sign_inputs (prep_env_of c cur tn m kp) i ds b = sign_inputs (prep_env_of c cur tn m None) i ds b"
    for i ds b using m by (intro sign_inputs_cong input_key_mnemonic)
  show ?thesis by (simp add: prepare_signed_def Let_def co si)
qed

text \<open>C21: without a change carrier in \<open>data\<close>, once the inputs and the primary output are added, reading \<open>lastVin.amount\<close> throws.\<close>

theorem prepare_missing_change_carrier:
  fixes c :: "'k crypto" and b1 b2 :: "'k tx_builder"
  assumes "change_carrier data = None"
    and "add_inputs data (new_builder (select_network cur tn)) = Inr b1"
    and "add_output (to_output_script c) addr (to_satoshi amount) b1 = Inr b2"
    and "truthy_str m \<or> truthy_arr kp \<and> truthy_str ca"
  shows "prepare_signed c cur tn data amount addr m kp ca = Inl (Undefined_access ''amount'')"
  using assms by (auto simp: prepare_signed_def change_output_def carrier_amount_def Let_def)

text \<open>C22: without a mnemonic, and without key pairs or a change address, preparation throws after the primary output.\<close>

theorem prepare_no_credentials:
  fixes c :: "'k crypto" and b1 b2 :: "'k tx_builder"
  assumes "\<not> truthy_str m" and "\<not> (truthy_arr kp \<and> truthy_str ca)"
    and "add_inputs data (new_builder (select_network cur tn)) = Inr b1"
    and "add_output (to_output_script c) addr (to_satoshi amount) b1 = Inr b2"
  shows "prepare_signed c cur tn data amount addr m kp ca = Inl Impossible_to_prepare"
  using assms by (auto simp: prepare_signed_def change_output_def Let_def)

text \<open>
  C19: mnemonic mode and key-pair mode agree when they hold the same key material:
  when every real entry carries an address whose key pair is the key the mnemonic
  derives at the entry's derivation index, and the change address is the one the
  mnemonic derives, both modes prepare the same transaction.
\<close>

theorem prepare_cross_mode:
  assumes mn: "mn \<noteq> []"
    and keys: "\<forall>d \<in> set data. \<not> is_change_carrier d \<longrightarrow>
       (\<exists>a p. wr_address d = Some a \<and> find (\<lambda>k. kp_address k = ra_address a) kps = Some p \<and>
              kp_private p = private_key_from_mnemonic c cur tn mn (ra_derivationKey a))"
    and ca: "ca = address_from_xpub c cur tn (wallet_xpub c cur tn mn) 0" "ca \<noteq> []"
  shows "prepare_signed c cur tn data amount addr (Some mn) None None =
         prepare_signed c cur tn data amount addr None (Some kps) (Some ca)"
proof -
  have k: "input_key (prep_env_of c cur tn (Some mn) None) d = input_key (prep_env_of c cur tn None (Some kps)) d"
    if "d \<in> set data" "\<not> is_change_carrier d" for d
    using keys that mn by (auto simp: input_key_def wif_key_def)
  have co: "change_output (prep_env_of c cur tn (Some mn) None) lv None b =
            change_output (prep_env_of c cur tn None (Some kps)) lv (Some ca) b" for lv b
    using ca mn by (simp add: change_output_def)
  show ?thesis
    by (simp add: prepare_signed_def Let_def co sign_inputs_cong [OF k])
qed

text \<open>
  C24: a \<open>data\<close> without a real input (only change carriers) never yields a
  transaction: \<open>tx.build()\<close> throws on a transaction without inputs.
\<close>

theorem prepare_no_real_inputs:
  "\<forall>d \<in> set data. is_change_carrier d \<Longrightarrow>
   \<nexists>t. prepare_signed (c :: 'k crypto) cur tn data amount addr m kp ca = Inr t"
proof
  assume all: "\<forall>d \<in> set data. is_change_carrier d"
  assume "\<exists>t. prepare_signed c cur tn data amount addr m kp ca = Inr t"
  then obtain t where t: "prepare_signed c cur tn data amount addr m kp ca = Inr t" ..
  have none: "filter (\<lambda>d. \<not> is_change_carrier d) data = []"
    using all by (simp add: filter_empty_conv)
  show False
  proof (rule prepare_sign_indices [OF t])
    fix b3 b4 :: "'k tx_builder"
    assume h: "tb_ins b3 = map outpoint_of (filter (\<lambda>d. \<not> is_change_carrier d) data)"
      "tb_ins b4 = tb_ins b3" "build b4 = Inr t"
    from build_Inr [OF h(3)] h(1,2) none show False by simp
  qed
qed

text \<open>
  C23: in key-pair mode a real entry whose address has no key pair in the table
  (the specification's \<open>MissingKeyForInput\<close>) means that no transaction is returned:
  \<open>keyPair.find(...)\<close> gives \<open>undefined\<close> and reading its \<open>private\<close> field throws,
  unless an earlier statement threw already.
\<close>

theorem prepare_missing_key:
  assumes m: "\<not> truthy_str m" and d: "d \<in> set data" "\<not> is_change_carrier d"
    and ad: "wr_address d = Some ad" and none: "find (\<lambda>k. kp_address k = ra_address ad) kps = None"
  shows "\<nexists>t. prepare_signed (c :: 'k crypto) cur tn data amount addr m (Some kps) ca = Inr t"
proof
  assume "\<exists>t. prepare_signed c cur tn data amount addr m (Some kps) ca = Inr t"
  then obtain t where t: "prepare_signed c cur tn data amount addr m (Some kps) ca = Inr t" ..
  from d(1) obtain j where j: "j < length data" "data ! j = d" by (auto simp: in_set_conv_nth)
  have err: "input_key (prep_env_of c cur tn m (Some kps)) d = Inl (Undefined_access ''private'')"
    using m ad none by (simp add: input_key_def)
  show False
  proof (rule prepare_sign_indices [OF t])
    fix b3 b4 :: "'k tx_builder"
    assume "\<forall>j < length data. \<not> is_change_carrier (data ! j) \<longrightarrow>
        j < length (filter (\<lambda>d. \<not> is_change_carrier d) data) \<and>
        (\<exists>k. input_key (prep_env_of c cur tn m (Some kps)) (data ! j) = Inr (k, select_network cur tn) \<and>
           tb_sigs b4 ! j = Some (k, tb_ins b3, tb_outs b3))"
    with j d(2) err show False by auto
  qed
qed

lemma statements_network:
  fixes e :: "'k prep_env" and b :: "'k tx_builder"
  shows "add_inputs ds b \<noteq> Inl Inconsistent_network"
    and "change_output e lv ca b \<noteq> Inl Inconsistent_network"
    and "input_key e d \<noteq> Inl Inconsistent_network"
    and "tb_network b = pe_network e \<Longrightarrow> sign_inputs e i ds b \<noteq> Inl Inconsistent_network"
proof -
  show "add_inputs ds b \<noteq> Inl Inconsistent_network"
    by (induction ds arbitrary: b) (auto simp: sbind_eq_Inl builder_ops_network)
  show "change_output e lv ca b \<noteq> Inl Inconsistent_network"
    by (auto simp: change_output_def carrier_amount_def Let_def sbind_eq_Inl builder_ops_network
        split: option.splits)
  show k: "input_key e d \<noteq> Inl Inconsistent_network" for d
    by (auto simp: input_key_def wif_key_def Let_def split: option.splits)
  show "tb_network b = pe_network e \<Longrightarrow> sign_inputs e i ds b \<noteq> Inl Inconsistent_network"
  proof (induction ds arbitrary: i b)
    case (Cons d ds)
    have kn: "n = pe_network e" if "input_key e d = Inr (k, n)" for k n
      using that by (auto simp: input_key_def wif_key_def Let_def split: if_splits option.splits)
    have sg: "sign i k (pe_network e) b \<noteq> Inl Inconsistent_network" for k
      using builder_ops_network(4) [of i k b] Cons.prems by simp
    have nt: "tb_network b' = pe_network e" if "sign i k (pe_network e) b = Inr b'" for k b'
      using sign_Inr [OF that] Cons.prems by simp
    show ?case
    proof
      assume a: "sign_inputs e i (d # ds) b = Inl Inconsistent_network"
      show False
      proof (cases "is_change_carrier d")
        case True
        with a Cons.IH Cons.prems show False by simp
      next
        case False
        with a consider "input_key e d = Inl Inconsistent_network"
          | k n where "input_key e d = Inr (k, n)"
              "sbind (sign i k n b) (sign_inputs e (Suc i) ds) = Inl Inconsistent_network"
          by (auto simp: sbind_eq_Inl)
        then show False
        proof cases
          case 1
          with k show False by blast
        next
          case (2 k n)
          with kn have "sbind (sign i k (pe_network e) b) (sign_inputs e (Suc i) ds) = Inl Inconsistent_network"
            by blast
          then consider "sign i k (pe_network e) b = Inl Inconsistent_network"
            | b' where "sign i k (pe_network e) b = Inr b'" "sign_inputs e (Suc i) ds b' = Inl Inconsistent_network"
            by (auto simp: sbind_eq_Inl)
          then show False
          proof cases
            case 1
            with sg show False by blast
          next
            case (2 b')
            with nt Cons.IH show False by blast
          qed
        qed
      qed
    qed
  qed simp
qed

text \<open>
  C18: the \<open>Inconsistent network\<close> check of \<open>tx.sign\<close> never throws in the
  preparation: the key pairs are decoded by \<open>ECPair.fromWIF(..., network)\<close> with the
  same network the builder was created with.
\<close>

theorem prepare_consistent_network:
  "prepare_signed (c :: 'k crypto) cur tn data amount addr m kp ca \<noteq> Inl Inconsistent_network"
proof
  let ?net = "select_network cur tn"
  let ?e = "prep_env_of c cur tn m kp"
  assume a: "prepare_signed c cur tn data amount addr m kp ca = Inl Inconsistent_network"
  have net: "tb_network b3 = pe_network ?e"
    if "add_inputs data (new_builder ?net) = Inr b1" "add_output (to_output_script c) addr (to_satoshi amount) b1 = Inr b2"
       "change_output ?e (change_carrier data) ca b2 = Inr b3" for b1 b2 b3 :: "'k tx_builder"
  proof -
    from change_output_Inr [OF that(3)] obtain f a' v where "add_output f a' v b2 = Inr b3"
      by blast
    from add_output_Inr [OF this] add_output_Inr [OF that(2)] add_inputs_Inr [OF that(1)]
    show ?thesis by (simp add: new_builder_def)
  qed
  from a show False
    by (auto simp: prepare_signed_def Let_def sbind_eq_Inl statements_network builder_ops_network
        dest: statements_network(4) [OF net])
qed

text \<open>\<open>tx.addInput\<close> accepted every real entry, so each transaction id decodes to 32 bytes.\<close>

lemma add_inputs_txid_length:
  "add_inputs ds b = Inr b' \<Longrightarrow> d \<in> set ds \<Longrightarrow> \<not> is_change_carrier d \<Longrightarrow>
   length (txid_hash (vIn d)) = 32"
  by (induction ds arbitrary: b) (auto simp: sbind_eq_Inr add_input_def Let_def split: if_splits)

lemma prepare_txid_length:
  "prepare_signed c cur tn data amount addr m kp ca = Inr t \<Longrightarrow> d \<in> set data \<Longrightarrow>
   \<not> is_change_carrier d \<Longrightarrow> length (txid_hash (vIn d)) = 32"
  by (blast dest: prepare_signed_Inr add_inputs_txid_length)

text \<open>
  Replacing the amount of every real entry of \<open>data\<close> changes none of the values
  the body reads.
\<close>

lemma input_amount_irrelevant:
  fixes e :: "'k prep_env" and b :: "'k tx_builder" and a :: string
  defines "g \<equiv> \<lambda>d. if is_change_carrier d then d else d\<lparr>wr_amount := a\<rparr>"
  shows "add_inputs (map g ds) b = add_inputs ds b"
    and "change_carrier (map g ds) = change_carrier ds"
    and "sign_inputs e i (map g ds) b = sign_inputs e i ds b"
proof -
  have c: "is_change_carrier (g d) = is_change_carrier d" for d
    by (simp add: g_def is_change_carrier_def)
  have "wr_address (g d) = wr_address d" for d
    by (simp add: g_def)
  then have k: "input_key e (g d) = input_key e d" for d
    by (simp only: input_key_def)
  have v: "vIn (g d) = vIn d" "vInIndex (g d) = vInIndex d" for d
    by (simp_all add: g_def)
  have fx: "is_change_carrier d \<Longrightarrow> g d = d" for d
    by (simp add: g_def)
  have "add_inputs (map g ds) = (add_inputs ds :: 'k tx_builder \<Rightarrow> error + 'k tx_builder)" for ds
    by (induction ds) (auto intro!: ext simp: c v)
  then show "add_inputs (map g ds) b = add_inputs ds b" by simp
  show "change_carrier (map g ds) = change_carrier ds"
    by (induction ds) (auto simp: change_carrier_def c fx)
  have "sign_inputs e i (map g ds) = sign_inputs e i ds" for i ds
    by (induction ds arbitrary: i) (auto intro!: ext simp: c k)
  then show "sign_inputs e i (map g ds) b = sign_inputs e i ds b" by simp
qed

text \<open>
  C8: the body never reads the amount of a real input: only the change carrier's
  amount enters the transaction, so the fee it pays (inputs minus outputs) is
  whatever the ledger's inputs leave and is not checked against \<open>fee\<close>.
\<close>

theorem prepare_ignores_input_amounts:
  "prepare_signed c cur tn (map (\<lambda>d. if is_change_carrier d then d else d\<lparr>wr_amount := a\<rparr>) data)
     amount addr m kp ca =
   prepare_signed c cur tn data amount addr m kp ca"
  by (simp add: prepare_signed_def Let_def input_amount_irrelevant)

lemma prepare_sound_typed:
  "prepare_signed c cur tn data amount addr m kp ca = Inr t \<Longrightarrow> tx_sound t \<and> tx_typed t"
  by (blast dest: prepare_reach builder_reach_typed intro: build_typed builder_reach_sound)

text \<open>
  Bounds on the collaborators under which a prepared transaction fits the wire
  format: fewer than \<open>2 ^ 64\<close> entries in \<open>data\<close>, output scripts and scriptSigs
  shorter than \<open>2 ^ 64\<close> bytes.
\<close>

lemma prepare_wire_sized:
  assumes "prepare_signed (c :: 'k crypto) cur tn data amount addr m kp ca = Inr t"
    and "length data < 2 ^ 64"
    and "\<forall>net a s. to_output_script c net a = Some s \<longrightarrow> length s < 2 ^ 64"
    and "\<forall>i sg. length (script_sig c i sg) < 2 ^ 64"
  shows "wire_sized (script_sig c) t"
proof (rule prepare_pipeline [OF assms(1)])
  fix b3 b4 :: "'k tx_builder" and s1 v1 d s2 v2
  assume p: "tb_ins b3 = map outpoint_of (filter (\<lambda>d. \<not> is_change_carrier d) data)"
    "tb_outs b3 = [(s1, v1), (s2, v2)]"
    "to_output_script c (select_network cur tn) addr = Some s1"
    "to_output_script c (select_network cur tn)
       (if truthy_str m then address_from_xpub c cur tn (wallet_xpub c cur tn (the m)) 0 else the ca) = Some s2"
    "tb_ins b4 = tb_ins b3" "tb_outs b4 = tb_outs b3"
    "tx_ins t = zip (tb_ins b4) (map the (tb_sigs b4))" "tx_outs t = tb_outs b4"
  have "length (tx_ins t) \<le> length data"
    using p(1,5,7) length_filter_le [of _ data] by (simp add: min_le_iff_disj)
  moreover have "length s1 < 2 ^ 64" "length s2 < 2 ^ 64" using assms(3) p(3,4) by blast+
  ultimately show ?thesis using assms(2,4) p(2,6,8) by (auto simp: wire_sized_def)
qed

subsection \<open>The properties on the concrete instance\<close>

lemma demo_hash: "txid_hash ''0101010101010101010101010101010101010101010101010101010101010101'' = replicate 32 1"
  by (simp add: txid_hash_def hex_val_def) (simp add: numeral_eq_Suc)

lemma demo_sat: "satoshi_of (to_satoshi ''1.5'') = Some 150000000" "satoshi_of (to_satoshi ''0.5'') = Some 50000000"
proof -
  have p: "parse_decimal ''1.5'' = Some (False, ''1'', ''5'', 0)" "parse_decimal ''0.5'' = Some (False, ''0'', ''5'', 0)"
    by (simp_all add: parse_decimal_def is_dec_digit_def)
  show "satoshi_of (to_satoshi ''1.5'') = Some 150000000"
    using to_satoshi_decimal [OF p(1)] by (simp add: satoshi_of_def digits_val_def digit_val_def)
  show "satoshi_of (to_satoshi ''0.5'') = Some 50000000"
    using to_satoshi_decimal [OF p(2)] by (simp add: satoshi_of_def digits_val_def digit_val_def)
qed

lemma demo_prepare:
  "prepare_signed demo_crypto BTC False [demo_input, demo_carrier] ''1.5'' ''dest'' (Some ''m'') None None = Inr demo_tx"
  by (simp add: demo_tx_def add: prepare_signed_def demo_crypto_def demo_input_def demo_carrier_def is_change_carrier_def
      builder_simps demo_hash demo_sat change_output_def change_carrier_def carrier_amount_def
      input_key_def wif_key_def prep_env_of_def select_network_def list_all_iff)


lemma demo_prepare_hex:
  "prepare_hex demo_crypto BTC False [demo_input, demo_carrier] ''1.5'' ''dest'' (Some ''m'') None None = Inr demo_hex"
  by (simp add: prepare_hex_def demo_prepare demo_hex_def)

theorem prepare_outputs_witness:
  "prepare_signed demo_crypto BTC False [demo_input, demo_carrier] ''1.5'' ''dest'' (Some ''m'') None None = Inr demo_tx \<and>
   (\<exists>s1 v1 d s2 v2.
     to_output_script demo_crypto Bitcoin ''dest'' = Some s1 \<and> satoshi_of (to_satoshi ''1.5'') = Some v1 \<and>
     change_carrier [demo_input, demo_carrier] = Some d \<and> satoshi_of (to_satoshi (wr_amount d)) = Some v2 \<and>
     to_output_script demo_crypto Bitcoin
       (if truthy_str (Some ''m'') then address_from_xpub demo_crypto BTC False (wallet_xpub demo_crypto BTC False (the (Some ''m''))) 0
        else the None) = Some s2 \<and>
     tx_outs demo_tx = [(s1, v1), (s2, v2)])"
  using prepare_outputs [OF demo_prepare] demo_prepare by (simp add: select_network_def)

theorem prepare_change_carrier_last_witness:
  "prepare_signed demo_crypto BTC False [demo_input, demo_carrier] ''1.5'' ''dest'' (Some ''m'') None None = Inr demo_tx \<and>
   sep_after is_change_carrier [demo_input, demo_carrier]"
  using prepare_change_carrier_last [OF demo_prepare] demo_prepare by simp

theorem prepare_positional_witness:
  "prepare_signed demo_crypto BTC False [demo_input, demo_carrier] ''1.5'' ''dest'' (Some ''m'') None None = Inr demo_tx \<and>
   list_all2 (\<lambda>(op, k, _) d. op = outpoint_of d \<and> input_key (prep_env_of demo_crypto BTC False (Some ''m'') None) d = Inr (k, select_network BTC False))
     (tx_ins demo_tx) (filter (\<lambda>d. \<not> is_change_carrier d) [demo_input, demo_carrier])"
  using prepare_positional [OF demo_prepare] demo_prepare by simp

lemma demo_add_inputs:
  "add_inputs [demo_input] (new_builder (select_network BTC False)) =
   Inr \<lparr>tb_network = Bitcoin, tb_ins = [(replicate 32 1, 0)], tb_outs = [], tb_sigs = [None]\<rparr>"
  by (simp add: demo_input_def is_change_carrier_def builder_simps demo_hash select_network_def list_all_iff)

theorem prepare_missing_change_carrier_witness:
  "change_carrier [demo_input] = None \<and>
   (\<exists>b1 b2. add_inputs [demo_input] (new_builder (select_network BTC False)) = Inr b1 \<and>
      add_output (to_output_script demo_crypto) ''dest'' (to_satoshi ''1.5'') b1 = Inr b2) \<and>
   prepare_signed demo_crypto BTC False [demo_input] ''1.5'' ''dest'' (Some ''m'') None None =
     Inl (Undefined_access ''amount'')"
proof -
  have c: "change_carrier [demo_input] = None"
    by (simp add: change_carrier_def demo_input_def is_change_carrier_def)
  have o: "add_output (to_output_script demo_crypto) ''dest'' (to_satoshi ''1.5'')
      \<lparr>tb_network = Bitcoin, tb_ins = [(replicate 32 1, 0)], tb_outs = [], tb_sigs = [None]\<rparr> =
    Inr \<lparr>tb_network = Bitcoin, tb_ins = [(replicate 32 1, 0)],
         tb_outs = [(map (\<lambda>c. word_of_nat (of_char c)) ''dest'', 150000000)], tb_sigs = [None]\<rparr>"
    by (simp add: builder_simps demo_crypto_def demo_sat)
  show ?thesis
    using prepare_missing_change_carrier [OF c demo_add_inputs o] c demo_add_inputs o by auto
qed

theorem prepare_no_credentials_witness:
  "\<not> truthy_str None \<and> \<not> (truthy_arr (None :: key_pair list option) \<and> truthy_str None) \<and>
   (\<exists>b1 b2. add_inputs [demo_input] (new_builder (select_network BTC False)) = Inr b1 \<and>
      add_output (to_output_script demo_crypto) ''dest'' (to_satoshi ''1.5'') b1 = Inr b2) \<and>
   prepare_signed demo_crypto BTC False [demo_input] ''1.5'' ''dest'' None None None = Inl Impossible_to_prepare"
proof -
  have o: "add_output (to_output_script demo_crypto) ''dest'' (to_satoshi ''1.5'')
      \<lparr>tb_network = Bitcoin, tb_ins = [(replicate 32 1, 0)], tb_outs = [], tb_sigs = [None]\<rparr> =
    Inr \<lparr>tb_network = Bitcoin, tb_ins = [(replicate 32 1, 0)],
         tb_outs = [(map (\<lambda>c. word_of_nat (of_char c)) ''dest'', 150000000)], tb_sigs = [None]\<rparr>"
    by (simp add: builder_simps demo_crypto_def demo_sat)
  have n: "\<not> truthy_str None" "\<not> (truthy_arr (None :: key_pair list option) \<and> truthy_str None)" by simp_all
  show ?thesis
    using prepare_no_credentials [OF n demo_add_inputs o] demo_add_inputs o by auto
qed

theorem prepare_no_real_inputs_witness:
  "is_change_carrier demo_carrier \<and>
   (\<forall>t. prepare_signed demo_crypto BTC False [demo_carrier] ''1.5'' ''dest'' (Some ''m'') None None \<noteq> Inr t)"
proof -
  have a: "\<forall>d \<in> set [demo_carrier]. is_change_carrier d" by (simp add: demo_carrier_def is_change_carrier_def)
  have c: "is_change_carrier demo_carrier" by (simp add: demo_carrier_def is_change_carrier_def)
  show ?thesis using prepare_no_real_inputs [OF a] c by blast
qed

theorem prepare_mnemonic_precedence_witness:
  "truthy_str (Some ''m'') \<and>
   prepare_signed demo_crypto BTC False [demo_input, demo_carrier] ''1.5'' ''dest'' (Some ''m'')
     (Some [\<lparr>kp_address = ''a1'', kp_private = ''other''\<rparr>]) (Some ''elsewhere'') = Inr demo_tx"
  using prepare_mnemonic_precedence [of "Some ''m''" demo_crypto BTC False "[demo_input, demo_carrier]" "''1.5''" "''dest''"
      "Some [\<lparr>kp_address = ''a1'', kp_private = ''other''\<rparr>]" "Some ''elsewhere''"] demo_prepare
  by simp

theorem prepare_cross_mode_witness:
  "prepare_signed demo_crypto BTC False [demo_input, demo_carrier] ''1.5'' ''dest'' None
     (Some [\<lparr>kp_address = ''a1'', kp_private = ''keym+''\<rparr>]) (Some ''chg'') = Inr demo_tx"
proof -
  have k: "\<forall>d \<in> set [demo_input, demo_carrier]. \<not> is_change_carrier d \<longrightarrow>
       (\<exists>a p. wr_address d = Some a \<and> find (\<lambda>k. kp_address k = ra_address a) [\<lparr>kp_address = ''a1'', kp_private = ''keym+''\<rparr>] = Some p \<and>
              kp_private p = private_key_from_mnemonic demo_crypto BTC False ''m'' (ra_derivationKey a))"
    by (simp add: demo_input_def demo_carrier_def is_change_carrier_def demo_crypto_def)
  have ca: "''chg'' = address_from_xpub demo_crypto BTC False (wallet_xpub demo_crypto BTC False ''m'') 0"
    by (simp add: demo_crypto_def)
  show ?thesis using prepare_cross_mode [OF _ k ca] demo_prepare by simp
qed

theorem prepare_missing_key_witness:
  "demo_input \<in> set [demo_input, demo_carrier] \<and> \<not> is_change_carrier demo_input \<and>
   wr_address demo_input = Some \<lparr>ra_address = ''a1'', ra_derivationKey = 1\<rparr> \<and>
   (\<forall>t. prepare_signed demo_crypto BTC False [demo_input, demo_carrier] ''1.5'' ''dest'' None
      (Some [\<lparr>kp_address = ''a2'', kp_private = ''keym''\<rparr>]) (Some ''chg'') \<noteq> Inr t)"
proof -
  have m: "\<not> truthy_str (None :: string option)" by simp
  have d: "demo_input \<in> set [demo_input, demo_carrier]" "\<not> is_change_carrier demo_input"
    by (simp_all add: demo_input_def is_change_carrier_def)
  have ad: "wr_address demo_input = Some \<lparr>ra_address = ''a1'', ra_derivationKey = 1\<rparr>"
    by (simp add: demo_input_def)
  have none: "find (\<lambda>k. kp_address k = ra_address \<lparr>ra_address = ''a1'', ra_derivationKey = 1\<rparr>)
      [\<lparr>kp_address = ''a2'', kp_private = ''keym''\<rparr>] = None" by simp
  show ?thesis using prepare_missing_key [OF m d ad none] d ad by blast
qed

end
