(* ===== verification/Orchestrator.thy ===== *)
theory Orchestrator
  imports Offchain
begin

text \<open>
  The withdrawal orchestrator: \<open>sendBitcoinOffchainTransaction\<close>
  (\<open>src/src/offchain/bitcoin.ts\<close>, lines 15--42) and \<open>sendLitecoinOffchainTransaction\<close>
  (\<open>src/offchain/litecoin.ts\<close>, lines 9--36). It validates the request, defaults the
  fee, stores the withdrawal in the ledger, prepares the hex of the signed transaction and
  broadcasts it; when preparation or broadcast throws it cancels the stored
  withdrawal and rethrows. The calls to the ledger are recorded in a trace.
  Two models of the same body: \<open>send_offchain\<close>, a function returning the trace and
  the result, and \<open>orch_step\<close>, a transition relation between the phases of the
  body; the two are proved to agree. The services the body awaits
  (\<open>validateOrReject\<close>, \<open>offchainStoreWithdrawal\<close>, \<open>offchainCancelWithdrawal\<close>,
  \<open>offchainBroadcast\<close>) are the fields of a record \<open>services\<close>; \<open>console.error\<close>
  is not modelled.
\<close>

text \<open>\<open>TransferBtcBasedOffchain\<close>, as far as the body reads it.\<close>

record transfer_body =
  senderAccountId :: string
  bd_address :: address
  bd_amount :: string
  bd_fee :: "string option"
  bd_mnemonic :: "string option"
  bd_keyPair :: "key_pair list option"
  bd_attr :: "string option"

text \<open>\<open>...withdrawal\<close>: the body without \<open>mnemonic\<close>, \<open>keyPair\<close> and \<open>attr\<close>.\<close>

record withdrawal =
  wd_senderAccountId :: string
  wd_address :: address
  wd_amount :: string
  wd_fee :: "string option"

datatype ledger_call =
    Store withdrawal
  | Cancel string
  | Broadcast string string currency

record services =
  sv_validate :: "transfer_body \<Rightarrow> bool"
  sv_store :: "withdrawal \<Rightarrow> error + string \<times> withdrawal_response_data list"
  sv_cancel :: "string \<Rightarrow> error option"
  sv_broadcast :: "string \<Rightarrow> string \<Rightarrow> currency \<Rightarrow> error + string"

subsection \<open>The statements of the body\<close>

text \<open>\<open>const {mnemonic, keyPair, attr: changeAddress, ...withdrawal} = body\<close>\<close>

definition split_body ::
  "transfer_body \<Rightarrow> string option \<times> key_pair list option \<times> string option \<times> withdrawal"
where
  "split_body b =
     (bd_mnemonic b, bd_keyPair b, bd_attr b,
      \<lparr>wd_senderAccountId = senderAccountId b, wd_address = bd_address b,
       wd_amount = bd_amount b, wd_fee = bd_fee b\<rparr>)"

text \<open>\<open>if (!withdrawal.fee) { withdrawal.fee = '0.0005'; }\<close>\<close>

definition default_fee :: "withdrawal \<Rightarrow> withdrawal" where
  "default_fee w = (if truthy_str (wd_fee w) then w else w\<lparr>wd_fee := Some ''0.0005''\<rparr>)"

text \<open>The call of the preparation function, with the currency's signature.\<close>

definition prepare_for ::
  "'k crypto \<Rightarrow> currency \<Rightarrow> bool \<Rightarrow> string \<Rightarrow> withdrawal_response_data list \<Rightarrow> string \<Rightarrow> address \<Rightarrow>
   string option \<Rightarrow> key_pair list option \<Rightarrow> string option \<Rightarrow> error + string"
where
  "prepare_for c cur testnet wid data amount address mnemonic keyPair changeAddress =
     (case cur of
        BTC \<Rightarrow> prepareBitcoinSignedOffchainTransaction c testnet data amount address mnemonic keyPair changeAddress
      | LTC \<Rightarrow> prepareLitecoinSignedOffchainTransaction c testnet wid data amount address mnemonic keyPair changeAddress)"

text \<open>
  A \<open>catch\<close> block: \<open>await offchainCancelWithdrawal(id); throw e;\<close>. When the
  cancellation itself throws, its error propagates instead of \<open>e\<close>.
\<close>

definition cancel_and_rethrow ::
  "services \<Rightarrow> string \<Rightarrow> error \<Rightarrow> ledger_call list \<times> (error + string)"
where
  "cancel_and_rethrow sv wid e =
     ([Cancel wid], case sv_cancel sv wid of None \<Rightarrow> Inl e | Some e' \<Rightarrow> Inl e')"

definition send_offchain ::
  "'k crypto \<Rightarrow> services \<Rightarrow> currency \<Rightarrow> bool \<Rightarrow> transfer_body \<Rightarrow> ledger_call list \<times> (error + string)"
where
  "send_offchain c sv cur testnet body =
     (if \<not> sv_validate sv body then ([], Inl Validation_error)
      else case split_body body of (mnemonic, keyPair, changeAddress, w) \<Rightarrow>
        let withdrawal = default_fee w in
        case sv_store sv withdrawal of
          Inl e \<Rightarrow> ([Store withdrawal], Inl e)
        | Inr (wid, data) \<Rightarrow>
            (case prepare_for c cur testnet wid data (wd_amount withdrawal) (wd_address withdrawal)
                    mnemonic keyPair changeAddress of
               Inl e \<Rightarrow> (case cancel_and_rethrow sv wid e of (tr, r) \<Rightarrow> (Store withdrawal # tr, r))
             | Inr txData \<Rightarrow>
                 (case sv_broadcast sv txData wid cur of
                    Inr r \<Rightarrow> ([Store withdrawal, Broadcast txData wid cur], Inr r)
                  | Inl e \<Rightarrow> (case cancel_and_rethrow sv wid e of
                               (tr, r) \<Rightarrow> (Store withdrawal # Broadcast txData wid cur # tr, r)))))"

definition sendBitcoinOffchainTransaction ::
  "'k crypto \<Rightarrow> services \<Rightarrow> bool \<Rightarrow> transfer_body \<Rightarrow> ledger_call list \<times> (error + string)"
where
  "sendBitcoinOffchainTransaction c sv testnet body = send_offchain c sv BTC testnet body"

definition sendLitecoinOffchainTransaction ::
  "'k crypto \<Rightarrow> services \<Rightarrow> bool \<Rightarrow> transfer_body \<Rightarrow> ledger_call list \<times> (error + string)"
where
  "sendLitecoinOffchainTransaction c sv testnet body = send_offchain c sv LTC testnet body"

subsection \<open>The body as a transition relation\<close>

text \<open>
  The phases of the body: before validation, before the store call, before
  preparation (with the stored withdrawal id and inputs), before broadcast (with the hex
  of the signed transaction), in a \<open>catch\<close> block (with the error caught), and returned.
\<close>

datatype phase =
    Start transfer_body
  | Storing "string option" "key_pair list option" "string option" withdrawal
  | Preparing "string option" "key_pair list option" "string option" withdrawal string
      "withdrawal_response_data list"
  | Broadcasting string string
  | Cancelling string error
  | Done "error + string"

type_synonym orch_conf = "phase \<times> ledger_call list"

inductive orch_step ::
  "'k crypto \<Rightarrow> services \<Rightarrow> currency \<Rightarrow> bool \<Rightarrow> orch_conf \<Rightarrow> orch_conf \<Rightarrow> bool"
  for c sv cur testnet
where
  invalid: "\<not> sv_validate sv body \<Longrightarrow>
    orch_step c sv cur testnet (Start body, tr) (Done (Inl Validation_error), tr)"
| valid: "sv_validate sv body \<Longrightarrow> split_body body = (m, kp, ca, w) \<Longrightarrow>
    orch_step c sv cur testnet (Start body, tr) (Storing m kp ca (default_fee w), tr)"
| store_failed: "sv_store sv w = Inl e \<Longrightarrow>
    orch_step c sv cur testnet (Storing m kp ca w, tr) (Done (Inl e), tr @ [Store w])"
| stored: "sv_store sv w = Inr (wid, data) \<Longrightarrow>
    orch_step c sv cur testnet (Storing m kp ca w, tr) (Preparing m kp ca w wid data, tr @ [Store w])"
| prepare_failed: "prepare_for c cur testnet wid data (wd_amount w) (wd_address w) m kp ca = Inl e \<Longrightarrow>
    orch_step c sv cur testnet (Preparing m kp ca w wid data, tr) (Cancelling wid e, tr)"
| prepared: "prepare_for c cur testnet wid data (wd_amount w) (wd_address w) m kp ca = Inr t \<Longrightarrow>
    orch_step c sv cur testnet (Preparing m kp ca w wid data, tr) (Broadcasting wid t, tr)"
| broadcast: "sv_broadcast sv t wid cur = Inr r \<Longrightarrow>
    orch_step c sv cur testnet (Broadcasting wid t, tr) (Done (Inr r), tr @ [Broadcast t wid cur])"
| broadcast_failed: "sv_broadcast sv t wid cur = Inl e \<Longrightarrow>
    orch_step c sv cur testnet (Broadcasting wid t, tr) (Cancelling wid e, tr @ [Broadcast t wid cur])"
| cancelled: "sv_cancel sv wid = None \<Longrightarrow>
    orch_step c sv cur testnet (Cancelling wid e, tr) (Done (Inl e), tr @ [Cancel wid])"
| cancel_failed: "sv_cancel sv wid = Some e' \<Longrightarrow>
    orch_step c sv cur testnet (Cancelling wid e, tr) (Done (Inl e'), tr @ [Cancel wid])"

inductive_cases orch_step_DoneE [elim!]: "orch_step c sv cur testnet (Done r, tr) s"

abbreviation orch_steps ::
  "'k crypto \<Rightarrow> services \<Rightarrow> currency \<Rightarrow> bool \<Rightarrow> orch_conf \<Rightarrow> orch_conf \<Rightarrow> bool"
where
  "orch_steps c sv cur testnet \<equiv> (orch_step c sv cur testnet)\<^sup>*\<^sup>*"

subsection \<open>Legal traces\<close>

text \<open>The withdrawal id the ledger returns for a stored withdrawal.\<close>

definition stored_id :: "services \<Rightarrow> withdrawal \<Rightarrow> string option" where
  "stored_id sv w = (case sv_store sv w of Inr (wid, _) \<Rightarrow> Some wid | Inl _ \<Rightarrow> None)"

text \<open>
  The traces of ledger calls the body may have made at any point: nothing, the
  store call, then a broadcast and a cancellation of the stored withdrawal, at most
  one of each, in that order.
\<close>

fun legal_trace :: "services \<Rightarrow> currency \<Rightarrow> ledger_call list \<Rightarrow> bool" where
  "legal_trace sv cur [] = True"
| "legal_trace sv cur [Store w] = True"
| "legal_trace sv cur [Store w, Cancel x] = (stored_id sv w = Some x)"
| "legal_trace sv cur [Store w, Broadcast t x cur'] = (stored_id sv w = Some x \<and> cur' = cur)"
| "legal_trace sv cur [Store w, Broadcast t x cur', Cancel y] = (stored_id sv w = Some x \<and> cur' = cur \<and> y = x)"
| "legal_trace sv cur _ = False"

text \<open>The invariant of the configurations, phase by phase.\<close>

fun orch_inv :: "services \<Rightarrow> currency \<Rightarrow> orch_conf \<Rightarrow> bool" where
  "orch_inv sv cur (Start b, tr) = (tr = [])"
| "orch_inv sv cur (Storing m kp ca w, tr) = (tr = [])"
| "orch_inv sv cur (Preparing m kp ca w wid data, tr) = (tr = [Store w] \<and> sv_store sv w = Inr (wid, data))"
| "orch_inv sv cur (Broadcasting wid t, tr) = (\<exists>w. tr = [Store w] \<and> stored_id sv w = Some wid)"
| "orch_inv sv cur (Cancelling wid e, tr) =
     (\<exists>w. stored_id sv w = Some wid \<and> (tr = [Store w] \<or> (\<exists>t. tr = [Store w, Broadcast t wid cur])))"
| "orch_inv sv cur (Done r, tr) = legal_trace sv cur tr"

subsection \<open>A concrete instance\<close>

text \<open>
  Services on which the body evaluates: every request with an amount is valid, the
  ledger stores every withdrawal under the id \<open>w1\<close> with the inputs of the concrete
  instance of the preparation, cancels and broadcasts succeed.
\<close>

definition demo_services :: "services" where
  "demo_services =
     \<lparr>sv_validate = (\<lambda>b. bd_amount b \<noteq> []),
      sv_store = (\<lambda>w. Inr (''w1'', [demo_input, demo_carrier])),
      sv_cancel = (\<lambda>wid. None),
      sv_broadcast = (\<lambda>t wid cur. Inr ''txid1'')\<rparr>"

definition demo_body :: transfer_body where
  "demo_body =
     \<lparr>senderAccountId = ''acc'', bd_address = ''dest'', bd_amount = ''1.5'', bd_fee = None,
      bd_mnemonic = Some ''m'', bd_keyPair = None, bd_attr = None\<rparr>"

definition demo_withdrawal :: withdrawal where
  "demo_withdrawal =
     \<lparr>wd_senderAccountId = ''acc'', wd_address = ''dest'', wd_amount = ''1.5'', wd_fee = Some ''0.0005''\<rparr>"

subsection \<open>Lemmas\<close>

lemma stored_id_Inr [simp]: "sv_store sv w = Inr (wid, data) \<Longrightarrow> stored_id sv w = Some wid"
  by (simp add: stored_id_def)

lemma orch_step_det:
  "orch_step c sv cur tn s s1 \<Longrightarrow> orch_step c sv cur tn s s2 \<Longrightarrow> s1 = s2"
  by (induction rule: orch_step.induct) (auto elim: orch_step.cases)

lemma orch_step_inv:
  "orch_step c sv cur tn s s' \<Longrightarrow> orch_inv sv cur s \<Longrightarrow> orch_inv sv cur s'"
  by (induction rule: orch_step.induct)
     auto

lemma orch_inv_legal: "orch_inv sv cur (ph, tr) \<Longrightarrow> legal_trace sv cur tr"
  by (cases ph) auto

lemma orch_cancelling_steps:
  "orch_steps c sv cur tn (Cancelling wid e, tr)
     (Done (snd (cancel_and_rethrow sv wid e)), tr @ fst (cancel_and_rethrow sv wid e))"
  by (cases "sv_cancel sv wid")
     (auto simp: cancel_and_rethrow_def intro: r_into_rtranclp orch_step.cancelled orch_step.cancel_failed)

lemma orch_broadcasting_steps:
  "sv_broadcast sv t wid cur = Inr r \<Longrightarrow>
     orch_steps c sv cur tn (Broadcasting wid t, tr) (Done (Inr r), tr @ [Broadcast t wid cur])"
  "sv_broadcast sv t wid cur = Inl e \<Longrightarrow>
     orch_steps c sv cur tn (Broadcasting wid t, tr)
       (Done (snd (cancel_and_rethrow sv wid e)), tr @ Broadcast t wid cur # fst (cancel_and_rethrow sv wid e))"
   apply (rule r_into_rtranclp, erule orch_step.broadcast)
  using converse_rtranclp_into_rtranclp [where r = "orch_step c sv cur tn", OF orch_step.broadcast_failed orch_cancelling_steps]
  by simp

lemma send_offchain_steps:
  assumes res: "send_offchain c sv cur tn body = (tr, r)"
  shows "orch_steps c sv cur tn (Start body, []) (Done r, tr)"
proof -
  note cv = converse_rtranclp_into_rtranclp [where r = "orch_step c sv cur tn"]
  obtain m kp ca w where sb: "split_body body = (m, kp, ca, w)" by (cases "split_body body") auto
  show ?thesis
  proof (cases "sv_validate sv body")
    case False
    with res show ?thesis by (auto simp: send_offchain_def intro: r_into_rtranclp orch_step.invalid)
  next
    case True
    let ?w = "default_fee w"
    have s0: "orch_step c sv cur tn (Start body, []) (Storing m kp ca ?w, [])"
      using True sb by (rule orch_step.valid)
    show ?thesis
    proof (cases "sv_store sv ?w")
      case (Inl e)
      with res True sb have "tr = [Store ?w]" "r = Inl e" by (simp_all add: send_offchain_def)
      have "orch_step c sv cur tn (Storing m kp ca ?w, []) (Done (Inl e), [Store ?w])"
        using orch_step.store_failed [OF Inl, where tr = "[]" and c = c and cur = cur and testnet = tn
            and m = m and kp = kp and ca = ca] by simp
      with s0 \<open>tr = [Store ?w]\<close> \<open>r = Inl e\<close> show ?thesis
        by (blast intro: cv r_into_rtranclp)
    next
      case (Inr p)
      then obtain wid data where st: "sv_store sv ?w = Inr (wid, data)" by (cases p) auto
      have s1: "orch_step c sv cur tn (Storing m kp ca ?w, []) (Preparing m kp ca ?w wid data, [Store ?w])"
        using orch_step.stored [OF st, where tr = "[]" and c = c and cur = cur and testnet = tn
            and m = m and kp = kp and ca = ca] by simp
      note s01 = cv [OF s0 cv [OF s1]]
      show ?thesis
      proof (cases "prepare_for c cur tn wid data (wd_amount ?w) (wd_address ?w) m kp ca")
        case (Inl e)
        with res True sb st have "tr = Store ?w # fst (cancel_and_rethrow sv wid e)"
            "r = snd (cancel_and_rethrow sv wid e)"
          by (simp_all add: send_offchain_def split: prod.splits)
        with s01 [OF cv [OF orch_step.prepare_failed [OF Inl] orch_cancelling_steps]]
        show ?thesis by simp
      next
        case (Inr t)
        note s2 = s01 [OF cv [OF orch_step.prepared [OF Inr]]]
        show ?thesis
        proof (cases "sv_broadcast sv t wid cur")
          case (Inl e)
          with res True sb st Inr have "tr = Store ?w # Broadcast t wid cur # fst (cancel_and_rethrow sv wid e)"
              "r = snd (cancel_and_rethrow sv wid e)"
            by (simp_all add: send_offchain_def split: prod.splits)
          with s2 [OF orch_broadcasting_steps(2) [OF Inl]] show ?thesis by simp
        next
          case (Inr r')
          with res True sb st \<open>prepare_for c cur tn wid data (wd_amount ?w) (wd_address ?w) m kp ca = Inr t\<close>
          have "tr = [Store ?w, Broadcast t wid cur]" "r = Inr r'"
            by (simp_all add: send_offchain_def)
          with s2 [OF orch_broadcasting_steps(1) [OF Inr]] show ?thesis by simp
        qed
      qed
    qed
  qed
qed

lemma orch_reach_inv:
  "orch_steps c sv cur tn (Start body, []) s \<Longrightarrow> orch_inv sv cur s"
  by (induction rule: rtranclp_induct) (auto intro: orch_step_inv)

text \<open>The successful path, for the properties that compose the orchestrator with the preparation.\<close>

lemma send_offchain_Inr:
  "send_offchain c sv cur tn body = (tr, Inr r) \<Longrightarrow>
   \<exists>m kp ca w wid data h. split_body body = (m, kp, ca, w) \<and>
     sv_store sv (default_fee w) = Inr (wid, data) \<and>
     prepare_for c cur tn wid data (wd_amount (default_fee w)) (wd_address (default_fee w)) m kp ca = Inr h \<and>
     tr = [Store (default_fee w), Broadcast h wid cur]"
  by (auto simp: send_offchain_def cancel_and_rethrow_def Let_def
      split: if_splits prod.splits sum.splits option.splits)

lemma split_body_request:
  "split_body body = (m, kp, ca, w) \<Longrightarrow>
   wd_amount (default_fee w) = bd_amount body \<and> wd_address (default_fee w) = bd_address body \<and>
   m = bd_mnemonic body \<and> kp = bd_keyPair body \<and> ca = bd_attr body"
  by (auto simp: split_body_def default_fee_def)

lemma prepare_for_Inr:
  "prepare_for c cur tn wid data amount addr m kp ca = Inr h \<Longrightarrow>
   \<exists>t. prepare_signed c cur tn data amount addr m kp ca = Inr t \<and> h = tx_to_hex (script_sig c) t"
  by (cases cur) (auto simp: prepare_for_def prepareBitcoinSignedOffchainTransaction_def
      prepareLitecoinSignedOffchainTransaction_def prepare_hex_def sbind_eq_Inr)

subsection \<open>Properties of the orchestrator\<close>

text \<open>
  The function and the transition relation agree: the body, started on a
  request, returns the result \<open>r\<close> after the ledger calls \<open>tr\<close> exactly when
  \<open>send_offchain\<close> gives \<open>(tr, r)\<close>.
\<close>

theorem send_offchain_refines:
  "orch_steps c sv cur tn (Start body, []) (Done r, tr) \<longleftrightarrow> send_offchain c sv cur tn body = (tr, r)"
proof
  assume a: "orch_steps c sv cur tn (Start body, []) (Done r, tr)"
  obtain tr0 r0 where e: "send_offchain c sv cur tn body = (tr0, r0)" by (cases "send_offchain c sv cur tn body")
  have fin: "\<not> orch_step c sv cur tn (Done x, y) s" for x y s by blast
  have "(Done r, tr) = (Done r0, tr0)"
    using rtranclp_det_final [where R = "orch_step c sv cur tn", OF _ a send_offchain_steps [OF e] fin fin]
      orch_step_det by blast
  with e show "send_offchain c sv cur tn body = (tr, r)" by simp
next
  assume "send_offchain c sv cur tn body = (tr, r)"
  then show "orch_steps c sv cur tn (Start body, []) (Done r, tr)" by (rule send_offchain_steps)
qed

text \<open>
  C2: at every point of the body the ledger calls made so far are a legal trace:
  the store call first, then at most one broadcast and at most one cancellation,
  both with the id the ledger returned for the stored withdrawal.
\<close>

theorem orch_reach_legal:
  "orch_steps c sv cur tn (Start body, []) (ph, tr) \<Longrightarrow> legal_trace sv cur tr"
  by (rule orch_inv_legal, erule orch_reach_inv)

text \<open>C15: an invalid request is rejected before any ledger call.\<close>

theorem send_validation_error:
  "\<not> sv_validate sv body \<Longrightarrow> send_offchain c sv cur tn body = ([], Inl Validation_error)"
  by (simp add: send_offchain_def)

text \<open>C16: when the store call throws, its error propagates and nothing is cancelled.\<close>

theorem send_store_error:
  "sv_validate sv body \<Longrightarrow> split_body body = (m, kp, ca, w) \<Longrightarrow> sv_store sv (default_fee w) = Inl e \<Longrightarrow>
   send_offchain c sv cur tn body = ([Store (default_fee w)], Inl e)"
  by (simp add: send_offchain_def)

text \<open>
  C3: when preparation throws, the stored withdrawal is cancelled once, with its
  id, and the original error propagates, if the cancellation succeeds.
\<close>

theorem send_prepare_error_compensates:
  "sv_validate sv body \<Longrightarrow> split_body body = (m, kp, ca, w) \<Longrightarrow>
   sv_store sv (default_fee w) = Inr (wid, data) \<Longrightarrow>
   prepare_for c cur tn wid data (wd_amount (default_fee w)) (wd_address (default_fee w)) m kp ca = Inl e \<Longrightarrow>
   sv_cancel sv wid = None \<Longrightarrow>
   send_offchain c sv cur tn body = ([Store (default_fee w), Cancel wid], Inl e)"
  by (simp add: send_offchain_def cancel_and_rethrow_def)

text \<open>
  C9: when broadcasting throws, the stored withdrawal is cancelled once, with its
  id, after the broadcast call, and the original error propagates, if the
  cancellation succeeds.
\<close>

theorem send_broadcast_error_compensates:
  "sv_validate sv body \<Longrightarrow> split_body body = (m, kp, ca, w) \<Longrightarrow>
   sv_store sv (default_fee w) = Inr (wid, data) \<Longrightarrow>
   prepare_for c cur tn wid data (wd_amount (default_fee w)) (wd_address (default_fee w)) m kp ca = Inr t \<Longrightarrow>
   sv_broadcast sv t wid cur = Inl e \<Longrightarrow> sv_cancel sv wid = None \<Longrightarrow>
   send_offchain c sv cur tn body = ([Store (default_fee w), Broadcast t wid cur, Cancel wid], Inl e)"
  by (simp add: send_offchain_def cancel_and_rethrow_def)

text \<open>
  C10: when the cancellation in a \<open>catch\<close> block throws, its error replaces the error
  that was caught: the caller does not observe the original error.
\<close>

theorem send_cancel_error_replaces:
  "sv_validate sv body \<Longrightarrow> split_body body = (m, kp, ca, w) \<Longrightarrow>
   sv_store sv (default_fee w) = Inr (wid, data) \<Longrightarrow>
   prepare_for c cur tn wid data (wd_amount (default_fee w)) (wd_address (default_fee w)) m kp ca = Inl e \<Longrightarrow>
   sv_cancel sv wid = Some e' \<Longrightarrow>
   send_offchain c sv cur tn body = ([Store (default_fee w), Cancel wid], Inl e')"
  by (simp add: send_offchain_def cancel_and_rethrow_def)

text \<open>
  C11: a successful send stored the withdrawal, prepared the transaction from the
  inputs the ledger returned, broadcast exactly that transaction with the stored
  id, returned the broadcast result, and cancelled nothing.
\<close>

theorem send_success:
  "send_offchain c sv cur tn body = (tr, Inr r) \<Longrightarrow>
   \<exists>m kp ca w wid data t. split_body body = (m, kp, ca, w) \<and> sv_validate sv body \<and>
     sv_store sv (default_fee w) = Inr (wid, data) \<and>
     prepare_for c cur tn wid data (wd_amount (default_fee w)) (wd_address (default_fee w)) m kp ca = Inr t \<and>
     sv_broadcast sv t wid cur = Inr r \<and> tr = [Store (default_fee w), Broadcast t wid cur]"
  by (auto simp: send_offchain_def cancel_and_rethrow_def Let_def
      split: if_splits prod.splits sum.splits option.splits)

text \<open>
  C17: the withdrawal sent to the ledger is the request without its credentials,
  with the fee \<open>0.0005\<close> when the request's fee is missing or empty.
\<close>

theorem send_stored_withdrawal:
  "Store w \<in> set (fst (send_offchain c sv cur tn body)) \<Longrightarrow>
   w = \<lparr>wd_senderAccountId = senderAccountId body, wd_address = bd_address body,
        wd_amount = bd_amount body,
        wd_fee = (if truthy_str (bd_fee body) then bd_fee body else Some ''0.0005'')\<rparr>"
  by (auto simp: send_offchain_def cancel_and_rethrow_def split_body_def default_fee_def Let_def
      split: if_splits prod.splits sum.splits option.splits)

subsection \<open>The properties on the concrete instance\<close>

lemma demo_split:
  "split_body demo_body = (Some ''m'', None, None,
     \<lparr>wd_senderAccountId = ''acc'', wd_address = ''dest'', wd_amount = ''1.5'', wd_fee = None\<rparr>)"
  "default_fee \<lparr>wd_senderAccountId = ''acc'', wd_address = ''dest'', wd_amount = ''1.5'', wd_fee = None\<rparr> =
     demo_withdrawal"
  by (simp_all add: split_body_def demo_body_def default_fee_def demo_withdrawal_def)

lemma demo_prepare_for:
  "prepare_for demo_crypto BTC False ''w1'' [demo_input, demo_carrier] ''1.5'' ''dest'' (Some ''m'') None None =
   Inr demo_hex"
  by (simp add: prepare_for_def prepareBitcoinSignedOffchainTransaction_def demo_prepare_hex)

lemma demo_prepare_no_credentials:
  "prepare_for demo_crypto BTC False ''w1'' [demo_input, demo_carrier] ''1.5'' ''dest'' None None None =
   Inl Impossible_to_prepare"
  by (simp add: prepare_for_def prepareBitcoinSignedOffchainTransaction_def prepare_hex_def prepare_signed_def
      demo_crypto_def demo_input_def demo_carrier_def is_change_carrier_def builder_simps demo_hash demo_sat
      change_output_def select_network_def list_all_iff)

lemma demo_send:
  "send_offchain demo_crypto demo_services BTC False demo_body =
   ([Store demo_withdrawal, Broadcast demo_hex ''w1'' BTC], Inr ''txid1'')"
  by (simp add: send_offchain_def demo_split demo_services_def demo_prepare_for)
     (simp add: demo_body_def demo_withdrawal_def demo_prepare_for)

theorem orch_reach_legal_witness:
  "orch_steps demo_crypto demo_services BTC False (Start demo_body, [])
     (Done (Inr ''txid1''), [Store demo_withdrawal, Broadcast demo_hex ''w1'' BTC]) \<and>
   legal_trace demo_services BTC [Store demo_withdrawal, Broadcast demo_hex ''w1'' BTC]"
  using orch_reach_legal [OF send_offchain_steps [OF demo_send]] send_offchain_steps [OF demo_send] by simp

theorem send_validation_error_witness:
  "\<not> sv_validate demo_services (demo_body\<lparr>bd_amount := []\<rparr>) \<and>
   send_offchain demo_crypto demo_services BTC False (demo_body\<lparr>bd_amount := []\<rparr>) = ([], Inl Validation_error)"
proof -
  have v: "\<not> sv_validate demo_services (demo_body\<lparr>bd_amount := []\<rparr>)" by (simp add: demo_services_def)
  show ?thesis using send_validation_error [OF v] v by simp
qed

theorem send_store_error_witness:
  "sv_validate (demo_services\<lparr>sv_store := \<lambda>w. Inl (Service_error ''down'')\<rparr>) demo_body \<and>
   send_offchain demo_crypto (demo_services\<lparr>sv_store := \<lambda>w. Inl (Service_error ''down'')\<rparr>) BTC False demo_body =
     ([Store demo_withdrawal], Inl (Service_error ''down''))"
proof -
  have v: "sv_validate (demo_services\<lparr>sv_store := \<lambda>w. Inl (Service_error ''down'')\<rparr>) demo_body"
    by (simp add: demo_services_def demo_body_def)
  have st: "sv_store (demo_services\<lparr>sv_store := \<lambda>w. Inl (Service_error ''down'')\<rparr>) (default_fee \<lparr>wd_senderAccountId = ''acc'', wd_address = ''dest'', wd_amount = ''1.5'', wd_fee = None\<rparr>) =
      Inl (Service_error ''down'')" by simp
  show ?thesis using send_store_error [OF v demo_split(1) st] v by (simp add: demo_split(2))
qed

theorem send_prepare_error_compensates_witness:
  "send_offchain demo_crypto demo_services BTC False (demo_body\<lparr>bd_mnemonic := None\<rparr>) =
     ([Store demo_withdrawal, Cancel ''w1''], Inl Impossible_to_prepare)"
proof -
  have v: "sv_validate demo_services (demo_body\<lparr>bd_mnemonic := None\<rparr>)" by (simp add: demo_services_def demo_body_def)
  have sb: "split_body (demo_body\<lparr>bd_mnemonic := None\<rparr>) = (None, None, None, \<lparr>wd_senderAccountId = ''acc'', wd_address = ''dest'', wd_amount = ''1.5'', wd_fee = None\<rparr>)"
    by (simp add: split_body_def demo_body_def)
  have st: "sv_store demo_services (default_fee \<lparr>wd_senderAccountId = ''acc'', wd_address = ''dest'', wd_amount = ''1.5'', wd_fee = None\<rparr>) = Inr (''w1'', [demo_input, demo_carrier])"
    by (simp add: demo_services_def)
  have p: "prepare_for demo_crypto BTC False ''w1'' [demo_input, demo_carrier]
      (wd_amount (default_fee \<lparr>wd_senderAccountId = ''acc'', wd_address = ''dest'', wd_amount = ''1.5'', wd_fee = None\<rparr>)) (wd_address (default_fee \<lparr>wd_senderAccountId = ''acc'', wd_address = ''dest'', wd_amount = ''1.5'', wd_fee = None\<rparr>)) None None None = Inl Impossible_to_prepare"
    by (simp add: demo_split(2) demo_withdrawal_def demo_prepare_no_credentials)
  have cn: "sv_cancel demo_services ''w1'' = None" by (simp add: demo_services_def)
  show ?thesis using send_prepare_error_compensates [OF v sb st p cn] by (simp add: demo_split(2))
qed

theorem send_broadcast_error_compensates_witness:
  "send_offchain demo_crypto (demo_services\<lparr>sv_broadcast := \<lambda>t wid cur. Inl (Service_error ''rejected'')\<rparr>) BTC False demo_body =
     ([Store demo_withdrawal, Broadcast demo_hex ''w1'' BTC, Cancel ''w1''], Inl (Service_error ''rejected''))"
proof -
  let ?sv = "demo_services\<lparr>sv_broadcast := \<lambda>t wid cur. Inl (Service_error ''rejected'')\<rparr>"
  have v: "sv_validate ?sv demo_body" by (simp add: demo_services_def demo_body_def)
  have st: "sv_store ?sv (default_fee \<lparr>wd_senderAccountId = ''acc'', wd_address = ''dest'', wd_amount = ''1.5'', wd_fee = None\<rparr>) = Inr (''w1'', [demo_input, demo_carrier])"
    by (simp add: demo_services_def)
  have p: "prepare_for demo_crypto BTC False ''w1'' [demo_input, demo_carrier]
      (wd_amount (default_fee \<lparr>wd_senderAccountId = ''acc'', wd_address = ''dest'', wd_amount = ''1.5'', wd_fee = None\<rparr>)) (wd_address (default_fee \<lparr>wd_senderAccountId = ''acc'', wd_address = ''dest'', wd_amount = ''1.5'', wd_fee = None\<rparr>)) (Some ''m'') None None = Inr demo_hex"
    by (simp add: demo_split(2) demo_withdrawal_def demo_prepare_for)
  have b: "sv_broadcast ?sv demo_hex ''w1'' BTC = Inl (Service_error ''rejected'')" by simp
  have cn: "sv_cancel ?sv ''w1'' = None" by (simp add: demo_services_def)
  show ?thesis using send_broadcast_error_compensates [OF v demo_split(1) st p b cn] by (simp add: demo_split(2))
qed

theorem send_cancel_error_replaces_witness:
  "send_offchain demo_crypto (demo_services\<lparr>sv_cancel := \<lambda>wid. Some (Service_error ''cancel'')\<rparr>) BTC False
     (demo_body\<lparr>bd_mnemonic := None\<rparr>) =
     ([Store demo_withdrawal, Cancel ''w1''], Inl (Service_error ''cancel''))"
proof -
  let ?sv = "demo_services\<lparr>sv_cancel := \<lambda>wid. Some (Service_error ''cancel'')\<rparr>"
  have v: "sv_validate ?sv (demo_body\<lparr>bd_mnemonic := None\<rparr>)" by (simp add: demo_services_def demo_body_def)
  have sb: "split_body (demo_body\<lparr>bd_mnemonic := None\<rparr>) = (None, None, None, \<lparr>wd_senderAccountId = ''acc'', wd_address = ''dest'', wd_amount = ''1.5'', wd_fee = None\<rparr>)"
    by (simp add: split_body_def demo_body_def)
  have st: "sv_store ?sv (default_fee \<lparr>wd_senderAccountId = ''acc'', wd_address = ''dest'', wd_amount = ''1.5'', wd_fee = None\<rparr>) = Inr (''w1'', [demo_input, demo_carrier])"
    by (simp add: demo_services_def)
  have p: "prepare_for demo_crypto BTC False ''w1'' [demo_input, demo_carrier]
      (wd_amount (default_fee \<lparr>wd_senderAccountId = ''acc'', wd_address = ''dest'', wd_amount = ''1.5'', wd_fee = None\<rparr>)) (wd_address (default_fee \<lparr>wd_senderAccountId = ''acc'', wd_address = ''dest'', wd_amount = ''1.5'', wd_fee = None\<rparr>)) None None None = Inl Impossible_to_prepare"
    by (simp add: demo_split(2) demo_withdrawal_def demo_prepare_no_credentials)
  have cn: "sv_cancel ?sv ''w1'' = Some (Service_error ''cancel'')" by simp
  show ?thesis using send_cancel_error_replaces [OF v sb st p cn] by (simp add: demo_split(2))
qed

theorem send_success_witness:
  "send_offchain demo_crypto demo_services BTC False demo_body =
     ([Store demo_withdrawal, Broadcast demo_hex ''w1'' BTC], Inr ''txid1'') \<and>
   (\<exists>m kp ca w wid data t. split_body demo_body = (m, kp, ca, w) \<and> sv_validate demo_services demo_body \<and>
     sv_store demo_services (default_fee w) = Inr (wid, data) \<and>
     prepare_for demo_crypto BTC False wid data (wd_amount (default_fee w)) (wd_address (default_fee w)) m kp ca = Inr t \<and>
     sv_broadcast demo_services t wid BTC = Inr ''txid1'' \<and>
     [Store demo_withdrawal, Broadcast demo_hex ''w1'' BTC] = [Store (default_fee w), Broadcast t wid BTC])"
  using send_success [OF demo_send] demo_send by blast

theorem send_stored_withdrawal_witness:
  "Store demo_withdrawal \<in> set (fst (send_offchain demo_crypto demo_services BTC False demo_body)) \<and>
   demo_withdrawal = \<lparr>wd_senderAccountId = ''acc'', wd_address = ''dest'', wd_amount = ''1.5'', wd_fee = Some ''0.0005''\<rparr>"
proof -
  have s: "Store demo_withdrawal \<in> set (fst (send_offchain demo_crypto demo_services BTC False demo_body))"
    by (simp add: demo_send)
  show ?thesis using send_stored_withdrawal [OF s] s by (simp add: demo_body_def)
qed

end
