(* ===== verification/AmountOrder.thy ===== *)
theory AmountOrder
  imports Complex_Main Amount
begin

text \<open>
  The order of the amount codec (\<open>Amount\<close>). JavaScript's \<open><=\<close> on numbers is
  \<open>js_le\<close>: \<open>NaN\<close> is comparable with nothing, \<open>-Infinity\<close> and \<open>Infinity\<close> are the
  least and greatest values, and two finite doubles \<open>m * 2 ^ e\<close> are compared exactly
  at their common exponent. The lemmas show, stage by stage, that the codec preserves
  the order of non-negative amounts: round-half-even division is monotone and stays
  between the bounds of its quotient (\<open>round_half_even_mono\<close>,
  \<open>round_half_even_bounds\<close>); \<open>floor_log2\<close> is the binary exponent of the quotient and
  grows with it (\<open>floor_log2_bounds\<close>, \<open>floor_log2_mono\<close>); the significand lies in
  \<open>[2 ^ 52, 2 ^ 53]\<close> (\<open>double_bits_bounds\<close>), so \<open>Number()\<close> is monotone across
  exponents and up to \<open>Infinity\<close> (\<open>double_of_fixed8_mono\<close>); the floor of \<open>toFixed\<close>
  and the exponent range check of bignumber.js are monotone (\<open>floor_div_mono\<close>,
  \<open>lead_exp_mono\<close>, \<open>to_fixed8_norm_mono\<close>).
\<close>

fun js_le :: "js_num \<Rightarrow> js_num \<Rightarrow> bool" where
  "js_le JNaN y = False"
| "js_le x JNaN = False"
| "js_le (JInf s) y = (s \<or> y = JInf False)"
| "js_le x (JInf s) = (\<not> s)"
| "js_le (JFin m e) (JFin m' e') =
     (let e0 = min e e' in m * 2 ^ nat (e - e0) \<le> m' * 2 ^ nat (e' - e0))"

lemma round_half_even_mono:
  assumes den: "0 < den" and le: "num \<le> num'"
  shows "round_half_even num den \<le> round_half_even num' den"
proof -
  define q where "q = num div den"
  define q' where "q' = num' div den"
  have qq: "q \<le> q'" unfolding q_def q'_def using le by (rule div_le_mono)
  have lo: "q \<le> round_half_even num den" "round_half_even num den \<le> Suc q"
    "q' \<le> round_half_even num' den" "round_half_even num' den \<le> Suc q'"
    by (simp_all add: round_half_even_def Let_def q_def q'_def)
  show ?thesis
  proof (cases "q < q'")
    case True
    with lo show ?thesis by linarith
  next
    case False
    with qq have eq: "q' = q" by simp
    have "num mod den \<le> num' mod den"
    proof -
      have "num = q * den + num mod den" by (simp add: q_def)
      moreover have "num' = q * den + num' mod den" by (simp add: eq [symmetric] q'_def)
      ultimately show ?thesis using le by linarith
    qed
    then show ?thesis using eq
      by (auto simp: round_half_even_def Let_def q_def q'_def)
  qed
qed

lemma round_half_even_bounds:
  assumes "0 < den" "lo * den \<le> num" "num \<le> hi * den"
  shows "lo \<le> round_half_even num den \<and> round_half_even num den \<le> hi"
  using round_half_even_mono [OF assms(1) assms(2)] round_half_even_mono [OF assms(1) assms(3)]
    round_half_even_exact [OF assms(1)] by simp

lemma pow2_le_real:
  assumes "0 < d"
  shows "pow2_le a d l \<longleftrightarrow> real d * 2 powr (real_of_int l) \<le> real a"
proof (cases "0 \<le> l")
  case True
  then have "2 powr (real_of_int l) = 2 ^ nat l" by (simp add: powr_realpow [symmetric])
  moreover have "d * 2 ^ nat l \<le> a \<longleftrightarrow> real (d * 2 ^ nat l) \<le> real a" by (simp only: of_nat_le_iff)
  ultimately show ?thesis using True by (simp add: pow2_le_def)
next
  case False
  then have p: "2 powr (real_of_int l) = inverse (2 ^ nat (- l))"
    by (simp add: powr_minus [symmetric] powr_realpow [symmetric])
  have "real d \<le> real a * 2 ^ nat (- l) \<longleftrightarrow> real d * inverse (2 ^ nat (- l)) \<le> real a"
    by (simp add: field_simps)
  moreover have "d \<le> a * 2 ^ nat (- l) \<longleftrightarrow> real d \<le> real (a * 2 ^ nat (- l))" by (simp only: of_nat_le_iff)
  ultimately show ?thesis using False p by (simp add: pow2_le_def)
qed

lemma floor_log2_bounds:
  assumes a: "0 < a" and d: "0 < d"
  shows "real d * 2 powr real_of_int (floor_log2 a d) \<le> real a"
    and "real a < real d * 2 powr real_of_int (floor_log2 a d + 1)"
proof -
  show "real d * 2 powr real_of_int (floor_log2 a d) \<le> real a"
    using pow2_le_floor_log2 [OF a d] pow2_le_real [OF d] by blast
  define A where "A = bitlen a"
  define D where "D = bitlen d"
  define l where "l = int A - int D"
  have ha: "a < 2 ^ A" and hd: "2 ^ (D - 1) \<le> d" and D0: "0 < D"
    using bitlen_bounds [OF a] bitlen_bounds [OF d] d by (simp_all add: A_def D_def bitlen.simps)
  have "real a < 2 powr real A" using ha by (simp add: powr_realpow flip: of_nat_less_iff)
  also have "2 powr real A = 2 powr real (D - 1) * 2 powr real_of_int (l + 1)"
    using D0 by (simp add: l_def of_nat_diff flip: powr_add)
  also have "\<dots> \<le> real d * 2 powr real_of_int (l + 1)"
    using hd by (intro mult_right_mono) (simp_all add: powr_realpow flip: of_nat_le_iff)
  finally have up: "real a < real d * 2 powr real_of_int (l + 1)" .
  show "real a < real d * 2 powr real_of_int (floor_log2 a d + 1)"
  proof (cases "pow2_le a d l")
    case True
    then have "floor_log2 a d = l" by (simp add: floor_log2_def l_def A_def D_def)
    with up show ?thesis by simp
  next
    case False
    then have "floor_log2 a d = l - 1" by (simp add: floor_log2_def l_def A_def D_def)
    with False pow2_le_real [OF d] show ?thesis by simp
  qed
qed

lemma floor_log2_mono:
  assumes a: "0 < a" and ab: "a \<le> b" and d: "0 < d"
  shows "floor_log2 a d \<le> floor_log2 b d"
proof (rule ccontr)
  assume "\<not> floor_log2 a d \<le> floor_log2 b d"
  then have "real_of_int (floor_log2 b d + 1) \<le> real_of_int (floor_log2 a d)" by simp
  then have "real d * 2 powr real_of_int (floor_log2 b d + 1) \<le> real d * 2 powr real_of_int (floor_log2 a d)"
    by (intro mult_left_mono powr_mono) simp_all
  moreover have "0 < b" using a ab by simp
  ultimately show False
    using floor_log2_bounds [OF a d] floor_log2_bounds [OF \<open>0 < b\<close> d] ab by (simp add: flip: of_nat_le_iff)
qed

lemma pow2_shift:
  "2 powr real_of_int t * 2 ^ nat (52 - t) = (2::real) ^ 52 * 2 ^ nat (t - 52)"
proof -
  have "real_of_int t + real (nat (52 - t)) = 52 + real (nat (t - 52))" by linarith
  then have "2 powr (real_of_int t + real (nat (52 - t))) = (2::real) powr (52 + real (nat (t - 52)))"
    by (simp only:)
  then show ?thesis by (simp add: powr_add powr_realpow)
qed

lemma double_bits_bounds:
  assumes a: "0 < a"
  shows "2 ^ 52 \<le> double_bits a (floor_log2 a (10 ^ 8)) \<and> double_bits a (floor_log2 a (10 ^ 8)) \<le> 2 ^ 53"
proof -
  define t where "t = floor_log2 a (10 ^ 8)"
  define num where "num = a * 2 ^ nat (52 - t)"
  define den where "den = (10::nat) ^ 8 * 2 ^ nat (t - 52)"
  have d: "(0::nat) < 10 ^ 8" by simp
  note b = floor_log2_bounds [OF a d, folded t_def]
  have "real (2 ^ 52 * den) = 10 ^ 8 * (2 powr real_of_int t * 2 ^ nat (52 - t))"
    by (simp add: den_def pow2_shift)
  also have "\<dots> \<le> real a * 2 ^ nat (52 - t)"
    using b(1) by (simp add: mult.assoc [symmetric])
  also have "\<dots> = real num" by (simp add: num_def)
  finally have lo: "2 ^ 52 * den \<le> num" by (simp only: of_nat_le_iff)
  have "real num = real a * 2 ^ nat (52 - t)" by (simp add: num_def)
  also have "\<dots> < 10 ^ 8 * 2 powr real_of_int (t + 1) * 2 ^ nat (52 - t)"
    using b(2) by (intro mult_strict_right_mono) simp_all
  also have "\<dots> = 2 * (10 ^ 8 * (2 powr real_of_int t * 2 ^ nat (52 - t)))"
    by (simp add: powr_add)
  also have "\<dots> = real (2 ^ 53 * den)" by (simp add: den_def pow2_shift)
  finally have hi: "num \<le> 2 ^ 53 * den" by (simp only: of_nat_less_iff less_imp_le)
  have "0 < den" by (simp add: den_def)
  from round_half_even_bounds [OF this, of "2 ^ 52" num "2 ^ 53"] lo hi
  show ?thesis by (simp add: double_bits_def t_def num_def den_def ac_simps)
qed

lemma double_bits_mono: "a \<le> b \<Longrightarrow> double_bits a t \<le> double_bits b t"
  by (simp add: double_bits_def round_half_even_mono)

lemma js_le_JFin: "e \<le> e' \<Longrightarrow> js_le (JFin m e) (JFin m' e') \<longleftrightarrow> m \<le> m' * 2 ^ nat (e' - e)"
  by (simp add: min_def)

lemma js_le_JInf_False [simp]: "x \<noteq> JNaN \<Longrightarrow> js_le x (JInf False)"
  by (cases x) simp_all

lemma double_of_fixed8_pos:
  assumes "0 < m"
  shows "double_of_fixed8 m =
    (let a = nat m; t = floor_log2 a (10 ^ 8); r = double_bits a t in
     if 1024 \<le> t + (if r = 2 ^ 53 then 1 else 0) then JInf False else JFin (int r) (t - 52))"
  using assms by (simp add: double_of_fixed8_def Let_def)

lemma double_of_fixed8_not_NaN: "double_of_fixed8 m \<noteq> JNaN"
  by (simp add: double_of_fixed8_def Let_def)

lemma double_of_fixed8_zero_le: "0 \<le> m \<Longrightarrow> js_le (JFin 0 0) (double_of_fixed8 m)"
  by (cases "m = 0") (auto simp: double_of_fixed8_def Let_def min_def sgn_if)

lemma double_of_fixed8_mono_pos:
  assumes a0: "0 < a" and ab: "a \<le> b"
  shows "js_le (double_of_fixed8 (int a)) (double_of_fixed8 (int b))"
proof -
  define ta where "ta = floor_log2 a (10 ^ 8)"
  define tb where "tb = floor_log2 b (10 ^ 8)"
  define ra where "ra = double_bits a ta"
  define rb where "rb = double_bits b tb"
  have b0: "0 < b" using a0 ab by simp
  have t: "ta \<le> tb" unfolding ta_def tb_def by (rule floor_log2_mono [OF a0 ab]) simp
  have ba: "2 ^ 52 \<le> ra" "ra \<le> 2 ^ 53" using double_bits_bounds [OF a0] by (simp_all add: ra_def ta_def)
  have bb: "2 ^ 52 \<le> rb" "rb \<le> 2 ^ 53" using double_bits_bounds [OF b0] by (simp_all add: rb_def tb_def)
  have da: "double_of_fixed8 (int a) =
      (if 1024 \<le> ta + (if ra = 2 ^ 53 then 1 else 0) then JInf False else JFin (int ra) (ta - 52))"
    using a0 by (simp add: double_of_fixed8_pos ta_def ra_def Let_def)
  have db: "double_of_fixed8 (int b) =
      (if 1024 \<le> tb + (if rb = 2 ^ 53 then 1 else 0) then JInf False else JFin (int rb) (tb - 52))"
    using b0 by (simp add: double_of_fixed8_pos tb_def rb_def Let_def)
  show ?thesis
  proof (cases "1024 \<le> tb + (if rb = 2 ^ 53 then 1 else 0)")
    case True
    then show ?thesis by (simp add: db double_of_fixed8_not_NaN)
  next
    case fb: False
    show ?thesis
    proof (cases "ta = tb")
      case True
      then have "ra \<le> rb" unfolding ra_def rb_def using ab by (simp add: double_bits_mono)
      with True fb bb have "\<not> 1024 \<le> ta + (if ra = 2 ^ 53 then 1 else 0)" by (auto split: if_split_asm)
      with fb show ?thesis using True \<open>ra \<le> rb\<close> by (simp add: da db)
    next
      case False
      with t have lt: "ta + 1 \<le> tb" by simp
      with fb have fa: "\<not> 1024 \<le> ta + (if ra = 2 ^ 53 then 1 else 0)" by (auto split: if_split_asm)
      have "(2::nat) ^ 1 \<le> 2 ^ nat (tb - ta)" using lt by (intro power_increasing) simp_all
      then have "ra \<le> rb * 2 ^ nat (tb - ta)"
        using ba(2) bb(1) mult_le_mono [OF bb(1) \<open>(2::nat) ^ 1 \<le> 2 ^ nat (tb - ta)\<close>] by simp
      then have "int ra \<le> int (rb * 2 ^ nat (tb - ta))" by (simp only: of_nat_le_iff)
      then have "int ra \<le> int rb * 2 ^ nat (tb - 52 - (ta - 52))" by simp
      with fa fb t show ?thesis by (simp add: da db js_le_JFin)
    qed
  qed
qed

lemma double_of_fixed8_mono:
  assumes "0 \<le> m" "m \<le> m'"
  shows "js_le (double_of_fixed8 m) (double_of_fixed8 m')"
proof (cases "m = 0")
  case True
  then show ?thesis using assms double_of_fixed8_zero_le [of m'] by (simp add: double_of_fixed8_def)
next
  case False
  with assms have "0 < nat m" "nat m \<le> nat m'" by simp_all
  from double_of_fixed8_mono_pos [OF this] assms show ?thesis by simp
qed

lemma floor_div_mono:
  fixes n m c :: int
  assumes le: "n * 10 ^ j \<le> m * 10 ^ k" and c: "0 \<le> c"
  shows "(n * c) div 10 ^ k \<le> (m * c) div 10 ^ j"
proof -
  have "real_of_int (n * 10 ^ j) \<le> real_of_int (m * 10 ^ k)" using le by (simp only: of_int_le_iff)
  then have "real_of_int (n * 10 ^ j) * real_of_int c \<le> real_of_int (m * 10 ^ k) * real_of_int c"
    using c by (intro mult_right_mono) simp_all
  then have "real_of_int (n * c) / real_of_int (10 ^ k) \<le> real_of_int (m * c) / real_of_int (10 ^ j)"
    by (simp add: field_simps)
  then have "\<lfloor>real_of_int (n * c) / real_of_int (10 ^ k)\<rfloor> \<le> \<lfloor>real_of_int (m * c) / real_of_int (10 ^ j)\<rfloor>"
    by (rule floor_mono)
  then show ?thesis by (simp only: floor_divide_of_int_eq)
qed

lemma ndigits_bounds: "0 < n \<Longrightarrow> 10 ^ (ndigits n - 1) \<le> n \<and> n < 10 ^ ndigits n"
proof (induction n rule: ndigits.induct)
  case (1 n)
  show ?case
  proof (cases "n < 10")
    case True
    with "1.prems" show ?thesis by (simp add: ndigits.simps)
  next
    case False
    then have IH: "10 ^ (ndigits (n div 10) - 1) \<le> n div 10 \<and> n div 10 < 10 ^ ndigits (n div 10)"
      using "1.IH" by simp
    have nd: "ndigits n = Suc (ndigits (n div 10))" using False by (simp add: ndigits.simps [of n])
    have pos: "0 < ndigits (n div 10)" by (simp add: ndigits.simps [of "n div 10"])
    have "10 ^ (ndigits n - 1) = 10 * 10 ^ (ndigits (n div 10) - 1)"
      using pos nd by (cases "ndigits (n div 10)") simp_all
    also have "\<dots> \<le> 10 * (n div 10)" using IH by simp
    also have "\<dots> \<le> n" by simp
    finally have lo: "10 ^ (ndigits n - 1) \<le> n" .
    have "n < 10 * (n div 10 + 1)" by simp
    also have "\<dots> \<le> 10 * 10 ^ ndigits (n div 10)" using IH by simp
    finally show ?thesis using lo nd by simp
  qed
qed

text \<open>The decimal exponent of the leading digit of \<open>n / 10 ^ k\<close>, which \<open>bn_norm\<close> checks.\<close>

lemma lead_exp_mono:
  fixes n m :: nat
  assumes n: "0 < n" and m: "0 < m" and le: "n * 10 ^ j \<le> m * 10 ^ k"
  shows "int (ndigits n) - 1 - int k \<le> int (ndigits m) - 1 - int j"
proof (rule ccontr)
  assume "\<not> ?thesis"
  then have e: "ndigits m + k \<le> ndigits n - 1 + j" using ndigits_bounds [OF n] by linarith
  have "m * 10 ^ k < 10 ^ ndigits m * 10 ^ k" using ndigits_bounds [OF m] by simp
  also have "\<dots> = 10 ^ (ndigits m + k)" by (simp add: power_add)
  also have "\<dots> \<le> 10 ^ (ndigits n - 1 + j)" using e by (intro power_increasing) simp_all
  also have "\<dots> = 10 ^ (ndigits n - 1) * 10 ^ j" by (simp add: power_add)
  also have "\<dots> \<le> n * 10 ^ j" using ndigits_bounds [OF n] by simp
  finally show False using le by simp
qed

lemma to_fixed8_norm_zero_le:
  "0 \<le> m \<Longrightarrow> js_le (JFin 0 0) (js_number (to_fixed8_floor (bn_norm m j)))"
  by (auto simp: bn_norm_def Let_def double_of_fixed8_zero_le pos_imp_zdiv_nonneg_iff
      double_of_fixed8_def [of 0])

lemma to_fixed8_norm_mono:
  assumes n: "0 \<le> n" and le: "n * 10 ^ j \<le> m * 10 ^ k"
  shows "js_le (js_number (to_fixed8_floor (bn_norm n k))) (js_number (to_fixed8_floor (bn_norm m j)))"
proof (cases "n = 0")
  case True
  with le have "0 \<le> m * 10 ^ k" by simp
  moreover have "\<not> (10::int) ^ k \<le> 0" by (simp add: not_le)
  ultimately have "0 \<le> m" by (auto simp: zero_le_mult_iff)
  moreover have "bn_norm n k = BFin 0 0" using True by (simp add: bn_norm_def)
  ultimately show ?thesis by (simp add: double_of_fixed8_def [of 0] to_fixed8_norm_zero_le)
next
  case False
  with n have n0: "0 < n" by simp
  then have "0 < n * 10 ^ j" by simp
  with le have "0 < m * 10 ^ k" by linarith
  then have m0: "0 < m" by (simp add: zero_less_mult_iff)
  define en where "en = int (ndigits (nat n)) - 1 - int k"
  define em where "em = int (ndigits (nat m)) - 1 - int j"
  have "int (nat n * 10 ^ j) \<le> int (nat m * 10 ^ k)" using le n0 m0 by simp
  then have "nat n * 10 ^ j \<le> nat m * 10 ^ k" by (simp only: of_nat_le_iff)
  then have e: "en \<le> em" unfolding en_def em_def using n0 m0 by (intro lead_exp_mono) simp_all
  have ln: "bn_norm n k = (if bn_max_exp < en then BInf False else if en < - bn_max_exp then BFin 0 0 else BFin n k)"
    using n0 by (simp add: bn_norm_def en_def Let_def)
  have lm: "bn_norm m j = (if bn_max_exp < em then BInf False else if em < - bn_max_exp then BFin 0 0 else BFin m j)"
    using m0 by (simp add: bn_norm_def em_def Let_def)
  have q: "0 \<le> (n * 100000000) div 10 ^ k" using n0 by (simp add: pos_imp_zdiv_nonneg_iff)
  have qq: "(n * 100000000) div 10 ^ k \<le> (m * 100000000) div 10 ^ j" using le by (rule floor_div_mono) simp
  show ?thesis
  proof (cases "bn_max_exp < em")
    case True
    then show ?thesis by (simp add: lm js_number.simps double_of_fixed8_not_NaN ln split: if_split)
  next
    case False
    with e have ne: "\<not> bn_max_exp < en" by simp
    show ?thesis
    proof (cases "en < - bn_max_exp")
      case True
      with ne show ?thesis using m0 to_fixed8_norm_zero_le [of m j]
        by (simp add: ln double_of_fixed8_def [of 0])
    next
      case nl: False
      with e False have "\<not> em < - bn_max_exp" by simp
      with False ne nl show ?thesis using double_of_fixed8_mono [OF q qq] by (simp add: ln lm)
    qed
  qed
qed

subsection \<open>Monotonicity of the codec\<close>

text \<open>
  C14: the amount codec is monotone on non-negative amounts: when the amount \<open>a\<close>
  reads as the number \<open>n / 10 ^ k\<close>, the amount \<open>b\<close> as \<open>m / 10 ^ j\<close> and
  \<open>0 \<le> n / 10 ^ k \<le> m / 10 ^ j\<close>, then the JavaScript number the codec makes of \<open>a\<close>
  is at most the one it makes of \<open>b\<close>, through every stage: the range check of
  bignumber.js, the floor of \<open>toFixed\<close> and the round-half-even conversion of
  \<open>Number()\<close>, across binary exponents and up to infinity.
\<close>

theorem to_satoshi_monotone:
  assumes "parse_bignumber a = BFin n k" and "parse_bignumber b = BFin m j"
    and "0 \<le> n" and "n * 10 ^ j \<le> m * 10 ^ k"
  shows "js_le (to_satoshi a) (to_satoshi b)"
proof -
  have "0 \<le> n * 100000000" using assms(3) by simp
  moreover have "(n * 100000000) * 10 ^ j \<le> (m * 100000000) * 10 ^ k" using assms(4) by simp
  ultimately have "js_le (js_number (to_fixed8_floor (bn_norm (n * 100000000) k)))
      (js_number (to_fixed8_floor (bn_norm (m * 100000000) j)))"
    by (rule to_fixed8_norm_mono)
  then show ?thesis by (simp add: to_satoshi_def assms(1,2))
qed

theorem to_satoshi_monotone_witness:
  "parse_bignumber ''1.5'' = BFin 15 1 \<and> parse_bignumber ''2'' = BFin 2 0 \<and>
   js_le (to_satoshi ''1.5'') (to_satoshi ''2'')"
proof -
  have a: "parse_bignumber ''1.5'' = BFin 15 1" by (simp add: amount_simps)
  have b: "parse_bignumber ''2'' = BFin 2 0" by (simp add: amount_simps)
  show ?thesis using to_satoshi_monotone [OF a b] a b by simp
qed

end
