(* ===== verification/Spec2Isabelle.thy ===== *)
theory Spec2Isabelle
  imports Orchestrator AmountOrder
begin

text \<open>
  \<^bold>\<open>Off-chain withdrawals of tatum-js.\<close> A verification development for
  \<open>src/src/offchain/bitcoin.ts\<close> and \<open>src/offchain/litecoin.ts\<close>: the functions that
  send a Bitcoin or Litecoin withdrawal from a Tatum ledger account to the chain.

  \<^bold>\<open>The program.\<close> \<open>sendBitcoinOffchainTransaction\<close> (bitcoin.ts 15--42) and
  \<open>sendLitecoinOffchainTransaction\<close> (litecoin.ts 9--36) validate the request, default
  the fee, store the withdrawal in the ledger (\<open>offchainStoreWithdrawal\<close>, which
  returns the withdrawal id and the inputs to spend), call the preparation function and
  broadcast its result (\<open>offchainBroadcast\<close>); a failure of preparation or broadcast
  cancels the stored withdrawal (\<open>offchainCancelWithdrawal\<close>) and rethrows.
  \<open>prepareBitcoinSignedOffchainTransaction\<close> (bitcoin.ts 55--93) and
  \<open>prepareLitecoinSignedOffchainTransaction\<close> (litecoin.ts 38--76) drive a bitcoinjs-lib
  \<open>TransactionBuilder\<close>: one input per entry of \<open>data\<close> whose \<open>vIn\<close> is not \<open>'-1'\<close>, the
  primary output, the change output (amount of the \<open>'-1'\<close> entry, address derived from
  the mnemonic or given as \<open>attr\<close>), one signature per input, \<open>build()\<close>. Amounts are
  converted by \<open>Number(new BigNumber(a).multipliedBy(1e8).toFixed(8, ROUND_FLOOR))\<close>.

  \<^bold>\<open>Theories.\<close>
  \<^item> \<open>Prelude\<close>: the \<open>error\<close> datatype (one constructor per throw site), \<open>sbind\<close> for
    computations that may throw (\<open>error + 'a\<close>, \<open>Inl\<close> the thrown error), JavaScript
    truthiness, list lemmas (\<open>sep_after\<close>), determinism of relations.
  \<^item> \<open>Amount\<close>: the amount codec, stage by stage: \<open>parse_bignumber\<close> (the bignumber.js
    string parser: decimal and exponent syntax, whitespace and \<open>+\<close> stripping,
    \<open>Infinity\<close>, \<open>NaN\<close>, exponent limit \<open>10 ^ 9\<close>), \<open>bn_mult\<close>, \<open>to_fixed8_floor\<close>,
    \<open>double_of_fixed8\<close> (IEEE-754 round-half-even conversion of the decimal string to a
    double, a double being \<open>JFin m e = m * 2 ^ e\<close>), \<open>to_satoshi\<close> their composition
    (bitcoin.ts 67, 70, 72) and \<open>satoshi_of\<close>, the Satoshi check of \<open>addOutput\<close>.
  \<^item> \<open>AmountOrder\<close>: JavaScript's \<open><=\<close> on numbers (\<open>js_le\<close>) and the monotonicity
    of every stage of the codec: the exponent range check, the floor of \<open>toFixed\<close>, the
    binary exponent and significand bounds of the round-half-even conversion.
  \<^item> \<open>TxBuilder\<close>: the bitcoinjs-lib \<open>TransactionBuilder\<close> operations the sources call,
    \<open>add_input\<close>, \<open>add_output\<close>, \<open>sign\<close> (with its network check), \<open>build\<close>, with their guards, as functions on a
    record \<open>tx_builder\<close>; a signature is the key with the inputs and outputs it commits
    to (\<open>SIGHASH_ALL\<close>). \<open>builder_reach\<close> is the inductive set of builders reachable by
    successful calls; \<open>builder_wf\<close> is its invariant (every signature commits to the
    current inputs and outputs) and \<open>build_wf_sound\<close> turns it into soundness of the
    built transaction.
  \<^item> \<open>TxWire\<close>: \<open>Transaction.toHex()\<close>: the legacy serialisation (little-endian
    integers \<open>le_bytes\<close>, CompactSize \<open>varint\<close>, \<open>serialize_tx\<close>) and \<open>hex_encode\<close>, with a
    reference parser \<open>parse_tx\<close> and the round trip \<open>parse_tx_serialize\<close> for every
    well-typed transaction whose sizes fit the encoding; the scriptSig bytes are an
    abstract function \<open>ss\<close> of the input's index and signature.
  \<^item> \<open>Offchain\<close>: the preparation function statement by statement: \<open>add_inputs\<close>
    (the \<open>forEach\<close>), \<open>change_carrier\<close> (\<open>find\<close>), \<open>change_output\<close> (the
    \<open>if (mnemonic) ... else if (keyPair && changeAddress) ... else throw\<close> chain),
    \<open>input_key\<close> and \<open>sign_inputs\<close> (the signing loop over \<open>data.entries()\<close>), composed in
    \<open>prepare_signed\<close> (up to \<open>tx.build()\<close>) and \<open>prepare_hex\<close> (its \<open>toHex()\<close>, the
    returned string); \<open>prepareBitcoinSignedOffchainTransaction\<close> and
    \<open>prepareLitecoinSignedOffchainTransaction\<close> are its two instances and return that
    string. Wallet and key derivation, WIF decoding, address decoding and the scriptSig
    bytes \<open>tx.sign\<close> makes are the fields of a record \<open>'k crypto\<close>, so the theorems
    hold for every implementation of them.
  \<^item> \<open>Orchestrator\<close>: the send functions, twice: \<open>send_offchain\<close> returns the trace
    of ledger calls and the result; \<open>orch_step\<close> is a transition relation between the
    phases of the body (\<open>Start\<close>, \<open>Storing\<close>, \<open>Preparing\<close>, \<open>Broadcasting\<close>,
    \<open>Cancelling\<close>, \<open>Done\<close>). The awaited services are the record \<open>services\<close>; the
    broadcast call carries the hex string the preparation returned (\<open>txData\<close>).
  \<^item> \<open>Spec2Isabelle\<close> (this theory): the properties that compose the orchestrator
    with the preparation and the wire format, evaluated on the scenario of the
    specification (a Litecoin run of it, and its txid \<open>abc\<close>).

  \<^bold>\<open>What is proved.\<close> Builder (lemmas): every transaction built from a reachable
  builder is sound (\<open>builder_reach_sound\<close>, by rule induction over \<open>builder_reach\<close>)
  and well typed, and a signed input freezes the inputs, the outputs and its
  signature (\<open>builder_signed_frozen\<close>).
  Preparation: input \<open>j\<close> spends the \<open>j\<close>-th real entry and is signed by that
  entry's key pair (\<open>prepare_positional\<close>), the two outputs in order
  (\<open>prepare_outputs\<close>), the error paths (missing change carrier, missing credentials,
  missing key pair, no real input), that the network check of \<open>sign\<close> never throws
  because the key pairs are decoded for the builder's network
  (\<open>prepare_consistent_network\<close>), and the equivalences of the two credential modes.
  Orchestrator: every reachable trace of ledger calls is legal (\<open>orch_reach_legal\<close>,
  by rule induction over an invariant of the phases), the compensation on every
  failure path, the successful path and the stored withdrawal; the function
  \<open>send_offchain\<close> and the relation \<open>orch_step\<close> agree (\<open>send_offchain_refines\<close>, a
  lemma), so the properties of either hold of both.
  Composition: a successful send broadcast the hex of a sound, well-typed
  transaction that the preparation built from the ledger's inputs and the request
  (\<open>send_success_broadcasts_prepared\<close>); decoding that hex gives version 2,
  locktime 0, the real inputs in order and a first output paying the requested amount
  to the requested address (\<open>send_broadcast_decodes\<close>); a transaction id that is not a
  32-byte hash is never broadcast and the withdrawal is cancelled
  (\<open>send_bad_txid_cancels\<close>). The preparation never reads the amount of a real input
  (\<open>prepare_ignores_input_amounts\<close>).
  Codec: monotonicity on non-negative amounts (\<open>to_satoshi_monotone\<close>, across
  binary exponents and up to \<open>Infinity\<close>), exactness on plain decimals, rejection of
  negative amounts (\<open>to_satoshi_negative\<close>, from the sign symmetry of \<open>Number()\<close>),
  and two amounts on which it departs from the specification.

  \<^bold>\<open>Bounds.\<close> There is no fuel: every loop of the sources is a \<open>forEach\<close> or
  \<open>for ... of\<close> over a finite array, modelled by structural recursion (\<open>add_inputs\<close>,
  \<open>sign_inputs\<close>); the orchestrator's body has no loop. JavaScript
  numbers are modelled exactly as binary64 values (53-bit significand, overflow to
  infinity from \<open>2 ^ 1024\<close>); the codec's exactness holds up to \<open>21 * 10 ^ 14\<close> base
  units, below \<open>2 ^ 53\<close>. Counts and lengths on the wire are CompactSize values, so the
  round trips assume fewer than \<open>2 ^ 64\<close> inputs, outputs and script bytes
  (\<open>wire_sized\<close>); the concrete instances satisfy it with scripts of at most 34 bytes.

  \<^bold>\<open>Findings.\<close> \<open>toFixed(8, ROUND_FLOOR)\<close> after the multiplication does not make the
  amount an integer and \<open>Number()\<close> can round up (\<open>Amount\<close>); the signing index counts
  the change carriers, so a carrier before a real input makes signing fail
  (\<open>prepare_change_carrier_last\<close>); an input set with no real input is rejected by
  \<open>build()\<close>; the amounts of the real inputs are never read, so the fee the
  transaction pays is not checked against \<open>fee\<close> (\<open>prepare_ignores_input_amounts\<close>);
  a failing cancellation replaces the original error
  (\<open>send_cancel_error_replaces\<close>); the specification's own scenario, with the txid
  \<open>abc\<close>, cannot be prepared (\<open>send_bad_txid_cancels\<close>, evaluated on it in its witness).

  \<^bold>\<open>Not modelled.\<close> The bytes of a scriptSig (ECDSA signature and public key) and
  the segwit serialisation, which the P2PKH inputs signed here do not use; they are
  the collaborator \<open>script_sig\<close>. The internals of bitcoinjs-lib beyond the
  guards the sources reach (script templates, signature bytes), of \<open>ECPair\<close> and of \<open>../wallet\<close> (HD derivation): they are
  libraries the sources only call, represented by \<open>'k crypto\<close>. The ledger API and
  \<open>validateOrReject\<close>: external I/O, represented by \<open>services\<close>. \<open>console.error\<close>:
  logging. Base-prefixed literals (\<open>0x\<close>, \<open>0b\<close>, \<open>0o\<close>) in amounts are read as \<open>NaN\<close>.
\<close>

subsection \<open>The scenario of the specification\<close>

definition scenario_input :: "txid \<Rightarrow> withdrawal_response_data" where
  "scenario_input t = \<lparr>vIn = t, vInIndex = 0, wr_amount = ''2.0'',
     wr_address = Some \<lparr>ra_address = ''addrS'', ra_derivationKey = 0\<rparr>\<rparr>"

definition scenario_carrier :: withdrawal_response_data where
  "scenario_carrier = \<lparr>vIn = ''-1'', vInIndex = 0, wr_amount = ''0.4995'', wr_address = None\<rparr>"

definition scenario_services :: "txid \<Rightarrow> services" where
  "scenario_services t =
     \<lparr>sv_validate = (\<lambda>b. True),
      sv_store = (\<lambda>w. Inr (''w1'', [scenario_input t, scenario_carrier])),
      sv_cancel = (\<lambda>wid. None),
      sv_broadcast = (\<lambda>tx wid cur. Inr ''txid1'')\<rparr>"

definition scenario_request :: transfer_body where
  "scenario_request =
     \<lparr>senderAccountId = ''acc'', bd_address = ''addrA'', bd_amount = ''1.5'', bd_fee = None,
      bd_mnemonic = Some ''m'', bd_keyPair = None, bd_attr = None\<rparr>"

definition scenario_withdrawal :: withdrawal where
  "scenario_withdrawal =
     \<lparr>wd_senderAccountId = ''acc'', wd_address = ''addrA'', wd_amount = ''1.5'', wd_fee = Some ''0.0005''\<rparr>"

text \<open>
  The collaborators of the concrete instance with an address decoder that rejects
  strings longer than 34 characters, the length of a Base58 address, so that every
  output script has a bounded size.
\<close>

definition scenario_crypto :: "string crypto" where
  "scenario_crypto =
     demo_crypto\<lparr>to_output_script :=
       (\<lambda>net a. if a = [] \<or> 34 < length a then None else Some (map (\<lambda>c. word_of_nat (of_char c)) a))\<rparr>"

lemma scenario_sat: "satoshi_of (to_satoshi ''0.4995'') = Some 49950000"
proof -
  have p: "parse_decimal ''0.4995'' = Some (False, ''0'', ''4995'', 0)"
    by (simp add: parse_decimal_def is_dec_digit_def)
  show ?thesis
    using to_satoshi_decimal [OF p] by (simp add: satoshi_of_def digits_val_def digit_val_def)
qed

lemma scenario_hash: "txid_hash ''abababababababababababababababababababababababababababababababab'' = replicate 32 171"
  by (simp add: txid_hash_def hex_val_def) (simp add: numeral_eq_Suc)

subsection \<open>End-to-end properties\<close>

lemma scenario_abc:
  "send_offchain demo_crypto (scenario_services ''abc'') BTC False scenario_request =
   ([Store scenario_withdrawal, Cancel ''w1''], Inl Invalid_txid)"
  by (simp add: send_offchain_def split_body_def default_fee_def scenario_request_def scenario_withdrawal_def
      scenario_services_def prepare_for_def prepareBitcoinSignedOffchainTransaction_def prepare_hex_def prepare_signed_def
      scenario_input_def scenario_carrier_def is_change_carrier_def builder_simps txid_hash_def hex_val_def
      cancel_and_rethrow_def)

text \<open>
  C4: the composition of the orchestrator with the preparation: a successful send
  broadcast the hex of the transaction that \<open>prepare*SignedOffchainTransaction\<close>
  built from the inputs the ledger returned for the stored withdrawal and from the
  request's amount, address and credentials, and that transaction is sound and well
  typed.
\<close>

theorem send_success_broadcasts_prepared:
  "send_offchain c sv cur tn body = (tr, Inr r) \<Longrightarrow>
   \<exists>w wid data t. tr = [Store w, Broadcast (tx_to_hex (script_sig c) t) wid cur] \<and>
     sv_store sv w = Inr (wid, data) \<and>
     prepare_signed c cur tn data (bd_amount body) (bd_address body) (bd_mnemonic body)
       (bd_keyPair body) (bd_attr body) = Inr t \<and>
     tx_sound t \<and> tx_typed t"
proof -
  assume "send_offchain c sv cur tn body = (tr, Inr r)"
  from send_offchain_Inr [OF this] obtain m kp ca w wid data h where
    sb: "split_body body = (m, kp, ca, w)" and st: "sv_store sv (default_fee w) = Inr (wid, data)" and
    p: "prepare_for c cur tn wid data (wd_amount (default_fee w)) (wd_address (default_fee w)) m kp ca = Inr h" and
    tr: "tr = [Store (default_fee w), Broadcast h wid cur]" by blast
  from prepare_for_Inr [OF p] split_body_request [OF sb] obtain t where
    pt: "prepare_signed c cur tn data (bd_amount body) (bd_address body) (bd_mnemonic body)
       (bd_keyPair body) (bd_attr body) = Inr t" and h: "h = tx_to_hex (script_sig c) t" by auto
  show ?thesis using tr st pt h prepare_sound_typed [OF pt] by blast
qed

text \<open>
  C5: what a node decoding the broadcast hex sees, when the ledger returns fewer
  than \<open>2 ^ 64\<close> inputs and scripts and scriptSigs are shorter than \<open>2 ^ 64\<close> bytes:
  version 2, locktime 0, one input per real entry of the stored withdrawal's
  inputs, in their order, with the final sequence number, and a first output paying
  the requested amount, in base units, to the script of the requested address.
\<close>

theorem send_broadcast_decodes:
  assumes run: "send_offchain c sv cur tn body = (tr, Inr r)"
    and data: "\<forall>w wid data. sv_store sv w = Inr (wid, data) \<longrightarrow> length data < 2 ^ 64"
    and scripts: "\<forall>net a s. to_output_script c net a = Some s \<longrightarrow> length s < 2 ^ 64"
    and sigs: "\<forall>i sg. length (script_sig c i sg) < 2 ^ 64"
  shows "\<exists>w wid data h ins v s1 out2. tr = [Store w, Broadcast h wid cur] \<and> sv_store sv w = Inr (wid, data) \<and>
     parse_tx (hex_decode h) = Some (2, ins, [(nat v, s1), out2], 0) \<and>
     map (\<lambda>(op, sc, sq). (op, sq)) ins =
       map (\<lambda>d. (outpoint_of d, 4294967295)) (filter (\<lambda>d. \<not> is_change_carrier d) data) \<and>
     to_output_script c (select_network cur tn) (bd_address body) = Some s1 \<and>
     satoshi_of (to_satoshi (bd_amount body)) = Some v"
proof -
  from send_offchain_Inr [OF run] obtain m kp ca w wid data h where
    sb: "split_body body = (m, kp, ca, w)" and st: "sv_store sv (default_fee w) = Inr (wid, data)" and
    p: "prepare_for c cur tn wid data (wd_amount (default_fee w)) (wd_address (default_fee w)) m kp ca = Inr h" and
    tr: "tr = [Store (default_fee w), Broadcast h wid cur]" by blast
  from prepare_for_Inr [OF p] split_body_request [OF sb] obtain t where
    pt: "prepare_signed c cur tn data (bd_amount body) (bd_address body) m kp ca = Inr t" and
    h: "h = tx_to_hex (script_sig c) t" by auto
  have ws: "wire_sized (script_sig c) t"
    using prepare_wire_sized [OF pt] data st scripts sigs by blast
  have dec: "parse_tx (hex_decode h) =
      Some (2, map (\<lambda>(i, op, sg). (op, script_sig c i sg, 4294967295)) (enumerate 0 (tx_ins t)),
            map (\<lambda>(s, n). (nat n, s)) (tx_outs t), 0)"
    using prepare_sound_typed [OF pt] ws by (simp add: h tx_to_hex_def hex_decode_hex_encode parse_tx_serialize)
  show ?thesis
  proof (rule prepare_pipeline [OF pt])
    fix b3 b4 :: "'a tx_builder" and s1 v1 d s2 v2
    assume q: "tb_ins b3 = map outpoint_of (filter (\<lambda>d. \<not> is_change_carrier d) data)"
      "tb_outs b3 = [(s1, v1), (s2, v2)]"
      "to_output_script c (select_network cur tn) (bd_address body) = Some s1"
      "satoshi_of (to_satoshi (bd_amount body)) = Some v1"
      "tb_ins b4 = tb_ins b3" "tb_outs b4 = tb_outs b3"
      "length (tb_sigs b4) = length (filter (\<lambda>d. \<not> is_change_carrier d) data)"
      "tx_ins t = zip (tb_ins b4) (map the (tb_sigs b4))" "tx_outs t = tb_outs b4"
    have mi: "map fst (tx_ins t) = map outpoint_of (filter (\<lambda>d. \<not> is_change_carrier d) data)"
      using q(1,5,7,8) by simp
    have "map (\<lambda>x. (fst x, 4294967295::nat)) (tx_ins t) =
        map (\<lambda>d. (outpoint_of d, 4294967295)) (filter (\<lambda>d. \<not> is_change_carrier d) data)"
      using arg_cong [where f = "map (\<lambda>x. (x, 4294967295::nat))", OF mi] by (simp add: comp_def)
    then have ins: "map (\<lambda>(op, sc, sq). (op, sq))
        (map (\<lambda>(i, op, sg). (op, script_sig c i sg, 4294967295::nat)) (enumerate 0 (tx_ins t))) =
        map (\<lambda>d. (outpoint_of d, 4294967295)) (filter (\<lambda>d. \<not> is_change_carrier d) data)"
      by (simp only: parsed_inputs_outpoints)
    have "parse_tx (hex_decode h) =
        Some (2, map (\<lambda>(i, op, sg). (op, script_sig c i sg, 4294967295)) (enumerate 0 (tx_ins t)),
              [(nat v1, s1), (nat v2, s2)], 0)"
      using dec q(2,6,9) by simp
    then show ?thesis using ins tr st q(3,4) by blast
  qed
qed

text \<open>
  C12: a transaction id from the ledger that does not decode to a 32-byte hash (the
  specification's own scenario writes \<open>abc\<close>) is never broadcast: \<open>tx.addInput\<close>
  throws during preparation, the stored withdrawal is cancelled with its id, and
  the error propagates, whatever else the request and the inputs hold.
\<close>

theorem send_bad_txid_cancels:
  assumes v: "sv_validate sv body" and sb: "split_body body = (m, kp, ca, w)"
    and st: "sv_store sv (default_fee w) = Inr (wid, data)"
    and d: "d \<in> set data" "\<not> is_change_carrier d" "length (txid_hash (vIn d)) \<noteq> 32"
    and cn: "sv_cancel sv wid = None"
  shows "\<exists>e. send_offchain c sv cur tn body = ([Store (default_fee w), Cancel wid], Inl e)"
proof -
  obtain e where p: "prepare_for c cur tn wid data (wd_amount (default_fee w)) (wd_address (default_fee w)) m kp ca = Inl e"
  proof (cases "prepare_for c cur tn wid data (wd_amount (default_fee w)) (wd_address (default_fee w)) m kp ca")
    case (Inl e)
    then show ?thesis by (rule that)
  next
    case (Inr h)
    from prepare_for_Inr [OF Inr] obtain t where
      "prepare_signed c cur tn data (wd_amount (default_fee w)) (wd_address (default_fee w)) m kp ca = Inr t"
      by blast
    with prepare_txid_length d show ?thesis by blast
  qed
  then show ?thesis using v sb st cn by (simp add: send_offchain_def cancel_and_rethrow_def)
qed

subsection \<open>The composed properties on concrete instances\<close>

lemma scenario_ltc:
  "sendLitecoinOffchainTransaction scenario_crypto (scenario_services ''abababababababababababababababababababababababababababababababab'') False scenario_request =
   ([Store scenario_withdrawal,
     Broadcast (tx_to_hex (script_sig scenario_crypto)
                 \<lparr>tx_ins = [((replicate 32 171, 0), ''keym'', [(replicate 32 171, 0)],
                    [(map (\<lambda>c. word_of_nat (of_char c)) ''addrA'', 150000000),
                     (map (\<lambda>c. word_of_nat (of_char c)) ''chg'', 49950000)])],
                  tx_outs = [(map (\<lambda>c. word_of_nat (of_char c)) ''addrA'', 150000000),
                             (map (\<lambda>c. word_of_nat (of_char c)) ''chg'', 49950000)]\<rparr>) ''w1'' LTC],
    Inr ''txid1'')"
  by (simp add: sendLitecoinOffchainTransaction_def send_offchain_def split_body_def default_fee_def
      scenario_request_def scenario_withdrawal_def scenario_services_def prepare_for_def
      prepareLitecoinSignedOffchainTransaction_def prepare_hex_def prepare_signed_def
      scenario_crypto_def demo_crypto_def scenario_input_def scenario_carrier_def is_change_carrier_def
      builder_simps scenario_hash demo_sat scenario_sat change_output_def change_carrier_def carrier_amount_def
      input_key_def wif_key_def prep_env_of_def select_network_def list_all_iff)

theorem send_success_broadcasts_prepared_witness:
  "send_offchain demo_crypto demo_services BTC False demo_body =
     ([Store demo_withdrawal, Broadcast demo_hex ''w1'' BTC], Inr ''txid1'') \<and>
   (\<exists>w wid data t. [Store demo_withdrawal, Broadcast demo_hex ''w1'' BTC] =
       [Store w, Broadcast (tx_to_hex (script_sig demo_crypto) t) wid BTC] \<and>
     sv_store demo_services w = Inr (wid, data) \<and>
     prepare_signed demo_crypto BTC False data ''1.5'' ''dest'' (Some ''m'') None None = Inr t \<and>
     tx_sound t \<and> tx_typed t)"
  using send_success_broadcasts_prepared [OF demo_send] demo_send by (simp add: demo_body_def)

theorem send_broadcast_decodes_witness:
  "sendLitecoinOffchainTransaction scenario_crypto (scenario_services ''abababababababababababababababababababababababababababababababab'') False scenario_request =
     (fst (sendLitecoinOffchainTransaction scenario_crypto (scenario_services ''abababababababababababababababababababababababababababababababab'') False scenario_request), Inr ''txid1'') \<and>
   (\<exists>w wid data h ins v s1 out2.
     fst (sendLitecoinOffchainTransaction scenario_crypto (scenario_services ''abababababababababababababababababababababababababababababababab'') False scenario_request) =
       [Store w, Broadcast h wid LTC] \<and>
     sv_store (scenario_services ''abababababababababababababababababababababababababababababababab'') w = Inr (wid, data) \<and>
     parse_tx (hex_decode h) = Some (2, ins, [(nat v, s1), out2], 0) \<and>
     map (\<lambda>(op, sc, sq). (op, sq)) ins =
       map (\<lambda>d. (outpoint_of d, 4294967295)) (filter (\<lambda>d. \<not> is_change_carrier d) data) \<and>
     to_output_script scenario_crypto Litecoin ''addrA'' = Some s1 \<and>
     satoshi_of (to_satoshi ''1.5'') = Some v)"
proof -
  have run: "send_offchain scenario_crypto (scenario_services ''abababababababababababababababababababababababababababababababab'') LTC False scenario_request =
      (fst (sendLitecoinOffchainTransaction scenario_crypto (scenario_services ''abababababababababababababababababababababababababababababababab'') False scenario_request), Inr ''txid1'')"
    using scenario_ltc by (simp add: sendLitecoinOffchainTransaction_def)
  have d: "\<forall>w wid data. sv_store (scenario_services ''abababababababababababababababababababababababababababababababab'') w = Inr (wid, data) \<longrightarrow> length data < 2 ^ 64"
    by (simp add: scenario_services_def)
  have sc: "\<forall>net a s. to_output_script scenario_crypto net a = Some s \<longrightarrow> length s < 2 ^ 64"
    by (auto simp: scenario_crypto_def)
  have sg: "\<forall>i sg. length (script_sig scenario_crypto i sg) < 2 ^ 64"
    by (simp add: scenario_crypto_def demo_crypto_def)
  show ?thesis
    using send_broadcast_decodes [OF run d sc sg] run
    by (simp add: sendLitecoinOffchainTransaction_def scenario_request_def select_network_def)
qed

theorem send_bad_txid_cancels_witness:
  "send_offchain demo_crypto (scenario_services ''abc'') BTC False scenario_request =
     ([Store scenario_withdrawal, Cancel ''w1''], Inl Invalid_txid) \<and>
   (\<exists>e. send_offchain demo_crypto (scenario_services ''abc'') BTC False scenario_request =
     ([Store scenario_withdrawal, Cancel ''w1''], Inl e))"
proof -
  let ?w = "\<lparr>wd_senderAccountId = ''acc'', wd_address = ''addrA'', wd_amount = ''1.5'', wd_fee = None\<rparr>"
  have v: "sv_validate (scenario_services ''abc'') scenario_request" by (simp add: scenario_services_def)
  have sb: "split_body scenario_request = (Some ''m'', None, None, ?w)"
    by (simp add: split_body_def scenario_request_def)
  have w: "default_fee ?w = scenario_withdrawal" by (simp add: default_fee_def scenario_withdrawal_def)
  have st: "sv_store (scenario_services ''abc'') (default_fee ?w) =
      Inr (''w1'', [scenario_input ''abc'', scenario_carrier])" by (simp add: scenario_services_def)
  have d: "scenario_input ''abc'' \<in> set [scenario_input ''abc'', scenario_carrier]"
    "\<not> is_change_carrier (scenario_input ''abc'')"
    "length (txid_hash (vIn (scenario_input ''abc''))) \<noteq> 32"
    by (simp_all add: scenario_input_def is_change_carrier_def txid_hash_def hex_val_def)
  have cn: "sv_cancel (scenario_services ''abc'') ''w1'' = None" by (simp add: scenario_services_def)
  show ?thesis
    using send_bad_txid_cancels [OF v sb st d cn, of demo_crypto BTC False] scenario_abc by (simp add: w)
qed

end
